(* ===== verification/Prelude.thy ===== *)
theory Prelude
  imports Main "HOL-Library.Word"
begin

text \<open>
  The prelude of the development: the result type every fallible operation of the program
  returns, its sequencing combinators, the machine integers of Go, and the generic lemmas
  the component theories share.

  Go returns a pair of a value and an error; a caller that sees an error returns at once.
  The model returns \<open>error + value\<close>: \<open>Inl e\<close> is a non-nil error, \<open>Inr v\<close> a value with a
  nil error. \<^theory_text>\<open>rbind\<close> is the statement sequence
  \<^verbatim>\<open>x, err := m; if err != nil { return err }; f(x)\<close>, and \<^theory_text>\<open>rmap_err\<close> is an
  \<^verbatim>\<open>fmt.Errorf("...: %w", err)\<close> around a call.
\<close>

named_theorems result_simps \<open>unfolding of result sequencing into its cases\<close>
named_theorems go_ints \<open>conversions between Go integer types and the integers\<close>

section \<open>Results\<close>

type_synonym ('e, 'a) result = "'e + 'a"

definition rbind :: "('e, 'a) result \<Rightarrow> ('a \<Rightarrow> ('e, 'b) result) \<Rightarrow> ('e, 'b) result" where
  "rbind m f = (case m of Inl e \<Rightarrow> Inl e | Inr x \<Rightarrow> f x)"

definition rmap_err :: "('e \<Rightarrow> 'f) \<Rightarrow> ('e, 'a) result \<Rightarrow> ('f, 'a) result" where
  "rmap_err g m = (case m of Inl e \<Rightarrow> Inl (g e) | Inr x \<Rightarrow> Inr x)"

definition isOk :: "('e, 'a) result \<Rightarrow> bool" where
  "isOk m = (case m of Inl _ \<Rightarrow> False | Inr _ \<Rightarrow> True)"

lemma rbind_simps [simp]:
  "rbind (Inl e) f = Inl e"
  "rbind (Inr x) f = f x"
  by (simp_all add: rbind_def)

lemma rmap_err_simps [simp]:
  "rmap_err g (Inl e) = Inl (g e)"
  "rmap_err g (Inr x) = Inr x"
  by (simp_all add: rmap_err_def)

lemma isOk_simps [simp]: "\<not> isOk (Inl e)" "isOk (Inr x)"
  by (simp_all add: isOk_def)

lemma rbind_eq_Inr [result_simps]: "rbind m f = Inr y \<longleftrightarrow> (\<exists>x. m = Inr x \<and> f x = Inr y)"
  by (cases m) auto

lemma rbind_eq_Inl [result_simps]:
  "rbind m f = Inl e \<longleftrightarrow> m = Inl e \<or> (\<exists>x. m = Inr x \<and> f x = Inl e)"
  by (cases m) auto

lemma rmap_err_eq_Inr [result_simps]: "rmap_err g m = Inr y \<longleftrightarrow> m = Inr y"
  by (cases m) auto

lemma rmap_err_eq_Inl [result_simps]: "rmap_err g m = Inl e \<longleftrightarrow> (\<exists>e'. m = Inl e' \<and> e = g e')"
  by (cases m) auto

lemma isOk_iff: "isOk m \<longleftrightarrow> (\<exists>x. m = Inr x)"
  by (cases m) auto

lemma rbind_cong [fundef_cong]:
  "m = m' \<Longrightarrow> (\<And>x. m' = Inr x \<Longrightarrow> f x = f' x) \<Longrightarrow> rbind m f = rbind m' f'"
  by (cases m') auto

text \<open>
  A Go loop that appends the result of a fallible call for each element and returns the
  first error, which the call site wraps with the element's index.
\<close>

fun rmap_from :: "nat \<Rightarrow> (nat \<Rightarrow> 'a \<Rightarrow> ('e, 'b) result) \<Rightarrow> 'a list \<Rightarrow> ('e, 'b list) result" where
  "rmap_from i f [] = Inr []"
| "rmap_from i f (x # xs) =
     (case f i x of Inl e \<Rightarrow> Inl e
      | Inr y \<Rightarrow> (case rmap_from (Suc i) f xs of Inl e \<Rightarrow> Inl e | Inr ys \<Rightarrow> Inr (y # ys)))"

abbreviation rmap :: "(nat \<Rightarrow> 'a \<Rightarrow> ('e, 'b) result) \<Rightarrow> 'a list \<Rightarrow> ('e, 'b list) result" where
  "rmap \<equiv> rmap_from 0"

lemma rmap_from_cong [fundef_cong]:
  assumes "xs = ys" and "i = j" and "\<And>k x. x \<in> set ys \<Longrightarrow> f k x = g k x"
  shows "rmap_from i f xs = rmap_from j g ys"
proof -
  have "rmap_from j f ys = rmap_from j g ys" using assms(3)
    by (induction ys arbitrary: j) (auto split: sum.splits)
  with assms(1,2) show ?thesis by simp
qed

lemma rmap_from_Inr_iff:
  "rmap_from i f xs = Inr ys \<longleftrightarrow>
     length ys = length xs \<and> (\<forall>k < length xs. f (i + k) (xs ! k) = Inr (ys ! k))"
proof (induction xs arbitrary: i ys)
  case Nil
  then show ?case by auto
next
  case (Cons x xs)
  show ?case
  proof (cases ys)
    case Nil
    then show ?thesis by (auto split: sum.splits)
  next
    case (Cons y ys')
    have "rmap_from i f (x # xs) = Inr (y # ys') \<longleftrightarrow>
        f i x = Inr y \<and> rmap_from (Suc i) f xs = Inr ys'"
      by (auto split: sum.splits)
    then show ?thesis
      using Cons Cons.IH by (auto simp: All_less_Suc2)
  qed
qed

lemma rmap_from_length: "rmap_from i f xs = Inr ys \<Longrightarrow> length ys = length xs"
  by (simp add: rmap_from_Inr_iff)

lemma rmap_from_all:
  assumes "\<And>k x. x \<in> set xs \<Longrightarrow> f k x = Inr (g x)"
  shows "rmap_from i f xs = Inr (map g xs)"
  using assms by (induction xs arbitrary: i) auto

text \<open>The error of such a loop is the first element's that fails, under its own index.\<close>

lemma rmap_from_Inl_iff:
  "rmap_from i f xs = Inl e \<longleftrightarrow>
     (\<exists>k < length xs. f (i + k) (xs ! k) = Inl e \<and> (\<forall>j < k. isOk (f (i + j) (xs ! j))))"
proof (induction xs arbitrary: i)
  case Nil
  then show ?case by simp
next
  case (Cons x xs)
  show ?case
  proof (cases "f i x")
    case (Inl a)
    have "\<not> isOk (f i x)" by (simp add: Inl)
    then show ?thesis
      using Inl by (auto simp: Ex_less_Suc2 All_less_Suc2)
  next
    case (Inr y)
    then show ?thesis
      using Cons.IH [of "Suc i"]
      by (auto simp: Ex_less_Suc2 All_less_Suc2 split: sum.splits)
  qed
qed

section \<open>Go's machine integers\<close>

text \<open>
  \<^verbatim>\<open>uint32\<close>, \<^verbatim>\<open>uint64\<close>, \<^verbatim>\<open>int32\<close> and \<^verbatim>\<open>int64\<close> are words of their width, so
  arithmetic wraps as in Go; \<open>uint\<close> reads an unsigned word and \<open>sint\<close> a signed one.
  \<^verbatim>\<open>int64(x)\<close> of a \<^verbatim>\<open>uint32\<close> is the zero extension \<open>ucast\<close>.
  The instants of \<^verbatim>\<open>time.Time\<close> are integers (nanoseconds); \<^verbatim>\<open>Time.Sub\<close> saturates at
  the range of \<^verbatim>\<open>time.Duration\<close>, an \<^verbatim>\<open>int64\<close> of nanoseconds.
\<close>

type_synonym u8 = "8 word"
type_synonym u32 = "32 word"
type_synonym u64 = "64 word"
type_synonym i32 = "32 word"
type_synonym i64 = "64 word"
type_synonym duration = "64 word"
type_synonym instant = int

definition second :: duration where "second = 1000000000"
definition minute :: duration where "minute = 60000000000"
definition hour :: duration where "hour = 3600000000000"

definition max_i64 :: int where "max_i64 = 9223372036854775807"
definition min_i64 :: int where "min_i64 = - 9223372036854775808"

definition time_sub :: "instant \<Rightarrow> instant \<Rightarrow> duration" where
  "time_sub a b = word_of_int (max min_i64 (min max_i64 (a - b)))"

definition time_add :: "instant \<Rightarrow> duration \<Rightarrow> instant" where
  "time_add t d = t + sint d"

text \<open>Go's integer division and remainder truncate towards zero.\<close>

definition quot64 :: "i64 \<Rightarrow> i64 \<Rightarrow> i64" where
  "quot64 a b = word_of_int (sgn (sint a) * sgn (sint b) * (\<bar>sint a\<bar> div \<bar>sint b\<bar>))"

lemma sint_64_of_int_eq [go_ints]:
  "- 9223372036854775808 \<le> x \<Longrightarrow> x < 9223372036854775808 \<Longrightarrow> sint (word_of_int x :: i64) = x"
  by (simp add: signed_of_int signed_take_bit_int_eq_self)

lemma sint_64_range: "- 9223372036854775808 \<le> sint (w :: i64)" "sint (w :: i64) < 9223372036854775808"
  using sint_greater_eq [of w] sint_less [of w] by simp_all

lemma uint_32_range: "0 \<le> uint (w :: u32)" "uint (w :: u32) < 4294967296"
  using unsigned_less [of w, where 'a = int] by simp_all

lemma ucast_32_64_of_int: "(ucast (w :: u32) :: i64) = word_of_int (uint w)"
  by simp

lemma sint_ucast_32_64 [go_ints, simp]: "sint (ucast (w :: u32) :: i64) = uint w"
  unfolding ucast_32_64_of_int
  using uint_32_range [of w] by (intro sint_64_of_int_eq) linarith+

lemma sint_minus_ucast_32 [go_ints]:
  "sint (ucast (a :: u32) - ucast (b :: u32) :: i64) = uint a - uint b"
  unfolding ucast_32_64_of_int wi_hom_sub
  using uint_32_range [of a] uint_32_range [of b] by (intro sint_64_of_int_eq) linarith+

lemma sint_time_sub:
  "min_i64 \<le> a - b \<Longrightarrow> a - b \<le> max_i64 \<Longrightarrow> sint (time_sub a b) = a - b"
  unfolding time_sub_def min_i64_def max_i64_def
  by (subst sint_64_of_int_eq) auto

lemma sint_time_sub_ge_iff:
  "sint (d :: duration) \<le> sint (time_sub a b) \<longleftrightarrow> sint d \<le> a - b"
  if "sint d > min_i64"
  using that sint_64_range [of d] unfolding time_sub_def min_i64_def max_i64_def
  by (subst sint_64_of_int_eq) auto

end
