(* ===== verification/Go_Text.thy ===== *)
theory Go_Text
  imports Prelude "HOL-Library.Sublist" "HOL-Library.Char_ord" "HOL-Library.List_Lexorder"
begin

text \<open>
  The functions of Go's \<^verbatim>\<open>strings\<close>, \<^verbatim>\<open>strconv\<close>, \<^verbatim>\<open>encoding/hex\<close> and \<^verbatim>\<open>fmt\<close> packages that
  SoroProbe uses, on \<open>string\<close> read as Go's byte strings (one \<open>char\<close> per byte, so \<open>length\<close>
  is Go's \<^verbatim>\<open>len\<close>). Text outside ASCII is its UTF-8 bytes.

  \<^item> \<open>trim_space\<close>, \<open>to_lower\<close>, \<open>cut\<close>, \<open>contains\<close>, \<open>join\<close>, \<open>split_on\<close>, \<open>replacer\<close>: \<^verbatim>\<open>strings\<close>.
    \<open>to_lower\<close> maps ASCII letters and the two code points whose lower case is ASCII; all
    other code points lower to code points outside ASCII and are left as they are, which no
    comparison of the program (all are with ASCII names) can tell apart.
  \<^item> \<open>itoa\<close>, \<open>set_string\<close>, \<open>parse_uint\<close>, \<open>parse_bool\<close>: \<^verbatim>\<open>strconv\<close> and base 10 \<^verbatim>\<open>big.Int\<close>.
  \<^item> \<open>hex_encode\<close>, \<open>hex_decode\<close>: \<^verbatim>\<open>encoding/hex\<close>.
\<close>

section \<open>Characters\<close>

definition code :: "char \<Rightarrow> nat" where "code c = of_char c"

definition is_digit :: "char \<Rightarrow> bool" where
  "is_digit c \<longleftrightarrow> 48 \<le> code c \<and> code c \<le> 57"

definition is_lower :: "char \<Rightarrow> bool" where
  "is_lower c \<longleftrightarrow> 97 \<le> code c \<and> code c \<le> 122"

definition is_upper :: "char \<Rightarrow> bool" where
  "is_upper c \<longleftrightarrow> 65 \<le> code c \<and> code c \<le> 90"

text \<open>Printable ASCII other than the space: the characters no trimming removes.\<close>

definition plain_char :: "char \<Rightarrow> bool" where
  "plain_char c \<longleftrightarrow> 33 \<le> code c \<and> code c \<le> 126"

lemma code_char_of [simp]: "n < 256 \<Longrightarrow> code (char_of n) = n"
  by (simp add: code_def)

lemma code_inject [simp]: "code c = code d \<longleftrightarrow> c = d"
  by (simp add: code_def)

lemma is_digit_plain: "is_digit c \<Longrightarrow> plain_char c"
  by (simp add: is_digit_def plain_char_def)

section \<open>Trimming, prefixes and cutting\<close>

definition ws_runes :: "string list" where
  "ws_runes =
     [[CHR 0x09], [CHR 0x0A], [CHR 0x0B], [CHR 0x0C], [CHR 0x0D], [CHR 0x20],
      [CHR 0xC2, CHR 0x85], [CHR 0xC2, CHR 0xA0], [CHR 0xE1, CHR 0x9A, CHR 0x80],
      [CHR 0xE2, CHR 0x80, CHR 0x80], [CHR 0xE2, CHR 0x80, CHR 0x81],
      [CHR 0xE2, CHR 0x80, CHR 0x82], [CHR 0xE2, CHR 0x80, CHR 0x83],
      [CHR 0xE2, CHR 0x80, CHR 0x84], [CHR 0xE2, CHR 0x80, CHR 0x85],
      [CHR 0xE2, CHR 0x80, CHR 0x86], [CHR 0xE2, CHR 0x80, CHR 0x87],
      [CHR 0xE2, CHR 0x80, CHR 0x88], [CHR 0xE2, CHR 0x80, CHR 0x89],
      [CHR 0xE2, CHR 0x80, CHR 0x8A], [CHR 0xE2, CHR 0x80, CHR 0xA8],
      [CHR 0xE2, CHR 0x80, CHR 0xA9], [CHR 0xE2, CHR 0x80, CHR 0xAF],
      [CHR 0xE2, CHR 0x81, CHR 0x9F], [CHR 0xE3, CHR 0x80, CHR 0x80]]"

lemma ws_runes_nonempty: "w \<in> set ws_runes \<Longrightarrow> w \<noteq> []"
  by (auto simp: ws_runes_def)

lemma ws_runes_not_plain:
  assumes "w \<in> set ws_runes"
  shows "\<not> plain_char (hd w)" and "\<not> plain_char (last w)"
  using assms by (auto simp: ws_runes_def plain_char_def code_def)

function trim_left :: "string \<Rightarrow> string" where
  "trim_left s = (case find (\<lambda>w. prefix w s) ws_runes of
     None \<Rightarrow> s | Some w \<Rightarrow> trim_left (drop (length w) s))"
  by pat_completeness auto
termination
proof (relation "measure length", simp)
  fix s w
  assume "find (\<lambda>w. prefix w s) ws_runes = Some w"
  then have "w \<in> set ws_runes" and "prefix w s"
    by (auto simp: find_Some_iff)
  then have "w \<noteq> []" and "length w \<le> length s"
    by (auto dest: ws_runes_nonempty prefix_length_le)
  then show "(drop (length w) s, s) \<in> measure length" by (cases w) auto
qed

declare trim_left.simps [simp del]

text \<open>Trimming on the right is trimming on the left of the mirrored text.\<close>

function trim_right :: "string \<Rightarrow> string" where
  "trim_right s = (case find (\<lambda>w. suffix w s) ws_runes of
     None \<Rightarrow> s | Some w \<Rightarrow> trim_right (take (length s - length w) s))"
  by pat_completeness auto
termination
proof (relation "measure length", simp)
  fix s w
  assume "find (\<lambda>w. suffix w s) ws_runes = Some w"
  then have "w \<in> set ws_runes" and "suffix w s"
    by (auto simp: find_Some_iff)
  then have "w \<noteq> []" and "length w \<le> length s"
    by (auto dest: ws_runes_nonempty suffix_length_le)
  then show "(take (length s - length w) s, s) \<in> measure length" by (cases w) auto
qed

declare trim_right.simps [simp del]

definition trim_space :: "string \<Rightarrow> string" where
  "trim_space s = trim_right (trim_left s)"

lemma trim_left_plain: "s \<noteq> [] \<Longrightarrow> plain_char (hd s) \<Longrightarrow> trim_left s = s"
proof -
  assume s: "s \<noteq> []" "plain_char (hd s)"
  have "\<not> prefix w s" if w: "w \<in> set ws_runes" for w
  proof
    assume "prefix w s"
    then have "hd w = hd s" using ws_runes_nonempty [OF w] by (auto simp: prefix_def)
    with s ws_runes_not_plain(1) [OF w] show False by simp
  qed
  then have "find (\<lambda>w. prefix w s) ws_runes = None"
    by (simp add: find_None_iff)
  then show ?thesis by (simp add: trim_left.simps [of s])
qed

lemma trim_right_plain: "s \<noteq> [] \<Longrightarrow> plain_char (last s) \<Longrightarrow> trim_right s = s"
proof -
  assume s: "s \<noteq> []" "plain_char (last s)"
  have "\<not> suffix w s" if w: "w \<in> set ws_runes" for w
  proof
    assume "suffix w s"
    then have "last w = last s" using ws_runes_nonempty [OF w] by (auto simp: suffix_def)
    with s ws_runes_not_plain(2) [OF w] show False by simp
  qed
  then have "find (\<lambda>w. suffix w s) ws_runes = None"
    by (simp add: find_None_iff)
  then show ?thesis by (simp add: trim_right.simps [of s])
qed

lemma trim_space_Nil [simp]: "trim_space [] = []"
  by (simp add: trim_space_def trim_left.simps [of "[]"] trim_right.simps [of "[]"] ws_runes_def)

lemma trim_space_plain:
  "(s \<noteq> [] \<Longrightarrow> plain_char (hd s)) \<Longrightarrow> (s \<noteq> [] \<Longrightarrow> plain_char (last s)) \<Longrightarrow> trim_space s = s"
  by (cases "s = []") (simp_all only: trim_space_Nil, simp add: trim_left_plain trim_right_plain trim_space_def)

lemma trim_space_all_plain: "list_all plain_char s \<Longrightarrow> trim_space s = s"
  by (rule trim_space_plain) (auto simp: list_all_iff)

text \<open>What trimming leaves is a part of the text.\<close>

lemma trim_left_suffix: "suffix (trim_left s) s"
proof (induction s rule: trim_left.induct)
  case (1 s)
  show ?case
  proof (cases "find (\<lambda>w. prefix w s) ws_runes")
    case None
    then show ?thesis by (simp add: trim_left.simps [of s])
  next
    case (Some w)
    then show ?thesis
      using 1 [OF Some] suffix_drop [of "length w" s] suffix_order.trans
      by (simp add: trim_left.simps [of s])
  qed
qed

lemma trim_right_prefix: "prefix (trim_right s) s"
proof (induction s rule: trim_right.induct)
  case (1 s)
  show ?case
  proof (cases "find (\<lambda>w. suffix w s) ws_runes")
    case None
    then show ?thesis by (simp add: trim_right.simps [of s])
  next
    case (Some w)
    then show ?thesis
      using 1 [OF Some] take_is_prefix [of "length s - length w" s] prefix_order.trans
      by (simp add: trim_right.simps [of s])
  qed
qed

lemma trim_space_sublist: "sublist (trim_space s) s"
proof -
  obtain a where a: "s = a @ trim_left s" using trim_left_suffix [of s] by (auto simp: suffix_def)
  obtain b where b: "trim_left s = trim_space s @ b"
    using trim_right_prefix [of "trim_left s"] by (auto simp: prefix_def trim_space_def)
  from a b have "s = a @ trim_space s @ b" by metis
  then show ?thesis unfolding sublist_def by blast
qed

definition trim_prefix :: "string \<Rightarrow> string \<Rightarrow> string" where
  "trim_prefix p s = (if prefix p s then drop (length p) s else s)"

text \<open>\<^verbatim>\<open>strings.Cut\<close> on a one-byte separator: the parts around its first occurrence.\<close>

fun cut :: "char \<Rightarrow> string \<Rightarrow> string \<times> string \<times> bool" where
  "cut sep [] = ([], [], False)"
| "cut sep (c # cs) =
     (if c = sep then ([], cs, True)
      else case cut sep cs of (a, b, ok) \<Rightarrow> (c # a, b, ok))"

lemma cut_absent: "sep \<notin> set s \<Longrightarrow> cut sep s = (s, [], False)"
  by (induction s) auto

lemma cut_present: "sep \<notin> set a \<Longrightarrow> cut sep (a @ sep # b) = (a, b, True)"
  by (induction a) auto

definition contains :: "string \<Rightarrow> string \<Rightarrow> bool" where
  "contains s sub = sublist sub s"

lemma contains_append: "contains (a @ sub @ b) sub"
  by (auto simp: contains_def sublist_def)

lemma contains_code [code]: "contains s sub = list_ex (prefix sub) (suffixes s)"
  by (simp add: contains_def list_ex_iff sublist_altdef' Bex_def)

fun join :: "string \<Rightarrow> string list \<Rightarrow> string" where
  "join sep [] = []"
| "join sep [s] = s"
| "join sep (s # t # ts) = s @ sep @ join sep (t # ts)"

fun split_on :: "char \<Rightarrow> string \<Rightarrow> string list" where
  "split_on sep [] = [[]]"
| "split_on sep (c # cs) =
     (if c = sep then [] # split_on sep cs
      else case split_on sep cs of [] \<Rightarrow> [[c]] | p # ps \<Rightarrow> (c # p) # ps)"

section \<open>Letter case\<close>

definition lower_byte :: "char \<Rightarrow> char" where
  "lower_byte c = (if is_upper c then char_of (code c + 32) else c)"

fun to_lower :: "string \<Rightarrow> string" where
  "to_lower [] = []"
| "to_lower (c # cs) =
     (if c = CHR 0xE2 \<and> prefix [CHR 0x84, CHR 0xAA] cs then CHR ''k'' # to_lower (drop 2 cs)
      else if c = CHR 0xC4 \<and> prefix [CHR 0xB0] cs then CHR ''i'' # to_lower (drop 1 cs)
      else lower_byte c # to_lower cs)"

lemma to_lower_ascii:
  "list_all (\<lambda>c. code c < 128) s \<Longrightarrow> to_lower s = map lower_byte s"
  by (induction s) (auto simp: code_def)

text \<open>\<^verbatim>\<open>strings.EqualFold\<close> against a text whose letters have no fold outside ASCII.\<close>

definition equal_fold :: "string \<Rightarrow> string \<Rightarrow> bool" where
  "equal_fold s t \<longleftrightarrow> map lower_byte s = map lower_byte t"

section \<open>Replacers\<close>

text \<open>
  \<^verbatim>\<open>strings.NewReplacer\<close>: one left-to-right pass; at each position the first pair whose old
  text starts there is applied, and the replacement is not scanned again.
\<close>

function replacer :: "(string \<times> string) list \<Rightarrow> string \<Rightarrow> string" where
  "replacer ps [] = []"
| "replacer ps (c # cs) =
     (case find (\<lambda>p. prefix (fst p) (c # cs)) ps of
        None \<Rightarrow> c # replacer ps cs
      | Some p \<Rightarrow> snd p @ replacer ps (drop (length (fst p) - 1) cs))"
  by pat_completeness auto
termination by (relation "measure (\<lambda>(ps, s). length s)") auto

section \<open>Decimal numbers\<close>

definition digit_char :: "nat \<Rightarrow> char" where
  "digit_char d = char_of (48 + d)"

definition digit_val :: "char \<Rightarrow> nat" where
  "digit_val c = code c - 48"

fun nat_digits :: "nat \<Rightarrow> string" where
  "nat_digits n = (if n < 10 then [digit_char n] else nat_digits (n div 10) @ [digit_char (n mod 10)])"

declare nat_digits.simps [simp del]

definition itoa :: "int \<Rightarrow> string" where
  "itoa i = (if i < 0 then CHR ''-'' # nat_digits (nat (- i)) else nat_digits (nat i))"

definition digits_val :: "string \<Rightarrow> nat" where
  "digits_val s = foldl (\<lambda>n c. 10 * n + digit_val c) 0 s"

definition all_digits :: "string \<Rightarrow> bool" where
  "all_digits s \<longleftrightarrow> list_all is_digit s"

text \<open>\<^verbatim>\<open>big.Int.SetString(s, 10)\<close>: an optional sign and at least one digit.\<close>

definition set_string :: "string \<Rightarrow> int option" where
  "set_string s =
     (case s of
        [] \<Rightarrow> None
      | c # cs \<Rightarrow>
          if c = CHR ''-'' then
            (if cs \<noteq> [] \<and> all_digits cs then Some (- int (digits_val cs)) else None)
          else if c = CHR ''+'' then
            (if cs \<noteq> [] \<and> all_digits cs then Some (int (digits_val cs)) else None)
          else if all_digits s then Some (int (digits_val s)) else None)"

text \<open>\<^verbatim>\<open>strconv.ParseUint(s, 10, bits)\<close>: digits only, and in range.\<close>

definition parse_uint :: "nat \<Rightarrow> string \<Rightarrow> nat option" where
  "parse_uint bits s =
     (if s \<noteq> [] \<and> all_digits s \<and> digits_val s < 2 ^ bits then Some (digits_val s) else None)"

text \<open>\<^verbatim>\<open>strconv.ParseInt(s, 10, 64)\<close>.\<close>

definition parse_int64 :: "string \<Rightarrow> i64 option" where
  "parse_int64 s = (case set_string s of
     None \<Rightarrow> None
   | Some n \<Rightarrow> if min_i64 \<le> n \<and> n \<le> max_i64 then Some (word_of_int n) else None)"

definition parse_bool :: "string \<Rightarrow> bool option" where
  "parse_bool s =
     (if s \<in> set [''1'', ''t'', ''T'', ''TRUE'', ''true'', ''True''] then Some True
      else if s \<in> set [''0'', ''f'', ''F'', ''FALSE'', ''false'', ''False''] then Some False
      else None)"

lemma digit_char_digit: "d < 10 \<Longrightarrow> is_digit (digit_char d)"
  by (simp add: is_digit_def digit_char_def)

lemma digit_val_char [simp]: "d < 10 \<Longrightarrow> digit_val (digit_char d) = d"
  by (simp add: digit_val_def digit_char_def)

lemma nat_digits_all_digits: "all_digits (nat_digits n)"
proof (induction n rule: nat_digits.induct)
  case (1 n)
  then show ?case
    by (subst nat_digits.simps) (auto simp: all_digits_def digit_char_digit)
qed

lemma nat_digits_nonempty [simp]: "nat_digits n \<noteq> []"
  by (subst nat_digits.simps) auto

lemma digits_val_snoc: "digits_val (s @ [c]) = 10 * digits_val s + digit_val c"
  by (simp add: digits_val_def)

lemma digits_val_nat_digits [simp]: "digits_val (nat_digits n) = n"
proof (induction n rule: nat_digits.induct)
  case (1 n)
  show ?case
  proof (cases "n < 10")
    case True
    then show ?thesis by (simp add: nat_digits.simps [of n] digits_val_def)
  next
    case False
    with 1 show ?thesis
      by (simp add: nat_digits.simps [of n] digits_val_snoc)
  qed
qed

lemma digits_val_foldl_acc:
  "foldl (\<lambda>n c. 10 * n + digit_val c) a s = a * 10 ^ length s + digits_val s"
proof (induction s arbitrary: a)
  case Nil
  then show ?case by (simp add: digits_val_def)
next
  case (Cons c s)
  show ?case
    using Cons.IH [of "10 * a + digit_val c"] Cons.IH [of "digit_val c"]
    by (simp add: digits_val_def algebra_simps)
qed

lemma digits_val_append: "digits_val (s @ t) = digits_val s * 10 ^ length t + digits_val t"
proof -
  have "digits_val (s @ t) = foldl (\<lambda>n c. 10 * n + digit_val c) (digits_val s) t"
    by (simp add: digits_val_def)
  then show ?thesis by (simp add: digits_val_foldl_acc)
qed

lemma all_digits_append [simp]: "all_digits (s @ t) \<longleftrightarrow> all_digits s \<and> all_digits t"
  by (simp add: all_digits_def)

lemma all_digits_Nil [simp]: "all_digits []"
  by (simp add: all_digits_def)

lemma all_digits_plain: "all_digits s \<Longrightarrow> list_all plain_char s"
  by (auto simp: all_digits_def list_all_iff intro: is_digit_plain)

lemma sign_not_digit [simp]: "\<not> is_digit (CHR ''-'')" "\<not> is_digit (CHR ''+'')"
  by (simp_all add: is_digit_def code_def)

lemma set_string_digits: "s \<noteq> [] \<Longrightarrow> all_digits s \<Longrightarrow> set_string s = Some (int (digits_val s))"
  by (cases s) (auto simp: set_string_def all_digits_def)

lemma set_string_itoa [simp]: "set_string (itoa i) = Some i"
proof (cases "i < 0")
  case True
  then show ?thesis
    by (simp add: itoa_def set_string_def nat_digits_all_digits)
next
  case False
  then show ?thesis
    by (simp add: itoa_def set_string_digits nat_digits_all_digits)
qed

lemma itoa_inject [simp]: "itoa i = itoa j \<longleftrightarrow> i = j"
  by (metis option.inject set_string_itoa)

lemma itoa_plain: "list_all plain_char (itoa i)"
  using all_digits_plain [OF nat_digits_all_digits]
  by (auto simp: itoa_def plain_char_def code_def)

lemma itoa_nonempty [simp]: "itoa i \<noteq> []"
  by (simp add: itoa_def)

lemma itoa_chars: "c \<in> set (itoa i) \<Longrightarrow> is_digit c \<or> c = CHR ''-''"
  using nat_digits_all_digits by (auto simp: itoa_def all_digits_def list_all_iff split: if_splits)

lemma parse_uint_itoa: "0 \<le> i \<Longrightarrow> i < 2 ^ bits \<Longrightarrow> parse_uint bits (itoa i) = Some (nat i)"
  by (auto simp: parse_uint_def itoa_def nat_digits_all_digits nat_less_iff)

section \<open>Hexadecimal\<close>

definition hex_digit :: "nat \<Rightarrow> char" where
  "hex_digit d = (if d < 10 then char_of (48 + d) else char_of (87 + d))"

definition hex_val :: "char \<Rightarrow> nat option" where
  "hex_val c =
     (if is_digit c then Some (code c - 48)
      else if 97 \<le> code c \<and> code c \<le> 102 then Some (code c - 87)
      else if 65 \<le> code c \<and> code c \<le> 70 then Some (code c - 55)
      else None)"

fun hex_encode :: "u8 list \<Rightarrow> string" where
  "hex_encode [] = []"
| "hex_encode (b # bs) = hex_digit (unat b div 16) # hex_digit (unat b mod 16) # hex_encode bs"

fun hex_decode :: "string \<Rightarrow> u8 list option" where
  "hex_decode [] = Some []"
| "hex_decode [c] = None"
| "hex_decode (c # d # cs) =
     (case (hex_val c, hex_val d, hex_decode cs) of
        (Some h, Some l, Some bs) \<Rightarrow> Some (word_of_nat (16 * h + l) # bs)
      | _ \<Rightarrow> None)"

lemma hex_val_digit: "d < 16 \<Longrightarrow> hex_val (hex_digit d) = Some d"
  by (auto simp: hex_val_def hex_digit_def is_digit_def)

lemma unat_u8_less: "unat (b :: u8) < 256"
  using unsigned_less [of b, where 'a = nat] by simp

lemma hex_decode_encode [simp]: "hex_decode (hex_encode bs) = Some bs"
proof (induction bs)
  case (Cons b bs)
  have "unat b div 16 < 16" "unat b mod 16 < 16"
    using unat_u8_less [of b] by simp_all
  moreover have "word_of_nat (16 * (unat b div 16) + unat b mod 16) = b"
    by simp
  ultimately show ?case using Cons by (simp add: hex_val_digit)
qed simp

lemma hex_encode_plain: "list_all plain_char (hex_encode bs)"
proof (induction bs)
  case (Cons b bs)
  have "plain_char (hex_digit d)" if "d < 16" for d
    using that by (auto simp: plain_char_def hex_digit_def)
  then show ?case using Cons unat_u8_less [of b] by simp
qed simp

lemma length_hex_encode: "length (hex_encode bs) = 2 * length bs"
  by (induction bs) auto

end
