(* ===== verification/Go_Float.thy ===== *)
theory Go_Float
  imports Complex_Main Go_Text
begin

text \<open>
  Go's \<^verbatim>\<open>float64\<close>: an exact rational, an infinity or NaN, with every operation the
  correctly rounded result (round to nearest, ties to even, 53 significant bits, gradual
  underflow at exponent -1074), as IEEE 754 and the Go specification prescribe. The two
  zeros are one value; no operation of the program tells them apart.

  The lemmas the components use: rounding is monotone (\<open>fl_mono\<close>), keeps the sign
  (\<open>fl_nonneg\<close>) and is exact on the integers of up to 53 bits (\<open>fl_of_int\<close>).
\<close>

section \<open>Rounding\<close>

function nlog2 :: "int \<Rightarrow> nat" where
  "nlog2 n = (if n < 2 then 0 else Suc (nlog2 (n div 2)))"
  by pat_completeness auto
termination by (relation "measure nat") auto

declare nlog2.simps [simp del]

lemma nlog2_bounds: "0 < n \<Longrightarrow> 2 ^ nlog2 n \<le> n \<and> n < 2 ^ Suc (nlog2 n)"
proof (induction n rule: nlog2.induct)
  case (1 n)
  show ?case
  proof (cases "n < 2")
    case True
    with 1 show ?thesis by (simp add: nlog2.simps [of n])
  next
    case False
    with "1.IH" have "2 ^ nlog2 (n div 2) \<le> n div 2 \<and> n div 2 < 2 ^ Suc (nlog2 (n div 2))"
      by simp
    with False show ?thesis by (simp add: nlog2.simps [of n]) linarith
  qed
qed

text \<open>The binary exponent of a positive rational.\<close>

definition ilog2 :: "rat \<Rightarrow> int" where
  "ilog2 x = (case quotient_of x of (n, d) \<Rightarrow>
     let k = int (nlog2 n) - int (nlog2 d)
     in if 2 powi k \<le> x then k else k - 1)"

lemma powi_two_pos [simp]: "(0 :: rat) < 2 powi k"
  by (simp add: power_int_def)

lemma powi_two_mono: "i \<le> j \<Longrightarrow> (2 :: rat) powi i \<le> 2 powi j"
  by (simp add: power_int_increasing)

lemma powi_two_less_iff: "(2 :: rat) powi i < 2 powi j \<longleftrightarrow> i < j"
  by (meson linorder_not_less powi_two_mono power_int_strict_increasing one_less_numeral_iff
      semiring_norm(76))

lemma ilog2_bounds:
  assumes "0 < x"
  shows "2 powi ilog2 x \<le> x" and "x < 2 powi (ilog2 x + 1)"
proof -
  obtain n d where nd: "quotient_of x = (n, d)" by (cases "quotient_of x")
  have d: "0 < d" using nd by (rule quotient_of_denom_pos)
  have x: "x = of_int n / of_int d" using nd by (rule quotient_of_div)
  have n: "0 < n" using assms x d by (simp add: zero_less_divide_iff)
  define a where "a = nlog2 n"
  define b where "b = nlog2 d"
  have i: "2 ^ a \<le> n" "n < 2 ^ Suc a" "2 ^ b \<le> d" "d < 2 ^ Suc b"
    using nlog2_bounds [of n] nlog2_bounds [of d] n d
    unfolding a_def b_def by simp_all
  have r: "(2 :: rat) ^ a \<le> of_int n" "of_int n < (2 :: rat) ^ Suc a"
    "(2 :: rat) ^ b \<le> of_int d" "of_int d < (2 :: rat) ^ Suc b"
    using i by (simp_all only: of_int_le_iff [where 'a = rat, symmetric]
        of_int_less_iff [where 'a = rat, symmetric] of_int_power of_int_numeral)
  define k where "k = int a - int b"
  have pk: "(2 :: rat) powi k = 2 ^ a / 2 ^ b"
    by (simp add: k_def power_int_diff)
  have up: "x < 2 powi (k + 1)"
  proof -
    have "of_int n * 2 ^ b < 2 ^ Suc a * (of_int d :: rat)"
      using r n by (intro mult_less_le_imp_less) auto
    then have "x < 2 ^ Suc a / 2 ^ b"
      unfolding x using d by (simp add: field_simps)
    then show ?thesis by (simp add: power_int_add pk mult.commute)
  qed
  have lo: "2 powi (k - 1) \<le> x"
  proof -
    have "2 ^ a * of_int d \<le> of_int n * (2 :: rat) ^ Suc b"
      using r n d by (intro mult_mono) auto
    then have "2 ^ a / 2 ^ Suc b \<le> x"
      unfolding x using d by (simp add: field_simps)
    then show ?thesis by (simp add: power_int_diff pk)
  qed
  have e: "ilog2 x = (if 2 powi k \<le> x then k else k - 1)"
    by (simp add: ilog2_def nd a_def b_def k_def)
  show "2 powi ilog2 x \<le> x" using lo by (simp add: e)
  show "x < 2 powi (ilog2 x + 1)" using up by (simp add: e)
qed

lemma ilog2_mono: "0 < x \<Longrightarrow> x \<le> y \<Longrightarrow> ilog2 x \<le> ilog2 y"
proof -
  assume xy: "0 < x" "x \<le> y"
  have "(2 :: rat) powi ilog2 x < 2 powi (ilog2 y + 1)"
    using ilog2_bounds(1) [of x] ilog2_bounds(2) [of y] xy by linarith
  then show ?thesis by (simp add: powi_two_less_iff)
qed

text \<open>Round to nearest, ties to even, of a non-negative rational.\<close>

definition rne :: "rat \<Rightarrow> int" where
  "rne y = (let f = \<lfloor>y\<rfloor>; r = y - of_int f in
     if r < 1 / 2 then f else if 1 / 2 < r then f + 1 else if even f then f else f + 1)"

lemma rne_of_int [simp]: "rne (of_int n) = n"
  by (simp add: rne_def)

lemma rne_bounds: "\<lfloor>y\<rfloor> \<le> rne y" "rne y \<le> \<lfloor>y\<rfloor> + 1"
  by (simp_all add: rne_def Let_def)

lemma rne_mono: "x \<le> y \<Longrightarrow> rne x \<le> rne y"
proof -
  assume xy: "x \<le> y"
  show ?thesis
  proof (cases "\<lfloor>x\<rfloor> = \<lfloor>y\<rfloor>")
    case True
    with xy show ?thesis by (simp add: rne_def Let_def)
  next
    case False
    then have "\<lfloor>x\<rfloor> + 1 \<le> \<lfloor>y\<rfloor>" using floor_mono [OF xy] by linarith
    then show ?thesis using rne_bounds [of x] rne_bounds [of y] by linarith
  qed
qed

definition quantum :: "rat \<Rightarrow> int" where
  "quantum a = max (ilog2 a - 52) (- 1074)"

text \<open>The rounded magnitude of a positive rational, before the overflow check.\<close>

definition round_mag :: "rat \<Rightarrow> rat" where
  "round_mag a = of_int (rne (a / 2 powi quantum a)) * 2 powi quantum a"

lemma quantum_mono: "0 < x \<Longrightarrow> x \<le> y \<Longrightarrow> quantum x \<le> quantum y"
  using ilog2_mono [of x y] by (simp add: quantum_def)

lemma rne_le_pow:
  assumes "0 < a"
  shows "rne (a / 2 powi quantum a) \<le> 2 ^ 53"
proof -
  have "a < 2 powi (ilog2 a + 1)" using assms by (rule ilog2_bounds)
  also have "\<dots> \<le> 2 powi (quantum a + 53)"
    by (rule powi_two_mono) (simp add: quantum_def)
  also have "\<dots> = 2 ^ 53 * 2 powi quantum a"
    by (simp add: power_int_add)
  finally have "a / 2 powi quantum a \<le> of_int (2 ^ 53)"
    by (simp add: divide_le_eq)
  then show ?thesis using rne_mono [of "a / 2 powi quantum a" "of_int (2 ^ 53)"]
    unfolding rne_of_int by simp
qed

lemma rne_ge_pow:
  assumes "0 < a" and "- 1074 < quantum a"
  shows "2 ^ 52 \<le> rne (a / 2 powi quantum a)"
proof -
  have "quantum a = ilog2 a - 52" using assms(2) by (simp add: quantum_def max_def split: if_splits)
  then have "2 ^ 52 * 2 powi quantum a = (2 :: rat) powi ilog2 a"
    by (simp add: power_int_diff)
  also have "\<dots> \<le> a" using assms(1) by (rule ilog2_bounds)
  finally have "of_int (2 ^ 52) \<le> a / 2 powi quantum a"
    by (simp add: le_divide_eq)
  then show ?thesis using rne_mono [of "of_int (2 ^ 52)" "a / 2 powi quantum a"]
    unfolding rne_of_int by simp
qed

lemma round_mag_mono:
  assumes "0 < x" and "x \<le> y"
  shows "round_mag x \<le> round_mag y"
proof (cases "quantum x = quantum y")
  case True
  have "x / 2 powi quantum y \<le> y / 2 powi quantum y"
    using assms by (simp add: divide_right_mono less_imp_le)
  then show ?thesis
    unfolding round_mag_def True
    by (intro mult_right_mono) (auto intro: rne_mono less_imp_le)
next
  case False
  then have q: "quantum x < quantum y" using quantum_mono [OF assms] by linarith
  have y: "0 < y" using assms by linarith
  have "- 1074 \<le> quantum x" by (simp add: quantum_def)
  then have gy: "2 ^ 52 \<le> rne (y / 2 powi quantum y)" using q y by (intro rne_ge_pow) auto
  have "round_mag x \<le> of_int (2 ^ 53) * 2 powi quantum x"
    unfolding round_mag_def
    by (intro mult_right_mono, subst of_int_le_iff) (use rne_le_pow [OF assms(1)] in \<open>auto intro: less_imp_le\<close>)
  also have "\<dots> = of_int (2 ^ 52) * 2 powi (quantum x + 1)"
    by (simp add: power_int_add)
  also have "\<dots> \<le> of_int (2 ^ 52) * 2 powi quantum y"
    using q by (intro mult_left_mono powi_two_mono) auto
  also have "\<dots> \<le> round_mag y"
    unfolding round_mag_def
    by (intro mult_right_mono, subst of_int_le_iff) (use gy in \<open>auto intro: less_imp_le\<close>)
  finally show ?thesis .
qed

lemma round_mag_nonneg: "0 < a \<Longrightarrow> 0 \<le> round_mag a"
proof -
  assume "0 < a"
  then have "0 \<le> \<lfloor>a / 2 powi quantum a\<rfloor>" by (simp add: less_imp_le)
  then have "0 \<le> rne (a / 2 powi quantum a)" using rne_bounds [of "a / 2 powi quantum a"] by linarith
  then show ?thesis by (simp add: round_mag_def less_imp_le)
qed

section \<open>The type and its operations\<close>

datatype f64 = NaN | PInf | NInf | Fin rat

definition fl_max :: rat where "fl_max = 2 ^ 1024"

definition fl :: "rat \<Rightarrow> f64" where
  "fl x = (if x = 0 then Fin 0
     else let v = round_mag \<bar>x\<bar> in
       if fl_max \<le> v then (if 0 < x then PInf else NInf)
       else Fin (if 0 < x then v else - v))"

text \<open>Comparisons are false on NaN.\<close>

fun fle :: "f64 \<Rightarrow> f64 \<Rightarrow> bool" where
  "fle NaN _ = False"
| "fle _ NaN = False"
| "fle NInf _ = True"
| "fle _ PInf = True"
| "fle (Fin a) (Fin b) = (a \<le> b)"
| "fle _ _ = False"

definition flt :: "f64 \<Rightarrow> f64 \<Rightarrow> bool" where
  "flt a b \<longleftrightarrow> fle a b \<and> \<not> fle b a"

fun fneg :: "f64 \<Rightarrow> f64" where
  "fneg NaN = NaN"
| "fneg PInf = NInf"
| "fneg NInf = PInf"
| "fneg (Fin a) = Fin (- a)"

fun fadd :: "f64 \<Rightarrow> f64 \<Rightarrow> f64" where
  "fadd (Fin a) (Fin b) = fl (a + b)"
| "fadd NaN _ = NaN"
| "fadd _ NaN = NaN"
| "fadd PInf NInf = NaN"
| "fadd NInf PInf = NaN"
| "fadd PInf _ = PInf"
| "fadd _ PInf = PInf"
| "fadd NInf _ = NInf"
| "fadd _ NInf = NInf"

definition fsub :: "f64 \<Rightarrow> f64 \<Rightarrow> f64" where
  "fsub a b = fadd a (fneg b)"

definition finf :: "bool \<Rightarrow> f64" where
  "finf pos = (if pos then PInf else NInf)"

fun fmul :: "f64 \<Rightarrow> f64 \<Rightarrow> f64" where
  "fmul (Fin a) (Fin b) = fl (a * b)"
| "fmul NaN _ = NaN"
| "fmul _ NaN = NaN"
| "fmul (Fin a) i = (if a = 0 then NaN else finf ((0 < a) = (i = PInf)))"
| "fmul i (Fin a) = (if a = 0 then NaN else finf ((0 < a) = (i = PInf)))"
| "fmul i j = finf (i = j)"

fun fdiv :: "f64 \<Rightarrow> f64 \<Rightarrow> f64" where
  "fdiv (Fin a) (Fin b) = (if b = 0 then (if a = 0 then NaN else finf (0 < a)) else fl (a / b))"
| "fdiv NaN _ = NaN"
| "fdiv _ NaN = NaN"
| "fdiv (Fin a) _ = Fin 0"
| "fdiv i (Fin b) = finf ((0 \<le> b) = (i = PInf))"
| "fdiv _ _ = NaN"

text \<open>\<^verbatim>\<open>float64(n)\<close> of an integer.\<close>

definition f_of_int :: "int \<Rightarrow> f64" where
  "f_of_int n = fl (of_int n)"

section \<open>Facts about rounding\<close>

lemma fl_0 [simp]: "fl 0 = Fin 0"
  by (simp add: fl_def)

lemma fl_neg: "fl (- x) = fneg (fl x)"
  by (auto simp: fl_def Let_def)

lemma fl_nonneg: "0 \<le> x \<Longrightarrow> fle (Fin 0) (fl x)"
  using round_mag_nonneg [of x] by (auto simp: fl_def Let_def)

lemma fle_refl: "a \<noteq> NaN \<Longrightarrow> fle a a"
  by (cases a) auto

lemma fl_not_NaN [simp]: "fl x \<noteq> NaN"
  by (simp add: fl_def Let_def)

lemma fle_trans: "fle a b \<Longrightarrow> fle b c \<Longrightarrow> fle a c"
  by (cases a; cases b; cases c) auto

lemma fle_fneg: "fle (fneg a) (fneg b) = fle b a"
  by (cases a; cases b) auto

lemma fl_mono_pos:
  assumes "0 \<le> x" and "x \<le> y"
  shows "fle (fl x) (fl y)"
proof (cases "x = 0")
  case True
  with assms show ?thesis using fl_nonneg [of y] by simp
next
  case False
  then have "0 < x" "0 < y" using assms by linarith+
  then show ?thesis
    using round_mag_mono [of x y] assms by (auto simp: fl_def Let_def)
qed

lemma fl_mono: "x \<le> y \<Longrightarrow> fle (fl x) (fl y)"
proof (cases "0 \<le> x")
  case True
  then show "x \<le> y \<Longrightarrow> fle (fl x) (fl y)" by (rule fl_mono_pos)
next
  case False
  assume xy: "x \<le> y"
  show ?thesis
  proof (cases "0 \<le> y")
    case True
    have "fle (fl x) (Fin 0)"
      using fl_nonneg [of "- x"] False by (simp add: fl_neg) (metis fle_fneg fneg.simps(4) minus_zero)
    then show ?thesis using fl_nonneg [OF True] by (rule fle_trans)
  next
    case y: False
    have "fle (fl (- y)) (fl (- x))" using y xy by (intro fl_mono_pos) auto
    then show ?thesis by (simp add: fl_neg fle_fneg)
  qed
qed

text \<open>Integers of up to 53 bits are exact.\<close>

lemma round_mag_of_int:
  assumes "0 < n" and "n \<le> 2 ^ 53"
  shows "round_mag (of_int n) = of_int n"
proof -
  have "\<exists>m. of_int n / 2 powi quantum (of_int n) = (of_int m :: rat)"
  proof (cases "n = 2 ^ 53")
    case True
    have "ilog2 (of_int n) = 53"
      using ilog2_bounds [of "of_int n"] True powi_two_less_iff [of 53 "ilog2 (of_int n) + 1"]
        powi_two_less_iff [of "ilog2 (of_int n)" 54]
      by (simp add: power_int_def)
    then have "of_int n / 2 powi quantum (of_int n) = (of_int (2 ^ 52) :: rat)"
      by (simp add: quantum_def True)
    then show ?thesis by blast
  next
    case False
    then have "of_int n < (of_int (2 ^ 53) :: rat)"
      using assms(2) unfolding of_int_less_iff by linarith
    then have "of_int n < (2 :: rat) powi 53" by (simp add: power_int_def)
    then have "(2 :: rat) powi ilog2 (of_int n) < 2 powi 53"
      using ilog2_bounds(1) [of "of_int n"] assms(1) by simp
    then have "ilog2 (of_int n) < 53" by (simp only: powi_two_less_iff)
    then have "quantum (of_int n) \<le> 0" by (simp add: quantum_def)
    then have "of_int n / 2 powi quantum (of_int n)
        = (of_int (n * 2 ^ nat (- quantum (of_int n))) :: rat)"
      by (simp add: power_int_def field_simps)
    then show ?thesis by blast
  qed
  then obtain m where m: "of_int n / 2 powi quantum (of_int n) = (of_int m :: rat)" ..
  then have "of_int n = (of_int m :: rat) * 2 powi quantum (of_int n)"
    by (simp add: divide_eq_eq)
  then show ?thesis unfolding round_mag_def m by simp
qed

lemma fl_of_int_pos:
  assumes "0 < n" and "n \<le> 2 ^ 53"
  shows "fl (of_int n) = Fin (of_int n)"
proof -
  have "(of_int n :: rat) \<le> of_int (2 ^ 53)" using assms(2) by (simp only: of_int_le_iff)
  then have "(of_int n :: rat) < 2 ^ 1024" by (rule le_less_trans) simp
  then show ?thesis
    using assms round_mag_of_int [OF assms] by (simp add: fl_def fl_max_def)
qed

lemma fl_of_int: "\<bar>n\<bar> \<le> 2 ^ 53 \<Longrightarrow> fl (of_int n) = Fin (of_int n)"
  using fl_of_int_pos [of n] fl_of_int_pos [of "- n"] fl_neg [of "of_int (- n)"]
  by (cases n "0 :: int" rule: linorder_cases) auto

lemma f_of_int_exact: "\<bar>n\<bar> \<le> 2 ^ 53 \<Longrightarrow> f_of_int n = Fin (of_int n)"
  by (simp add: f_of_int_def fl_of_int)

text \<open>Rounding at most doubles the magnitude, so no 64-bit integer overflows.\<close>

lemma round_mag_le:
  assumes "0 < a"
  shows "round_mag a \<le> 2 * a + 1"
proof -
  define u where "u = (2 :: rat) powi quantum a"
  have u: "0 < u" by (simp add: u_def)
  have "u \<le> a + 1"
  proof (cases "ilog2 a - 52 \<le> - 1074")
    case True
    have "u \<le> 2 powi 0" unfolding u_def by (rule powi_two_mono) (simp add: quantum_def True)
    then show ?thesis using assms by simp
  next
    case False
    have "u \<le> 2 powi ilog2 a" unfolding u_def using False by (intro powi_two_mono) (simp add: quantum_def)
    then show ?thesis using ilog2_bounds(1) [OF assms] by linarith
  qed
  have "of_int (rne (a / u)) \<le> (of_int (\<lfloor>a / u\<rfloor> + 1) :: rat)"
    using rne_bounds(2) by (simp only: of_int_le_iff)
  also have "\<dots> \<le> a / u + 1" by simp
  finally have "of_int (rne (a / u)) * u \<le> (a / u + 1) * u"
    using u by (intro mult_right_mono) auto
  then have "round_mag a \<le> a + u"
    using u by (simp add: round_mag_def u_def [symmetric] algebra_simps)
  then show ?thesis using \<open>u \<le> a + 1\<close> by linarith
qed

lemma fl_finite:
  assumes "\<bar>x\<bar> \<le> 2 ^ 1000"
  shows "\<exists>r. fl x = Fin r"
proof (cases "x = 0")
  case False
  then have "round_mag \<bar>x\<bar> \<le> 2 * \<bar>x\<bar> + 1" by (intro round_mag_le) simp
  also have "\<dots> < fl_max" using assms unfolding fl_max_def by simp
  finally show ?thesis by (simp add: fl_def False Let_def)
qed simp

end
