(* ===== verification/Health.thy ===== *)
theory Health
  imports Go_Float
begin

text \<open>
  State-expiration health, \<^verbatim>\<open>internal/health/health.go\<close>: the statuses and their severity order,
  thresholds and their per-kind overrides, the classification of a TTL
  (\<open>evaluate_with_close_time\<close>), and the one-line description of a TTL.

  A Go string type with named constants is a datatype with one constructor per constant and
  one for any other string. A nil pointer is \<open>None\<close>; a function that would dereference nil
  returns \<open>None\<close> where the Go code panics.
\<close>

section \<open>Statuses\<close>

definition LedgerCloseTime :: duration where
  "LedgerCloseTime = 5 * second"

datatype status = StatusHealthy | StatusWarning | StatusCritical | StatusExpired
  | StatusMissing | StatusUnknown | StatusOther string

fun severity :: "status \<Rightarrow> nat" where
  "severity StatusHealthy = 0"
| "severity StatusUnknown = 1"
| "severity StatusWarning = 2"
| "severity StatusCritical = 3"
| "severity StatusExpired = 4"
| "severity StatusMissing = 5"
| "severity (StatusOther _) = 6"

definition status_OK :: "status \<Rightarrow> bool" where
  "status_OK s \<longleftrightarrow> s = StatusHealthy \<or> s = StatusUnknown"

fun worst_loop :: "status \<Rightarrow> status list \<Rightarrow> status" where
  "worst_loop worst [] = worst"
| "worst_loop worst (s # ss) =
     worst_loop (if severity worst < severity s then s else worst) ss"

definition Worst :: "status list \<Rightarrow> status" where
  "Worst statuses = worst_loop StatusHealthy statuses"

text \<open>
  The severity order makes the statuses a linear order; strings that are no constant of the
  program share the highest severity and are ordered among themselves by their text.
\<close>

fun status_text :: "status \<Rightarrow> string" where
  "status_text StatusHealthy = ''healthy''"
| "status_text StatusWarning = ''warning''"
| "status_text StatusCritical = ''critical''"
| "status_text StatusExpired = ''expired''"
| "status_text StatusMissing = ''missing''"
| "status_text StatusUnknown = ''unknown''"
| "status_text (StatusOther s) = s"

instantiation status :: linorder
begin

definition less_eq_status :: "status \<Rightarrow> status \<Rightarrow> bool" where
  "less_eq_status s t \<longleftrightarrow>
     severity s < severity t \<or> severity s = severity t \<and> status_text s \<le> status_text t"

definition less_status :: "status \<Rightarrow> status \<Rightarrow> bool" where
  "less_status s t \<longleftrightarrow>
     severity s < severity t \<or> severity s = severity t \<and> status_text s < status_text t"

instance
proof
  fix s t u :: status
  show "s < t \<longleftrightarrow> s \<le> t \<and> \<not> t \<le> s"
    by (auto simp: less_eq_status_def less_status_def)
  show "s \<le> s" by (simp add: less_eq_status_def)
  show "s \<le> t \<or> t \<le> s" by (auto simp: less_eq_status_def)
  show "s \<le> t \<Longrightarrow> t \<le> u \<Longrightarrow> s \<le> u" by (auto simp: less_eq_status_def)
  show "s \<le> t \<Longrightarrow> t \<le> s \<Longrightarrow> s = t"
    by (cases s; cases t) (auto simp: less_eq_status_def)
qed

end

definition named_status :: "status \<Rightarrow> bool" where
  "named_status s \<longleftrightarrow> (\<forall>x. s \<noteq> StatusOther x)"

lemma named_status_code [code]:
  "named_status s = (case s of StatusOther _ \<Rightarrow> False | _ \<Rightarrow> True)"
  by (auto simp: named_status_def split: status.splits)

lemma severity_less_named:
  "named_status s \<Longrightarrow> named_status t \<Longrightarrow> s \<le> t \<longleftrightarrow> severity s \<le> severity t"
  by (cases s; cases t) (simp_all add: less_eq_status_def named_status_def)

lemma worst_loop_Max:
  "named_status w \<Longrightarrow> list_all named_status ss \<Longrightarrow> worst_loop w ss = Max (set (w # ss))"
proof (induction ss arbitrary: w)
  case Nil
  then show ?case by simp
next
  case (Cons s ss)
  have "(if severity w < severity s then s else w) = max w s"
    using Cons.prems severity_less_named [of w s] severity_less_named [of s w]
    by (auto simp: max_def not_le split: if_splits)
  then have "worst_loop w (s # ss) = worst_loop (max w s) ss" by simp
  also have "\<dots> = Max (set (max w s # ss))"
    using Cons by (auto simp: max_def)
  also have "\<dots> = Max (set (w # s # ss))"
    by (cases "ss = []") (simp_all add: max.assoc)
  finally show ?case .
qed

lemma worst_loop_mem: "worst_loop w ss \<in> set (w # ss)"
  by (induction ss arbitrary: w) auto

lemma worst_loop_severity:
  "severity (worst_loop w ss) = Max (severity ` set (w # ss))"
proof (induction ss arbitrary: w)
  case (Cons s ss)
  then show ?case
    by (cases "ss = []") (auto simp: max_def)
qed simp

lemma status_OK_severity: "status_OK s \<longleftrightarrow> severity s \<le> 1"
  by (cases s) (auto simp: status_OK_def)

section \<open>Durability and thresholds\<close>

datatype durability = DurabilityPersistent | DurabilityTemporary | DurabilityOther string

fun durability_text :: "durability \<Rightarrow> string" where
  "durability_text DurabilityPersistent = ''persistent''"
| "durability_text DurabilityTemporary = ''temporary''"
| "durability_text (DurabilityOther s) = s"

text \<open>The Go zero value of the type is the empty string.\<close>

abbreviation no_durability :: durability where
  "no_durability \<equiv> DurabilityOther []"

definition Archivable :: "durability \<Rightarrow> bool" where
  "Archivable d \<longleftrightarrow> d \<noteq> DurabilityTemporary"

definition OnExpiry :: "durability \<Rightarrow> string" where
  "OnExpiry d = (if Archivable d then ''archived and restorable''
     else ''deleted permanently and not restorable (gone permanently)'')"

record thresholds =
  Warn :: u32
  Critical :: u32

record threshold_override =
  ov_Warn :: "u32 option"
  ov_Critical :: "u32 option"

record threshold_overrides =
  ov_Instance :: "threshold_override option"
  ov_Code :: "threshold_override option"
  ov_Data :: "threshold_override option"

datatype entry_kind = EntryKindInstance | EntryKindCode | EntryKindData | EntryKindOther string

fun override_for :: "entry_kind \<Rightarrow> threshold_overrides \<Rightarrow> threshold_override option" where
  "override_for EntryKindInstance ov = ov_Instance ov"
| "override_for EntryKindCode ov = ov_Code ov"
| "override_for EntryKindData ov = ov_Data ov"
| "override_for (EntryKindOther _) ov = None"

definition ResolveThresholds ::
    "entry_kind \<Rightarrow> thresholds \<Rightarrow> threshold_overrides \<Rightarrow> thresholds" where
  "ResolveThresholds kind global overrides =
     (case override_for kind overrides of
        None \<Rightarrow> global
      | Some override \<Rightarrow>
          let g1 = (case ov_Warn override of None \<Rightarrow> global | Some w \<Rightarrow> global\<lparr>Warn := w\<rparr>)
          in (case ov_Critical override of None \<Rightarrow> g1 | Some c \<Rightarrow> g1\<lparr>Critical := c\<rparr>))"

definition DefaultThresholds :: thresholds where
  "DefaultThresholds = \<lparr>Warn = 120960, Critical = 17280\<rparr>"

section \<open>Evaluating a TTL\<close>

record ttl =
  Present :: bool
  LiveUntilLedger :: "u32 option"
  CurrentLedger :: u32
  LedgersRemaining :: i64
  EstimatedTimeLeft :: duration
  Durability :: durability
  Status :: status

definition classify :: "i64 \<Rightarrow> thresholds \<Rightarrow> status" where
  "classify remaining t =
     (if remaining <s 0 then StatusExpired
      else if remaining \<le>s ucast (Critical t) then StatusCritical
      else if remaining \<le>s ucast (Warn t) then StatusWarning
      else StatusHealthy)"

definition EvaluateWithCloseTime ::
    "u32 option \<Rightarrow> u32 \<Rightarrow> durability \<Rightarrow> thresholds \<Rightarrow> duration \<Rightarrow> ttl" where
  "EvaluateWithCloseTime liveUntil currentLedger dur t closeTime0 =
     (let closeTime = (if closeTime0 \<le>s 0 then LedgerCloseTime else closeTime0);
          base = \<lparr>Present = True, LiveUntilLedger = liveUntil, CurrentLedger = currentLedger,
                  LedgersRemaining = 0, EstimatedTimeLeft = 0, Durability = dur,
                  Status = StatusOther []\<rparr>
      in case liveUntil of
           None \<Rightarrow> base\<lparr>Status := StatusUnknown\<rparr>
         | Some l \<Rightarrow>
             let remaining = (ucast l :: i64) - ucast currentLedger
             in base\<lparr>LedgersRemaining := remaining,
                     EstimatedTimeLeft := remaining * closeTime,
                     Status := classify remaining t\<rparr>)"

definition Evaluate :: "u32 option \<Rightarrow> u32 \<Rightarrow> durability \<Rightarrow> thresholds \<Rightarrow> ttl" where
  "Evaluate liveUntil currentLedger dur t =
     EvaluateWithCloseTime liveUntil currentLedger dur t LedgerCloseTime"

definition Absent :: "u32 \<Rightarrow> ttl" where
  "Absent currentLedger =
     \<lparr>Present = False, LiveUntilLedger = None, CurrentLedger = currentLedger,
      LedgersRemaining = 0, EstimatedTimeLeft = 0, Durability = no_durability,
      Status = StatusMissing\<rparr>"

section \<open>Describing a TTL\<close>

text \<open>
  \<^verbatim>\<open>Duration.Seconds\<close>, \<^verbatim>\<open>Minutes\<close> and \<^verbatim>\<open>Hours\<close>: the whole units plus the rest divided by
  the unit, both as floats.
\<close>

definition duration_in :: "duration \<Rightarrow> duration \<Rightarrow> f64" where
  "duration_in unit d =
     (let whole = quot64 d unit; rest = d - whole * unit
      in fadd (f_of_int (sint whole)) (fdiv (f_of_int (sint rest)) (f_of_int (sint unit))))"

text \<open>\<^verbatim>\<open>int(f)\<close> truncates towards zero; \<^verbatim>\<open>%.1f\<close> prints the nearest tenth.\<close>

fun f_to_int :: "f64 \<Rightarrow> int" where
  "f_to_int (Fin r) = (if 0 \<le> r then \<lfloor>r\<rfloor> else - \<lfloor>- r\<rfloor>)"
| "f_to_int _ = min_i64"

fun fmt_f1 :: "f64 \<Rightarrow> string" where
  "fmt_f1 NaN = ''NaN''"
| "fmt_f1 PInf = ''+Inf''"
| "fmt_f1 NInf = ''-Inf''"
| "fmt_f1 (Fin r) =
     (let t = rne (10 * \<bar>r\<bar>)
      in (if r < 0 then ''-'' else []) @ itoa (t div 10) @ ''.'' @ itoa (t mod 10))"

definition humanizeDuration :: "duration \<Rightarrow> string" where
  "humanizeDuration d0 =
     (let d = (if d0 <s 0 then - d0 else d0)
      in if d <s minute then itoa (f_to_int (duration_in second d)) @ ''s''
         else if d <s hour then itoa (f_to_int (duration_in minute d)) @ ''m''
         else if d <s 24 * hour then fmt_f1 (duration_in hour d) @ ''h''
         else fmt_f1 (fdiv (duration_in hour d) (Fin 24)) @ '' days'')"

definition Describe :: "ttl \<Rightarrow> string option" where
  "Describe t =
     (case Status t of
        StatusMissing \<Rightarrow> Some ''not found on ledger''
      | StatusUnknown \<Rightarrow> Some ''present, but no TTL was reported''
      | StatusExpired \<Rightarrow>
          (case LiveUntilLedger t of
             None \<Rightarrow> None
           | Some l \<Rightarrow> Some (''expired '' @ humanizeDuration (- EstimatedTimeLeft t)
               @ '' ago (at ledger '' @ itoa (uint l) @ ''); '' @ OnExpiry (Durability t)))
      | _ \<Rightarrow>
          (case LiveUntilLedger t of
             None \<Rightarrow> None
           | Some l \<Rightarrow> Some (''live for '' @ itoa (sint (LedgersRemaining t))
               @ '' more ledgers (~'' @ humanizeDuration (EstimatedTimeLeft t)
               @ '', until ledger '' @ itoa (uint l) @ '')'')))"

section \<open>Lemmas of the classification\<close>

lemma uint_ucast_le: "(x :: i64) \<le>s ucast (w :: u32) \<longleftrightarrow> sint x \<le> uint w"
  by (simp only: word_sle_eq sint_ucast_32_64)

lemma classify_diff:
  "classify (ucast (l :: u32) - ucast (c :: u32)) t =
     (if uint l < uint c then StatusExpired
      else if uint l - uint c \<le> uint (Critical t) then StatusCritical
      else if uint l - uint c \<le> uint (Warn t) then StatusWarning
      else StatusHealthy)"
  unfolding classify_def uint_ucast_le word_sless_alt signed_0 sint_minus_ucast_32
  by auto

lemma evaluate_fields:
  "Present (EvaluateWithCloseTime lu c d t ct) = True"
  "LiveUntilLedger (EvaluateWithCloseTime lu c d t ct) = lu"
  "CurrentLedger (EvaluateWithCloseTime lu c d t ct) = c"
  "Durability (EvaluateWithCloseTime lu c d t ct) = d"
  by (simp_all add: EvaluateWithCloseTime_def Let_def split: option.splits)

lemma evaluate_status:
  "Status (EvaluateWithCloseTime lu c d t ct) =
     (case lu of None \<Rightarrow> StatusUnknown | Some l \<Rightarrow> classify (ucast l - ucast c) t)"
  by (simp add: EvaluateWithCloseTime_def Let_def split: option.splits)

lemma evaluate_remaining:
  "sint (LedgersRemaining (EvaluateWithCloseTime lu c d t ct)) =
     (case lu of None \<Rightarrow> 0 | Some l \<Rightarrow> uint l - uint c)"
  by (simp only: EvaluateWithCloseTime_def Let_def sint_minus_ucast_32 split: option.splits)
     (simp add: sint_minus_ucast_32 del: ucast_eq)

lemmas evaluate_simps = evaluate_fields evaluate_status evaluate_remaining

lemma named_classify: "named_status (classify r t)"
  by (simp add: classify_def named_status_def)

lemma named_evaluate: "named_status (Status (EvaluateWithCloseTime lu c d t ct))"
  using named_classify by (auto simp: evaluate_status named_status_def split: option.splits)

text \<open>
  More remaining ledgers and lower thresholds never make the classification worse.
\<close>

lemma severity_classify_mono:
  fixes l l' c c' :: u32
  assumes "uint l' \<le> uint l" and "uint c \<le> uint c'"
    and "uint (Warn t) \<le> uint (Warn t')" and "uint (Critical t) \<le> uint (Critical t')"
  shows "severity (classify (ucast l - ucast c) t) \<le> severity (classify (ucast l' - ucast c') t')"
  using assms unfolding classify_diff by auto

lemma estimated_time_left_exact:
  assumes ct: "0 < sint ct"
    and lo: "min_i64 \<le> (uint l - uint c) * sint ct" and hi: "(uint l - uint c) * sint ct \<le> max_i64"
  shows "sint (EstimatedTimeLeft (EvaluateWithCloseTime (Some l) c d t ct)) = (uint l - uint c) * sint ct"
proof -
  have "EstimatedTimeLeft (EvaluateWithCloseTime (Some l) c d t ct) = (ucast l - ucast c) * ct"
    using ct by (simp add: EvaluateWithCloseTime_def Let_def word_sle_eq)
  also have "\<dots> = word_of_int (sint (ucast l - ucast c :: i64) * sint ct)"
    by (simp add: wi_hom_mult)
  also have "\<dots> = word_of_int ((uint l - uint c) * sint ct)"
    by (simp only: sint_minus_ucast_32)
  finally show ?thesis
    using lo hi by (simp only:) (rule sint_64_of_int_eq, auto simp: min_i64_def max_i64_def)
qed

text \<open>
  The estimate is an \<^verbatim>\<open>int64\<close> of nanoseconds: an entry live for some 2 billion ledgers
  more gets a negative one.
\<close>

lemma estimated_time_left_wraps:
  "EstimatedTimeLeft (Evaluate (Some 2000000000) 1 d t) <s 0"
  by (simp add: Evaluate_def EvaluateWithCloseTime_def LedgerCloseTime_def second_def Let_def
      word_sless_alt word_sle_eq)

section \<open>Properties\<close>


text \<open>
  C34. Time and thresholds act monotonically: an entry whose TTL ends no later, read at a
  ledger no earlier, under thresholds no lower, is never classified as less severe.
\<close>

theorem evaluate_severity_monotone:
  assumes "l' \<le> l" and "c \<le> c'" and "Warn t \<le> Warn t'" and "Critical t \<le> Critical t'"
  shows "severity (Status (EvaluateWithCloseTime (Some l) c d t ct))
    \<le> severity (Status (EvaluateWithCloseTime (Some l') c' d' t' ct'))"
  using severity_classify_mono [of l' l c c' t t'] assms
  by (simp only: evaluate_status option.case word_le_def)

theorem evaluate_severity_monotone_witness:
  "severity (Status (EvaluateWithCloseTime (Some 500000) 1000 DurabilityPersistent DefaultThresholds 0))
    \<le> severity (Status (EvaluateWithCloseTime (Some 20000) 4000 DurabilityTemporary DefaultThresholds 0))"
  by (rule evaluate_severity_monotone) simp_all

text \<open>
  \<^verbatim>\<open>Worst\<close> returns one of its arguments (or healthy, for none), of the highest severity of
  all; on the named statuses it is the maximum of the severity order; and it is acceptable
  exactly when every argument is.
\<close>

theorem worst_is_maximum:
  "Worst ss \<in> set (StatusHealthy # ss)
   \<and> severity (Worst ss) = Max (severity ` set (StatusHealthy # ss))
   \<and> Worst (filter named_status ss) = Max (set (StatusHealthy # filter named_status ss))
   \<and> (status_OK (Worst ss) \<longleftrightarrow> list_all status_OK ss)"
proof -
  have sev: "severity (Worst ss) = Max (severity ` set (StatusHealthy # ss))"
    unfolding Worst_def by (rule worst_loop_severity)
  have "status_OK (Worst ss) \<longleftrightarrow> list_all status_OK ss"
    unfolding status_OK_severity sev by (simp add: list_all_iff)
  moreover have "Worst (filter named_status ss) = Max (set (StatusHealthy # filter named_status ss))"
    unfolding Worst_def
    by (rule worst_loop_Max) (auto simp: named_status_def list_all_iff)
  ultimately show ?thesis
    using sev worst_loop_mem by (simp add: Worst_def)
qed

text \<open>
  Describing a TTL never dereferences a nil pointer: every TTL that \<^verbatim>\<open>Evaluate\<close> or
  \<^verbatim>\<open>Absent\<close> builds has a description, an expired one ends with what expiry does to the
  entry's durability, and a live one states the exact number of remaining ledgers.
\<close>

theorem describe_total:
  "Describe (Absent c) = Some ''not found on ledger''
   \<and> (case lu of
        None \<Rightarrow> Describe (EvaluateWithCloseTime lu c d t ct) = Some ''present, but no TTL was reported''
      | Some l \<Rightarrow>
          if uint l < uint c
          then \<exists>ago. Describe (EvaluateWithCloseTime lu c d t ct)
                 = Some (''expired '' @ ago @ '' ago (at ledger '' @ itoa (uint l) @ ''); '' @ OnExpiry d)
          else \<exists>left. Describe (EvaluateWithCloseTime lu c d t ct)
                 = Some (''live for '' @ itoa (uint l - uint c) @ '' more ledgers (~'' @ left
                     @ '', until ledger '' @ itoa (uint l) @ '')''))"
proof (cases lu)
  case None
  then show ?thesis by (simp add: Describe_def evaluate_simps) (simp add: Absent_def)
next
  case (Some l)
  let ?r = "EvaluateWithCloseTime (Some l) c d t ct"
  have "sint (LedgersRemaining ?r) = uint l - uint c"
    using evaluate_remaining [of "Some l" c d t ct] by (simp only: option.case)
  then show ?thesis
    by (auto simp: Some Describe_def evaluate_fields evaluate_status classify_diff Absent_def
        simp del: ucast_eq)
qed

end
