(* ===== verification/Cost.thy ===== *)
theory Cost
  imports Health
begin

text \<open>
  The cost figures of a simulation: \<^verbatim>\<open>Cost\<close> and \<^verbatim>\<open>Footprint\<close> of \<^verbatim>\<open>internal/probe/probe.go\<close>,
  the comparison with a baseline (\<^verbatim>\<open>CompareCost\<close>, \<^verbatim>\<open>checkBaseline\<close>, \<^verbatim>\<open>EstimateTotalFee\<close> of
  \<^verbatim>\<open>simulate.go\<close>) and the statistics of repeated runs (\<^verbatim>\<open>SpreadCost\<close>, \<^verbatim>\<open>footprintChanges\<close> of
  \<^verbatim>\<open>spread.go\<close>).
\<close>

section \<open>Costs and their figures\<close>

record cost =
  Instructions :: u32
  DiskReadBytes :: u32
  WriteBytes :: u32
  ResourceFee :: i64
  MinResourceFee :: i64
  EstimatedTotalFee :: i64

definition zero_cost :: cost where
  "zero_cost = \<lparr>Instructions = 0, DiskReadBytes = 0, WriteBytes = 0, ResourceFee = 0,
     MinResourceFee = 0, EstimatedTotalFee = 0\<rparr>"

record footprint =
  ReadOnly :: "string list"
  ReadWrite :: "string list"

record cost_figure =
  cf_Name :: string
  cf_Value :: i64

definition costFigures :: "cost \<Rightarrow> cost_figure list" where
  "costFigures c =
     [\<lparr>cf_Name = ''cpu instructions'', cf_Value = ucast (Instructions c)\<rparr>,
      \<lparr>cf_Name = ''disk read bytes'', cf_Value = ucast (DiskReadBytes c)\<rparr>,
      \<lparr>cf_Name = ''write bytes'', cf_Value = ucast (WriteBytes c)\<rparr>,
      \<lparr>cf_Name = ''resource fee (stroops)'', cf_Value = ResourceFee c\<rparr>]"

definition DefaultBaseFee :: i64 where "DefaultBaseFee = 100"

definition EstimateTotalFee :: "i64 \<Rightarrow> i64 \<Rightarrow> i64" where
  "EstimateTotalFee resourceFee baseFee =
     (let b = (if baseFee \<le>s 0 then DefaultBaseFee else baseFee) in resourceFee + b)"

text \<open>\<^verbatim>\<open>float64(a) / float64(b) * 100\<close>, for a non-zero divisor only.\<close>

definition percent_of :: "i64 \<Rightarrow> i64 \<Rightarrow> f64 option" where
  "percent_of a b =
     (if b \<noteq> 0
      then Some (fmul (fdiv (f_of_int (sint a)) (f_of_int (sint b))) (Fin 100))
      else None)"

text \<open>
  One figure against a tolerance: growth from zero always counts, other growth counts when
  its percentage is above the tolerance.
\<close>

definition over_threshold :: "f64 \<Rightarrow> i64 \<Rightarrow> f64 option \<Rightarrow> bool" where
  "over_threshold threshold delta pct =
     (if delta \<le>s 0 then False
      else case pct of None \<Rightarrow> True | Some p \<Rightarrow> flt threshold p)"

section \<open>Comparison with a baseline\<close>

record cost_change =
  cc_Name :: string
  cc_Baseline :: i64
  cc_Current :: i64
  cc_Delta :: i64
  cc_Percent :: "f64 option"

record cost_comparison =
  cmp_Figures :: "cost_change list"
  cmp_MaxIncreasePercent :: "f64 option"
  Exceeded :: bool

definition cost_change_of :: "cost_figure \<Rightarrow> cost_figure \<Rightarrow> cost_change" where
  "cost_change_of b c =
     (let delta = cf_Value c - cf_Value b
      in \<lparr>cc_Name = cf_Name b, cc_Baseline = cf_Value b, cc_Current = cf_Value c,
          cc_Delta = delta, cc_Percent = percent_of delta (cf_Value b)\<rparr>)"

definition CompareCost :: "cost \<Rightarrow> cost \<Rightarrow> f64 option \<Rightarrow> cost_comparison" where
  "CompareCost baseline current maxIncreasePercent =
     (let figures = map2 cost_change_of (costFigures baseline) (costFigures current)
      in \<lparr>cmp_Figures = figures, cmp_MaxIncreasePercent = maxIncreasePercent,
          Exceeded = (case maxIncreasePercent of
              None \<Rightarrow> False
            | Some threshold \<Rightarrow>
                list_ex (\<lambda>f. over_threshold threshold (cc_Delta f) (cc_Percent f)) figures)\<rparr>)"

record baseline =
  bl_ContractID :: string
  bl_Function :: string
  bl_Cost :: cost

datatype baseline_error = BaselineUnnamed
  | BaselineContract string string
  | BaselineFunction string string

text \<open>\<^verbatim>\<open>checkBaseline\<close> of a request for a contract's function; every error wraps \<^verbatim>\<open>ErrBaselineMismatch\<close>.\<close>

definition checkBaseline ::
    "baseline option \<Rightarrow> string \<Rightarrow> string \<Rightarrow> (baseline_error, unit) result" where
  "checkBaseline bl contract function' =
     (case bl of
        None \<Rightarrow> Inr ()
      | Some b \<Rightarrow>
          if bl_ContractID b = [] \<or> bl_Function b = [] then Inl BaselineUnnamed
          else if bl_ContractID b \<noteq> contract then Inl (BaselineContract (bl_ContractID b) contract)
          else if bl_Function b \<noteq> function' then Inl (BaselineFunction (bl_Function b) function')
          else Inr ())"

section \<open>Spread of repeated runs\<close>

record figure_spread =
  fs_Name :: string
  fs_Min :: i64
  fs_Max :: i64
  fs_Spread :: i64
  fs_Percent :: "f64 option"

record spread_report =
  Runs :: nat
  sp_Figures :: "figure_spread list"
  sp_Max :: cost
  FootprintChanges :: "string list"
  sp_MaxSpreadPercent :: "f64 option"
  Noisy :: bool

definition smin64 :: "i64 \<Rightarrow> i64 \<Rightarrow> i64" where
  "smin64 a b = (if b <s a then b else a)"

definition smax64 :: "i64 \<Rightarrow> i64 \<Rightarrow> i64" where
  "smax64 a b = (if a <s b then b else a)"

text \<open>The range of figure \<open>i\<close> over the first run and the later ones.\<close>

definition figure_range :: "nat \<Rightarrow> cost_figure \<Rightarrow> cost list \<Rightarrow> figure_spread" where
  "figure_range i f rest =
     (let vs = map (\<lambda>c. cf_Value (costFigures c ! i)) rest;
          lo = foldl smin64 (cf_Value f) vs;
          hi = foldl smax64 (cf_Value f) vs;
          spread = hi - lo
      in \<lparr>fs_Name = cf_Name f, fs_Min = lo, fs_Max = hi, fs_Spread = spread,
          fs_Percent = percent_of spread lo\<rparr>)"

definition max_cost :: "cost \<Rightarrow> cost \<Rightarrow> cost" where
  "max_cost m c = m\<lparr>Instructions := max (Instructions m) (Instructions c),
     DiskReadBytes := max (DiskReadBytes m) (DiskReadBytes c),
     WriteBytes := max (WriteBytes m) (WriteBytes c),
     ResourceFee := smax64 (ResourceFee m) (ResourceFee c),
     MinResourceFee := smax64 (MinResourceFee m) (MinResourceFee c)\<rparr>"

text \<open>
  \<^verbatim>\<open>footprintChanges\<close> counts the labelled entries of all runs in a map and lists, sorted,
  the keys whose count is not the number of runs.
\<close>

definition labelled :: "footprint \<Rightarrow> string list" where
  "labelled fp = map (\<lambda>k. ''read  '' @ k) (ReadOnly fp) @ map (\<lambda>k. ''write '' @ k) (ReadWrite fp)"

definition footprintChanges :: "footprint list \<Rightarrow> string list" where
  "footprintChanges footprints =
     (let seen = concat (map labelled footprints)
      in sort (filter (\<lambda>k. count_list seen k \<noteq> length footprints) (remdups seen)))"

definition SpreadCost :: "cost list \<Rightarrow> footprint list \<Rightarrow> f64 option \<Rightarrow> spread_report" where
  "SpreadCost costs footprints maxSpreadPercent =
     (case costs of
        [] \<Rightarrow> \<lparr>Runs = 0, sp_Figures = [], sp_Max = zero_cost, FootprintChanges = [],
              sp_MaxSpreadPercent = maxSpreadPercent, Noisy = False\<rparr>
      | c0 # rest \<Rightarrow>
          let figures = map2 (\<lambda>i f. figure_range i f rest) [0..<length (costFigures c0)] (costFigures c0)
          in \<lparr>Runs = length costs, sp_Figures = figures, sp_Max = foldl max_cost c0 rest,
              FootprintChanges =
                (if length footprints = length costs then footprintChanges footprints else []),
              sp_MaxSpreadPercent = maxSpreadPercent,
              Noisy = (case maxSpreadPercent of
                  None \<Rightarrow> False
                | Some threshold \<Rightarrow>
                    list_ex (\<lambda>f. over_threshold threshold (fs_Spread f) (fs_Percent f)) figures)\<rparr>)"

section \<open>Lemmas of the figures\<close>

definition nonneg_cost :: "cost \<Rightarrow> bool" where
  "nonneg_cost c \<longleftrightarrow> 0 \<le> sint (ResourceFee c)"

text \<open>The figures as integers, in the order the report lists them.\<close>

definition figure_ints :: "cost \<Rightarrow> int list" where
  "figure_ints c = [uint (Instructions c), uint (DiskReadBytes c), uint (WriteBytes c), sint (ResourceFee c)]"

definition cost_le :: "cost \<Rightarrow> cost \<Rightarrow> bool" where
  "cost_le c d \<longleftrightarrow> list_all2 (\<le>) (figure_ints c) (figure_ints d)"

lemma figure_ints_costFigures: "map (\<lambda>f. sint (cf_Value f)) (costFigures c) = figure_ints c"
  by (simp add: costFigures_def figure_ints_def del: ucast_eq)

lemma sint_diff_nonneg:
  fixes a b :: i64
  assumes "0 \<le> sint a" and "0 \<le> sint b"
  shows "sint (a - b) = sint a - sint b"
proof -
  have "a - b = word_of_int (sint a - sint b)" by (simp add: wi_hom_sub)
  then show ?thesis
    using assms sint_64_range [of a] sint_64_range [of b]
    by (simp only:) (rule sint_64_of_int_eq, linarith+)
qed

lemma sint_eq_0_iff: "sint (a :: i64) = 0 \<longleftrightarrow> a = 0"
  by (metis signed_0 sint_uint signed_eq_0_iff)

text \<open>The percentage of a positive base grows with the increase.\<close>

lemma fl_int64_Fin: "\<exists>r. f_of_int (sint (x :: i64)) = Fin r"
proof -
  have "\<bar>sint x\<bar> \<le> 2 ^ 64" using sint_64_range [of x] by simp
  then have "\<bar>of_int (sint x) :: rat\<bar> \<le> of_int (2 ^ 64)"
    unfolding of_int_abs [symmetric] of_int_le_iff .
  also have "\<dots> \<le> 2 ^ 1000" by simp
  finally show ?thesis unfolding f_of_int_def by (rule fl_finite)
qed

lemma f_of_int_ge_one:
  assumes "1 \<le> n" and "f_of_int n = Fin b"
  shows "1 \<le> b"
proof -
  have "fle (fl (of_int 1)) (fl (of_int n))" using assms(1) by (intro fl_mono) simp
  moreover have "fl (of_int 1) = Fin 1" using fl_of_int [of 1] by simp
  ultimately show ?thesis using assms(2) by (simp add: f_of_int_def)
qed

lemma f_of_int_mono: "m \<le> n \<Longrightarrow> fle (f_of_int m) (f_of_int n)"
  unfolding f_of_int_def by (intro fl_mono) simp

lemma fmul_100_mono: "fle x y \<Longrightarrow> fle (fmul x (Fin 100)) (fmul y (Fin 100))"
  by (cases x; cases y) (auto simp: finf_def intro!: fl_mono, auto simp: fl_def Let_def)

lemma percent_mono:
  assumes "0 < sint b" and "sint d \<le> sint d'"
    and "percent_of d b = Some p" and "percent_of d' b = Some p'"
  shows "fle p p'"
proof -
  obtain x where x: "f_of_int (sint d) = Fin x" using fl_int64_Fin by blast
  obtain x' where x': "f_of_int (sint d') = Fin x'" using fl_int64_Fin by blast
  obtain y where y: "f_of_int (sint b) = Fin y" using fl_int64_Fin by blast
  have y1: "1 \<le> y" using f_of_int_ge_one [of "sint b" y] assms(1) y by simp
  have "x \<le> x'" using f_of_int_mono [OF assms(2)] x x' by simp
  then have "fle (fl (x / y)) (fl (x' / y))"
    using y1 by (intro fl_mono divide_right_mono) auto
  then show ?thesis
    using assms(3,4) x x' y y1 by (auto simp: percent_of_def fmul_100_mono split: if_splits)
qed

lemma flt_fle_trans: "flt t p \<Longrightarrow> fle p p' \<Longrightarrow> flt t p'"
  unfolding flt_def by (blast intro: fle_trans)

lemma over_threshold_mono:
  assumes b: "0 \<le> sint b" and d: "sint d \<le> sint d'"
    and over: "over_threshold th d (percent_of d b)"
  shows "over_threshold th d' (percent_of d' b)"
proof (cases "b = 0")
  case True
  then show ?thesis using over d by (auto simp: over_threshold_def percent_of_def word_sle_eq split: if_splits)
next
  case False
  then have "0 < sint b" using b sint_eq_0_iff [of b] by linarith
  moreover obtain p p' where p: "percent_of d b = Some p" "percent_of d' b = Some p'"
    using False by (simp add: percent_of_def)
  ultimately have "fle p p'" using d percent_mono by blast
  then show ?thesis
    using over d p by (auto simp: over_threshold_def word_sle_eq intro: flt_fle_trans split: if_splits)
qed

section \<open>Lemmas of the comparison\<close>

lemma Exceeded_iff:
  "Exceeded (CompareCost b c (Some th)) \<longleftrightarrow>
     (\<exists>i < 4. over_threshold th (cf_Value (costFigures c ! i) - cf_Value (costFigures b ! i))
        (percent_of (cf_Value (costFigures c ! i) - cf_Value (costFigures b ! i))
           (cf_Value (costFigures b ! i))))"
  by (simp add: CompareCost_def costFigures_def cost_change_of_def Let_def numeral_eq_Suc
      Ex_less_Suc2 del: ucast_eq)

lemma length_costFigures [simp]: "length (costFigures c) = 4"
  by (simp add: costFigures_def)

lemma length_figure_ints [simp]: "length (figure_ints c) = 4"
  by (simp add: figure_ints_def)

lemma figure_int_nth: "i < 4 \<Longrightarrow> sint (cf_Value (costFigures c ! i)) = figure_ints c ! i"
  using figure_ints_costFigures [of c] by (metis length_costFigures nth_map)

lemma figure_int_nonneg: "nonneg_cost c \<Longrightarrow> i < 4 \<Longrightarrow> 0 \<le> figure_ints c ! i"
  by (auto simp: figure_ints_def nonneg_cost_def numeral_eq_Suc less_Suc_eq)

lemma cost_le_nth: "cost_le c d \<Longrightarrow> i < 4 \<Longrightarrow> figure_ints c ! i \<le> figure_ints d ! i"
  by (auto simp: cost_le_def list_all2_conv_all_nth figure_ints_def)

lemma nonneg_cost_le: "nonneg_cost c \<Longrightarrow> cost_le c d \<Longrightarrow> nonneg_cost d"
  by (auto simp: cost_le_def figure_ints_def nonneg_cost_def)

lemma figure_delta:
  assumes "nonneg_cost b" and "nonneg_cost c" and "i < 4"
  shows "sint (cf_Value (costFigures c ! i) - cf_Value (costFigures b ! i))
    = figure_ints c ! i - figure_ints b ! i"
  using assms figure_int_nonneg by (subst sint_diff_nonneg) (simp_all add: figure_int_nth)

lemma Exceeded_mono:
  assumes b: "nonneg_cost b" and c: "nonneg_cost c" and le: "cost_le c d"
    and ex: "Exceeded (CompareCost b c (Some th))"
  shows "Exceeded (CompareCost b d (Some th))"
proof -
  obtain i where i: "i < 4"
    and over: "over_threshold th (cf_Value (costFigures c ! i) - cf_Value (costFigures b ! i))
        (percent_of (cf_Value (costFigures c ! i) - cf_Value (costFigures b ! i))
           (cf_Value (costFigures b ! i)))"
    using ex unfolding Exceeded_iff by blast
  have "sint (cf_Value (costFigures c ! i) - cf_Value (costFigures b ! i))
      \<le> sint (cf_Value (costFigures d ! i) - cf_Value (costFigures b ! i))"
    using b c nonneg_cost_le [OF c le] i cost_le_nth [OF le i] by (simp add: figure_delta)
  then show ?thesis
    unfolding Exceeded_iff using i over b over_threshold_mono
    by (metis figure_int_nonneg figure_int_nth)
qed

section \<open>Lemmas of the spread\<close>

lemma foldl_bounds:
  fixes f :: "'a \<Rightarrow> 'a \<Rightarrow> 'a" and v :: "'a \<Rightarrow> int"
  assumes f: "\<And>a b. v (f a b) = max (v a) (v b)"
  shows "v (foldl f a xs) = Max (v ` set (a # xs))"
proof (induction xs arbitrary: a)
  case (Cons x xs)
  show ?case
    using Cons.IH [of "f a x"] f [of a x]
    by (cases "xs = []") (simp_all add: max.assoc max.commute max.left_commute)
qed simp

lemma foldl_min_bounds:
  fixes f :: "'a \<Rightarrow> 'a \<Rightarrow> 'a" and v :: "'a \<Rightarrow> int"
  assumes f: "\<And>a b. v (f a b) = min (v a) (v b)"
  shows "v (foldl f a xs) = Min (v ` set (a # xs))"
proof (induction xs arbitrary: a)
  case (Cons x xs)
  show ?case
    using Cons.IH [of "f a x"] f [of a x]
    by (cases "xs = []") (simp_all add: min.assoc min.commute min.left_commute)
qed simp

lemma sint_smax64: "sint (smax64 a b) = max (sint a) (sint b)"
  by (simp add: smax64_def word_sless_alt)

lemma sint_smin64: "sint (smin64 a b) = min (sint a) (sint b)"
  by (simp add: smin64_def word_sless_alt)

lemma uint_max: "uint (max a b) = max (uint a) (uint b)"
  by (simp add: max_def word_le_def)

lemma figure_range_bounds:
  assumes "i < 4"
  shows "sint (fs_Max (figure_range i (costFigures c0 ! i) rest)) =
      Max ((\<lambda>c. figure_ints c ! i) ` set (c0 # rest))"
    and "sint (fs_Min (figure_range i (costFigures c0 ! i) rest)) =
      Min ((\<lambda>c. figure_ints c ! i) ` set (c0 # rest))"
proof -
  have img: "sint ` set (cf_Value (costFigures c0 ! i) # map (\<lambda>c. cf_Value (costFigures c ! i)) rest)
      = (\<lambda>c. figure_ints c ! i) ` set (c0 # rest)"
    using assms by (simp add: figure_int_nth image_image)
  show "sint (fs_Max (figure_range i (costFigures c0 ! i) rest)) =
      Max ((\<lambda>c. figure_ints c ! i) ` set (c0 # rest))"
    unfolding img [symmetric] figure_range_def Let_def figure_spread.select_convs
    by (rule foldl_bounds [where v = sint]) (rule sint_smax64)
  show "sint (fs_Min (figure_range i (costFigures c0 ! i) rest)) =
      Min ((\<lambda>c. figure_ints c ! i) ` set (c0 # rest))"
    unfolding img [symmetric] figure_range_def Let_def figure_spread.select_convs
    by (rule foldl_min_bounds [where v = sint]) (rule sint_smin64)
qed

lemma figure_ints_max_cost:
  "i < 4 \<Longrightarrow> figure_ints (max_cost m c) ! i = max (figure_ints m ! i) (figure_ints c ! i)"
  by (auto simp: figure_ints_def max_cost_def uint_max sint_smax64 numeral_eq_Suc less_Suc_eq)

lemma max_cost_fold_figures:
  "i < 4 \<Longrightarrow> figure_ints (foldl max_cost c0 rest) ! i = Max ((\<lambda>c. figure_ints c ! i) ` set (c0 # rest))"
  by (rule foldl_bounds [where v = "\<lambda>c. figure_ints c ! i"]) (rule figure_ints_max_cost)

lemma spread_report_figures:
  "sp_Figures (SpreadCost (c0 # rest) fps th) =
     map (\<lambda>i. figure_range i (costFigures c0 ! i) rest) [0..<4]"
  by (simp add: SpreadCost_def Let_def list_eq_iff_nth_eq)

lemma spread_max: "sp_Max (SpreadCost (c0 # rest) fps th) = foldl max_cost c0 rest"
  by (simp add: SpreadCost_def Let_def)

lemma cost_le_spread_max:
  assumes "c \<in> set (c0 # rest)"
  shows "cost_le c (foldl max_cost c0 rest)"
proof -
  have "figure_ints c ! i \<le> figure_ints (foldl max_cost c0 rest) ! i" if "i < 4" for i
    unfolding max_cost_fold_figures [OF that]
    using assms by (intro Max_ge) auto
  then show ?thesis
    by (simp add: cost_le_def list_all2_conv_all_nth figure_ints_def)
qed

section \<open>Lemmas of the footprint changes\<close>

definition distinct_labels :: "footprint list \<Rightarrow> bool" where
  "distinct_labels fps \<longleftrightarrow> list_all (\<lambda>fp. distinct (labelled fp)) fps"

lemma count_list_distinct: "distinct xs \<Longrightarrow> count_list xs k = (if k \<in> set xs then 1 else 0)"
  by (induction xs) auto

lemma count_labelled:
  "distinct_labels fps \<Longrightarrow>
     count_list (concat (map labelled fps)) k = length (filter (\<lambda>fp. k \<in> set (labelled fp)) fps)"
  by (induction fps) (auto simp: distinct_labels_def count_list_distinct)

lemma length_filter_eq_all: "length (filter P xs) = length xs \<longleftrightarrow> list_all P xs"
  using length_filter_le [of P xs] by (metis filter_id_conv length_filter_less less_irrefl list_all_iff filter_cong)

lemma footprintChanges_set:
  assumes "distinct_labels fps"
  shows "k \<in> set (footprintChanges fps) \<longleftrightarrow>
    list_ex (\<lambda>fp. k \<in> set (labelled fp)) fps \<and> \<not> list_all (\<lambda>fp. k \<in> set (labelled fp)) fps"
  using count_labelled [OF assms, of k] length_filter_eq_all [of "\<lambda>fp. k \<in> set (labelled fp)" fps]
  by (auto simp: footprintChanges_def Let_def list_ex_iff)

text \<open>
  The labels of a footprint need not be distinct (data entries of one contract share a
  label), and the count then takes an entry of every run for one that moved.
\<close>

lemma footprint_changes_false_alarm:
  "footprintChanges [\<lparr>ReadOnly = [k, k], ReadWrite = []\<rparr>, \<lparr>ReadOnly = [k, k], ReadWrite = []\<rparr>]
     = [''read  '' @ k]"
  by (simp add: footprintChanges_def labelled_def)

text \<open>The total fee of the worst case is the first run's, not the largest.\<close>

lemma spread_total_fee_of_first_run:
  "EstimatedTotalFee (sp_Max (SpreadCost (c0 # rest) fps th)) = EstimatedTotalFee c0"
  by (induction rest arbitrary: c0) (simp_all add: spread_max max_cost_def)

text \<open>A tolerance that is not a number trips on no figure with a non-zero baseline.\<close>

lemma nan_threshold_never_trips:
  "bl \<noteq> 0 \<Longrightarrow> \<not> over_threshold NaN d (percent_of d bl)"
  by (simp add: over_threshold_def percent_of_def flt_def)

section \<open>Properties\<close>

text \<open>
  C22. The verdict of a baseline comparison: with fees that are not negative every reported
  delta is the true difference, and the tolerance is exceeded exactly when some figure grew
  from zero, or grew by a percentage above the tolerance; without a tolerance it never is.
\<close>

theorem compare_cost_verdict:
  assumes "nonneg_cost b" and "nonneg_cost c"
  shows "map (\<lambda>f. sint (cc_Delta f)) (cmp_Figures (CompareCost b c mx)) =
      map2 (-) (figure_ints c) (figure_ints b)
    \<and> \<not> Exceeded (CompareCost b c None)
    \<and> (Exceeded (CompareCost b c (Some th)) \<longleftrightarrow>
        (\<exists>i < 4. figure_ints b ! i < figure_ints c ! i
          \<and> (figure_ints b ! i = 0
             \<or> flt th (fmul (fdiv (f_of_int (figure_ints c ! i - figure_ints b ! i))
                              (f_of_int (figure_ints b ! i))) (Fin 100)))))"
proof -
  define d where "d i = cf_Value (costFigures c ! i) - cf_Value (costFigures b ! i)" for i
  have d: "sint (d i) = figure_ints c ! i - figure_ints b ! i" if "i < 4" for i
    unfolding d_def using assms that by (rule figure_delta)
  have "map (\<lambda>f. sint (cc_Delta f)) (cmp_Figures (CompareCost b c mx)) = map (\<lambda>i. sint (d i)) [0..<4]"
    by (simp add: CompareCost_def cost_change_of_def Let_def d_def list_eq_iff_nth_eq)
  also have "\<dots> = map2 (-) (figure_ints c) (figure_ints b)"
    using d by (simp add: list_eq_iff_nth_eq)
  finally have deltas: "map (\<lambda>f. sint (cc_Delta f)) (cmp_Figures (CompareCost b c mx))
    = map2 (-) (figure_ints c) (figure_ints b)" .
  have "over_threshold th (d i) (percent_of (d i) (cf_Value (costFigures b ! i))) \<longleftrightarrow>
      figure_ints b ! i < figure_ints c ! i
      \<and> (figure_ints b ! i = 0
         \<or> flt th (fmul (fdiv (f_of_int (figure_ints c ! i - figure_ints b ! i))
                          (f_of_int (figure_ints b ! i))) (Fin 100)))" if "i < 4" for i
    using sint_eq_0_iff [of "cf_Value (costFigures b ! i)"]
    by (auto simp: over_threshold_def percent_of_def word_sle_eq d [OF that] figure_int_nth [OF that])
  then have "Exceeded (CompareCost b c (Some th)) \<longleftrightarrow>
      (\<exists>i < 4. figure_ints b ! i < figure_ints c ! i
        \<and> (figure_ints b ! i = 0
           \<or> flt th (fmul (fdiv (f_of_int (figure_ints c ! i - figure_ints b ! i))
                            (f_of_int (figure_ints b ! i))) (Fin 100))))"
    unfolding Exceeded_iff d_def by blast
  then show ?thesis using deltas by (simp add: CompareCost_def)
qed

definition sample_cost :: "u32 \<Rightarrow> i64 \<Rightarrow> cost" where
  "sample_cost n fee = zero_cost\<lparr>Instructions := n, ResourceFee := fee\<rparr>"

lemma sample_cost_fee: "cf_Value (costFigures (sample_cost n fee) ! 3) = fee"
  by (simp add: costFigures_def sample_cost_def numeral_eq_Suc del: ucast_eq)

theorem compare_cost_verdict_witness:
  "Exceeded (CompareCost (sample_cost 100 0) (sample_cost 100 7) (Some (Fin 5)))"
proof -
  have "nonneg_cost (sample_cost 100 0)" and "nonneg_cost (sample_cost 100 7)"
    by (simp_all add: nonneg_cost_def sample_cost_def zero_cost_def)
  from compare_cost_verdict [OF this, of None "Fin 5"] show ?thesis
    by (auto simp: figure_ints_def sample_cost_def zero_cost_def intro!: exI [of _ 3])
qed

text \<open>
  A flaky estimate cannot pass by luck: if any one of the repeated runs exceeds the
  tolerance against the baseline, so does the worst case that \<^verbatim>\<open>Simulate\<close> compares.
\<close>

theorem worst_case_trips_when_any_run_does:
  assumes "nonneg_cost b" and "c \<in> set costs" and "nonneg_cost c"
    and "Exceeded (CompareCost b c (Some th))"
  shows "Exceeded (CompareCost b (sp_Max (SpreadCost costs fps spread)) (Some th))"
proof -
  obtain c0 rest where costs: "costs = c0 # rest" using assms(2) by (cases costs) auto
  have le: "cost_le c (sp_Max (SpreadCost costs fps spread))"
    unfolding costs spread_max using assms(2) costs by (intro cost_le_spread_max) simp
  show ?thesis using assms(1,3) le assms(4) by (rule Exceeded_mono)
qed

theorem worst_case_trips_when_any_run_does_witness:
  "Exceeded (CompareCost (sample_cost 100 0)
     (sp_Max (SpreadCost [sample_cost 90 0, sample_cost 95 3, sample_cost 80 1] [] None)) (Some (Fin 5)))"
proof (rule worst_case_trips_when_any_run_does [where c = "sample_cost 95 3"])
  show "Exceeded (CompareCost (sample_cost 100 0) (sample_cost 95 3) (Some (Fin 5)))"
    unfolding Exceeded_iff
    by (rule exI [of _ 3]) (simp add: sample_cost_fee over_threshold_def percent_of_def word_sle_eq)
qed (simp_all add: nonneg_cost_def sample_cost_def zero_cost_def)

text \<open>
  C35. The spread report bounds the runs tightly: for each figure the reported minimum and
  maximum are those of the runs, the spread is their exact difference, and the cost taken
  as the worst case has the maximum in every figure.
\<close>

theorem spread_ranges_tight:
  assumes "costs \<noteq> []" and "list_all nonneg_cost costs" and "i < 4"
  shows "sint (fs_Min (sp_Figures (SpreadCost costs fps th) ! i)) = Min ((\<lambda>c. figure_ints c ! i) ` set costs)
    \<and> sint (fs_Max (sp_Figures (SpreadCost costs fps th) ! i)) = Max ((\<lambda>c. figure_ints c ! i) ` set costs)
    \<and> sint (fs_Spread (sp_Figures (SpreadCost costs fps th) ! i)) =
        Max ((\<lambda>c. figure_ints c ! i) ` set costs) - Min ((\<lambda>c. figure_ints c ! i) ` set costs)
    \<and> figure_ints (sp_Max (SpreadCost costs fps th)) ! i = Max ((\<lambda>c. figure_ints c ! i) ` set costs)"
proof -
  obtain c0 rest where costs: "costs = c0 # rest" using assms(1) by (cases costs) auto
  let ?f = "figure_range i (costFigures c0 ! i) rest"
  have f: "sp_Figures (SpreadCost costs fps th) ! i = ?f"
    using assms(3) by (simp add: costs spread_report_figures)
  note bounds = figure_range_bounds [OF assms(3), of c0 rest]
  have nonneg: "list_all (\<lambda>c. 0 \<le> figure_ints c ! i) costs"
    using assms(2,3) by (auto simp: list_all_iff figure_int_nonneg)
  then have lo: "0 \<le> sint (fs_Min ?f)"
    unfolding bounds costs by (auto simp: list_all_iff)
  have hi: "0 \<le> sint (fs_Max ?f)"
    using nonneg unfolding bounds costs by (auto simp: list_all_iff intro: Max_ge_iff [THEN iffD2])
  have "fs_Spread ?f = fs_Max ?f - fs_Min ?f" by (simp add: figure_range_def Let_def)
  then have "sint (fs_Spread ?f) = sint (fs_Max ?f) - sint (fs_Min ?f)"
    using sint_diff_nonneg hi lo by simp
  then show ?thesis
    unfolding f using bounds max_cost_fold_figures [OF assms(3)] by (simp add: costs spread_max)
qed

theorem spread_ranges_tight_witness:
  "sint (fs_Spread (sp_Figures (SpreadCost [sample_cost 90 0, sample_cost 95 3] [] None) ! 3)) = 3"
  using spread_ranges_tight [of "[sample_cost 90 0, sample_cost 95 3]" 3 "[]" None]
  by (simp add: nonneg_cost_def sample_cost_def zero_cost_def figure_ints_def)

text \<open>
  With one label per entry, the footprint changes are exactly the entries that some run
  touched and some run did not, sorted and without repetition.
\<close>

theorem footprint_changes_exact:
  assumes "distinct_labels fps"
  shows "(k \<in> set (footprintChanges fps) \<longleftrightarrow>
      list_ex (\<lambda>fp. k \<in> set (labelled fp)) fps \<and> \<not> list_all (\<lambda>fp. k \<in> set (labelled fp)) fps)
    \<and> sorted (footprintChanges fps) \<and> distinct (footprintChanges fps)"
  using footprintChanges_set [OF assms, of k] by (simp add: footprintChanges_def Let_def)

theorem footprint_changes_exact_witness:
  "''read  a'' \<in> set (footprintChanges [\<lparr>ReadOnly = [''a''], ReadWrite = []\<rparr>, \<lparr>ReadOnly = [], ReadWrite = [''a'']\<rparr>])"
  using footprint_changes_exact [of "[\<lparr>ReadOnly = [''a''], ReadWrite = []\<rparr>, \<lparr>ReadOnly = [], ReadWrite = [''a'']\<rparr>]" "''read  a''"]
  by (simp add: distinct_labels_def labelled_def)

end
