(* ===== verification/Scval_Number.thy ===== *)
theory Scval_Number
  imports Go_Text
begin

unbundle bit_operations_syntax

text \<open>
  The integer literals of argument specs, \<^verbatim>\<open>internal/scval/encode.go\<close>: parsing of plain and
  decimal-scaled integers, the range check of a target width, and the conversion between
  an unbounded integer and its 64-bit two's complement words (\<^verbatim>\<open>twosComplementWords\<close> there,
  \<^verbatim>\<open>wordsToBigInt\<close> in \<^verbatim>\<open>decode.go\<close>). \<^verbatim>\<open>big.Int\<close> is \<open>int\<close>.
\<close>

section \<open>Errors\<close>

datatype num_error =
    ExpectedInteger string
  | ExpectedDecimalCount string
  | DecimalCountRange int
  | NeedsScale string
  | ExpectedBase10 string
  | ExpectedNumber string
  | TooManyFractionDigits string nat nat
  | OutOfRange int string

section \<open>Parsing\<close>

definition maxDecimals :: nat where "maxDecimals = 76"

definition isDigits :: "string \<Rightarrow> bool" where
  "isDigits s = list_all is_digit s"

definition parseWholeNumber :: "string \<Rightarrow> string \<Rightarrow> (num_error, int) result" where
  "parseWholeNumber s literal =
     (if CHR ''.'' \<in> set s then Inl (NeedsScale literal)
      else case set_string s of None \<Rightarrow> Inl (ExpectedBase10 literal) | Some n \<Rightarrow> Inr n)"

definition strip_sign :: "string \<Rightarrow> bool \<times> string" where
  "strip_sign value =
     (if prefix ''-'' value then (True, drop 1 value)
      else if prefix ''+'' value then (False, drop 1 value)
      else (False, value))"

definition scaleByDecimals :: "string \<Rightarrow> nat \<Rightarrow> string \<Rightarrow> (num_error, int) result" where
  "scaleByDecimals value0 decimals literal =
     (case strip_sign value0 of (negative, value) \<Rightarrow>
      case cut (CHR ''.'') value of (intPart, fracPart, _) \<Rightarrow>
        if intPart = [] \<and> fracPart = [] then Inl (ExpectedNumber literal)
        else if \<not> isDigits intPart \<or> \<not> isDigits fracPart then Inl (ExpectedNumber literal)
        else if decimals < length fracPart
          then Inl (TooManyFractionDigits literal (length fracPart) decimals)
        else
          let digits = intPart @ fracPart @ replicate (decimals - length fracPart) (CHR ''0'')
          in case set_string digits of
               None \<Rightarrow> Inl (ExpectedNumber literal)
             | Some n \<Rightarrow> Inr (if negative then - n else n))"

definition parseInteger :: "string \<Rightarrow> (num_error, int) result" where
  "parseInteger literal =
     (let s = trim_space literal in
      if s = [] then Inl (ExpectedInteger literal)
      else case cut (CHR ''@'') s of (value, scale, hasScale) \<Rightarrow>
        if \<not> hasScale then parseWholeNumber value literal
        else case set_string scale of
            None \<Rightarrow> Inl (ExpectedDecimalCount scale)
          | Some decimals \<Rightarrow>
              if decimals < 0 then Inl (ExpectedDecimalCount scale)
              else if decimals \<ge> 2 ^ 64 \<or> decimals > int maxDecimals
                then Inl (DecimalCountRange decimals)
              else scaleByDecimals value (nat decimals) literal)"

section \<open>Ranges and two's complement words\<close>

definition checkRange :: "int \<Rightarrow> nat \<Rightarrow> bool \<Rightarrow> string \<Rightarrow> (num_error, unit) result" where
  "checkRange n bits signed' name =
     (let hi = (if signed' then push_bit (bits - 1) 1 - 1 else push_bit bits 1 - 1);
          lo = (if signed' then - push_bit (bits - 1) 1 else 0)
      in if n < lo \<or> hi < n then Inl (OutOfRange n name) else Inr ())"

text \<open>
  The loop runs from the least significant word up, taking the low 64 bits and shifting;
  the most significant word comes first in the result.
\<close>

fun words_loop :: "nat \<Rightarrow> int \<Rightarrow> u64 list \<Rightarrow> u64 list" where
  "words_loop 0 v acc = acc"
| "words_loop (Suc i) v acc = words_loop i (drop_bit 64 v) (word_of_int (v AND mask 64) # acc)"

definition twosComplementWords :: "int \<Rightarrow> nat \<Rightarrow> u64 list" where
  "twosComplementWords n count =
     (let v = (if n < 0 then n + push_bit (count * 64) 1 else n) in words_loop count v [])"

definition wordsToBigInt :: "u64 list \<Rightarrow> bool \<Rightarrow> int" where
  "wordsToBigInt words signed' =
     (let result = foldl (\<lambda>r w. (push_bit 64 r) OR uint w) 0 words
      in if signed' \<and> words \<noteq> [] \<and> hd words AND push_bit 63 1 \<noteq> 0
         then result - push_bit (length words * 64) 1 else result)"

section \<open>Parsing lemmas\<close>

lemma isDigits_all_digits: "isDigits = all_digits"
  by (simp add: fun_eq_iff isDigits_def all_digits_def)

lemma digit_not_mark: "is_digit c \<Longrightarrow> c \<noteq> CHR ''.'' \<and> c \<noteq> CHR ''@''"
  by (auto simp: is_digit_def code_def)

lemma parseInteger_itoa: "parseInteger (itoa n) = Inr n"
proof -
  have "c \<noteq> CHR ''@'' \<and> c \<noteq> CHR ''.''" if "c \<in> set (itoa n)" for c
    using itoa_chars [OF that] digit_not_mark [of c] by auto
  then have marks: "CHR ''@'' \<notin> set (itoa n)" "CHR ''.'' \<notin> set (itoa n)" by blast+
  then show ?thesis
    by (simp add: parseInteger_def trim_space_all_plain [OF itoa_plain] cut_absent parseWholeNumber_def)
qed

lemma itoa_small: "itoa 1 = ''1''" "itoa 7 = ''7''"
  by (simp_all add: itoa_def nat_digits.simps digit_char_def char_of_def bit_0)

text \<open>The digits of a scaled amount: integer part, fraction, zero padding.\<close>

lemma digits_val_zeros: "digits_val (replicate k (CHR ''0'')) = 0"
proof (induction k)
  case 0
  then show ?case by (simp add: digits_val_def)
next
  case (Suc k)
  have "digits_val (replicate k (CHR ''0'') @ [CHR ''0'']) = 0"
    using Suc by (simp add: digits_val_snoc digit_val_def code_def)
  then show ?case by (simp add: replicate_append_same)
qed

lemma all_digits_zeros [simp]: "all_digits (replicate k (CHR ''0''))"
  by (auto simp: all_digits_def list_all_iff is_digit_def code_def)

lemma digits_val_Nil [simp]: "digits_val [] = 0"
  by (simp add: digits_val_def)

definition scaled_value :: "string \<Rightarrow> string \<Rightarrow> nat \<Rightarrow> nat" where
  "scaled_value i f k = digits_val i * 10 ^ k + digits_val f * 10 ^ (k - length f)"

lemma digits_val_scaled:
  "length f \<le> k \<Longrightarrow>
     digits_val (i @ f @ replicate (k - length f) (CHR ''0'')) = scaled_value i f k"
  by (simp add: digits_val_append digits_val_zeros scaled_value_def algebra_simps flip: power_add)

lemma strip_sign_unsigned:
  "all_digits i \<Longrightarrow> i @ r \<noteq> [] \<Longrightarrow> i = [] \<longrightarrow> hd r = CHR ''.'' \<Longrightarrow> strip_sign (i @ r) = (False, i @ r)"
  by (cases i; cases r) (auto simp: strip_sign_def all_digits_def)

lemma scaleByDecimals_digits:
  assumes i: "all_digits i" and f: "all_digits f" and len: "length f \<le> k" and ne: "i \<noteq> [] \<or> f \<noteq> []"
  shows "scaleByDecimals ((if neg then ''-'' else []) @ i @ ''.'' @ f) k lit =
    Inr (if neg then - int (scaled_value i f k) else int (scaled_value i f k))"
proof -
  have dot: "CHR ''.'' \<notin> set i"
    using i digit_not_mark by (auto simp: all_digits_def list_all_iff)
  have sign: "strip_sign ((if neg then ''-'' else []) @ i @ ''.'' @ f) = (neg, i @ ''.'' @ f)"
  proof (cases neg)
    case True
    then show ?thesis by (simp add: strip_sign_def)
  next
    case False
    then show ?thesis using strip_sign_unsigned [OF i, of "''.'' @ f"] by simp
  qed
  have "set_string (i @ f @ replicate (k - length f) (CHR ''0'')) =
      Some (int (digits_val (i @ f @ replicate (k - length f) (CHR ''0''))))"
    using i f ne by (intro set_string_digits) auto
  then have num: "set_string (i @ f @ replicate (k - length f) (CHR ''0'')) = Some (int (scaled_value i f k))"
    unfolding digits_val_scaled [OF len] .
  have cutd: "cut (CHR ''.'') (i @ ''.'' @ f) = (i, f, True)"
    using cut_present [OF dot] by simp
  show ?thesis
    unfolding scaleByDecimals_def sign prod.case cutd
    using assms num by (auto simp: isDigits_all_digits Let_def)
qed

lemma scaleByDecimals_too_many:
  assumes i: "all_digits i" and f: "all_digits f" and len: "k < length f" and ne: "i \<noteq> [] \<or> f \<noteq> []"
  shows "scaleByDecimals ((if neg then ''-'' else []) @ i @ ''.'' @ f) k lit =
    Inl (TooManyFractionDigits lit (length f) k)"
proof -
  have dot: "CHR ''.'' \<notin> set i"
    using i digit_not_mark by (auto simp: all_digits_def list_all_iff)
  have sign: "strip_sign ((if neg then ''-'' else []) @ i @ ''.'' @ f) = (neg, i @ ''.'' @ f)"
    using strip_sign_unsigned [OF i, of "''.'' @ f"] by (cases neg) (simp_all add: strip_sign_def)
  have cutd: "cut (CHR ''.'') (i @ ''.'' @ f) = (i, f, True)"
    using cut_present [OF dot] by simp
  show ?thesis
    unfolding scaleByDecimals_def sign prod.case cutd
    using assms by (auto simp: isDigits_all_digits)
qed

lemma maxDecimals_too_small: "10 ^ 77 < (2 :: int) ^ 256 \<and> maxDecimals < 77"
  by (simp add: maxDecimals_def)

section \<open>Range and word lemmas\<close>

definition in_range :: "int \<Rightarrow> nat \<Rightarrow> bool \<Rightarrow> bool" where
  "in_range n bits signed' \<longleftrightarrow>
     (if signed' then - (2 ^ (bits - 1)) \<le> n \<and> n < 2 ^ (bits - 1) else 0 \<le> n \<and> n < 2 ^ bits)"

lemma checkRange_iff:
  "checkRange n bits signed' name =
     (if in_range n bits signed' then Inr () else Inl (OutOfRange n name))"
  by (auto simp: checkRange_def in_range_def push_bit_eq_mult Let_def)

lemma words_loop_acc: "words_loop k v acc = words_loop k v [] @ acc"
proof (induction k arbitrary: v acc)
  case (Suc k)
  show ?case
    using Suc [of "drop_bit 64 v" "word_of_int (v AND mask 64) # acc"]
      Suc [of "drop_bit 64 v" "[word_of_int (v AND mask 64)]"] by simp
qed simp

lemma words_loop_length: "length (words_loop k v acc) = k + length acc"
  by (induction k arbitrary: v acc) simp_all

definition words_val :: "u64 list \<Rightarrow> int" where
  "words_val ws = foldl (\<lambda>r w. (push_bit 64 r) OR uint w) 0 ws"

lemma push_or_add: "(push_bit 64 r) OR uint (w :: u64) = r * 2 ^ 64 + uint w"
proof -
  have "push_bit 64 r AND uint w = 0"
  proof (rule bit_eqI)
    fix n
    have "\<not> bit (uint w) n" if "64 \<le> n"
      using that by (simp add: bit_uint_iff)
    then show "bit (push_bit 64 r AND uint w) n \<longleftrightarrow> bit 0 n"
      by (auto simp: bit_and_iff bit_push_bit_iff)
  qed
  then have "(push_bit 64 r) OR uint w = push_bit 64 r + uint w"
    by (rule disjunctive_add_eq_or [symmetric])
  then show ?thesis by (simp add: push_bit_eq_mult)
qed

lemma words_val_snoc: "words_val (ws @ [w]) = words_val ws * 2 ^ 64 + uint w"
  by (simp add: words_val_def push_or_add)

lemma uint_low64: "uint (word_of_int (v AND mask 64) :: u64) = v mod 2 ^ 64"
  by (simp add: uint_word_of_int_eq take_bit_eq_mod flip: take_bit_eq_mask)

lemma words_val_loop: "words_val (words_loop k v []) = v mod 2 ^ (64 * k)"
proof (induction k arbitrary: v)
  case 0
  then show ?case by (simp add: words_val_def)
next
  case (Suc k)
  have "words_val (words_loop (Suc k) v []) = (drop_bit 64 v mod 2 ^ (64 * k)) * 2 ^ 64 + v mod 2 ^ 64"
    using Suc [of "drop_bit 64 v"]
    by (simp add: words_loop_acc [of k _ "[_]"] words_val_snoc uint_low64 del: of_int_and_eq)
  also have "\<dots> = v mod (2 ^ 64 * 2 ^ (64 * k))"
    using zmod_zmult2_eq [of "2 ^ (64 * k)" v "2 ^ 64"] by (simp add: drop_bit_eq_div mult.commute)
  also have "2 ^ 64 * 2 ^ (64 * k) = (2 :: int) ^ (64 * Suc k)"
    by (simp add: power_add)
  finally show ?case .
qed

lemma words_val_range: "0 \<le> words_val ws \<and> words_val ws < 2 ^ (64 * length ws)"
proof (induction ws rule: rev_induct)
  case Nil
  then show ?case by (simp add: words_val_def)
next
  case (snoc w ws)
  have "uint w < 2 ^ 64" using unsigned_less [of w, where 'a = int] by simp
  moreover have "words_val ws * 2 ^ 64 \<le> (2 ^ (64 * length ws) - 1) * 2 ^ 64"
    using snoc by (intro mult_right_mono) auto
  moreover have "(2 :: int) ^ (64 * length (ws @ [w])) = 2 ^ (64 * length ws) * 2 ^ 64"
    by (simp add: power_add algebra_simps)
  ultimately show ?case
    using snoc by (simp add: words_val_snoc algebra_simps)
qed

lemma words_val_Cons: "words_val (w # ws) = uint w * 2 ^ (64 * length ws) + words_val ws"
proof (induction ws rule: rev_induct)
  case Nil
  then show ?case by (simp add: words_val_def push_or_add)
next
  case (snoc v ws)
  have "words_val (w # ws @ [v]) = words_val (w # ws) * 2 ^ 64 + uint v"
    using words_val_snoc [of "w # ws" v] by simp
  then show ?case
    by (simp add: snoc words_val_snoc power_add algebra_simps)
qed

lemma sign_bit_iff: "(w :: u64) AND push_bit 63 1 \<noteq> 0 \<longleftrightarrow> 2 ^ 63 \<le> uint w"
proof -
  have "w AND push_bit 63 1 \<noteq> 0 \<longleftrightarrow> bit w 63"
    by (simp only: push_bit_eq_mult mult_1 and_exp_eq_0_iff_not_bit not_not)
  also have "\<dots> \<longleftrightarrow> odd (uint w div 2 ^ 63)"
    using bit_iff_odd [of "uint w" 63] by (simp add: bit_uint_iff)
  also have "\<dots> \<longleftrightarrow> 2 ^ 63 \<le> uint w"
  proof -
    have "uint w div 2 ^ 63 = (if 2 ^ 63 \<le> uint w then 1 else 0)"
      using unsigned_less [of w, where 'a = int]
      by (auto simp: div_pos_pos_trivial int_div_pos_eq [where q = 1 and r = "uint w - 2 ^ 63"])
    then show ?thesis by simp
  qed
  finally show ?thesis .
qed

lemma wordsToBigInt_Cons:
  "wordsToBigInt (w # ws) s =
     (if s \<and> 2 ^ 63 \<le> uint w then words_val (w # ws) - 2 ^ (64 * length (w # ws))
      else words_val (w # ws))"
  unfolding wordsToBigInt_def words_val_def [symmetric] Let_def list.sel sign_bit_iff
  by (simp only: push_bit_eq_mult mult_1 list.distinct not_False_eq_True simp_thms mult.commute)

lemma length_twosComplementWords [simp]: "length (twosComplementWords n k) = k"
  by (simp add: twosComplementWords_def words_loop_length Let_def)

lemma words_val_twos:
  assumes "in_range n (64 * k) s" and "0 < k"
  shows "words_val (twosComplementWords n k) = (if n < 0 then n + 2 ^ (64 * k) else n)"
proof -
  have half: "(2 :: int) ^ (64 * k) = 2 * 2 ^ (64 * k - 1)"
    using assms(2) by (cases "64 * k") auto
  have "0 \<le> (if n < 0 then n + 2 ^ (64 * k) else n) \<and> (if n < 0 then n + 2 ^ (64 * k) else n) < 2 ^ (64 * k)"
    using assms half by (auto simp: in_range_def split: if_splits)
  then have "(if n < 0 then n + 2 ^ (64 * k) else n) mod 2 ^ (64 * k) =
      (if n < 0 then n + 2 ^ (64 * k) else n)"
    by (intro mod_pos_pos_trivial) auto
  then show ?thesis
    by (simp add: twosComplementWords_def words_val_loop push_bit_eq_mult mult.commute Let_def
        split: if_splits)
qed

lemma words_round_trip:
  assumes "in_range n (64 * k) s" and "0 < k"
  shows "wordsToBigInt (twosComplementWords n k) s = n"
proof -
  obtain w ws where ws: "twosComplementWords n k = w # ws" "length ws = k - 1"
    using assms(2) length_twosComplementWords [of n k] by (cases "twosComplementWords n k") auto
  let ?V = "if n < 0 then n + 2 ^ (64 * k) else n"
  have V: "uint w * 2 ^ (64 * (k - 1)) + words_val ws = ?V"
    using words_val_twos [OF assms] by (simp add: ws words_val_Cons)
  have r: "0 \<le> words_val ws" "words_val ws < 2 ^ (64 * (k - 1))"
    using words_val_range [of ws] by (simp_all add: ws)
  have kk: "(2 :: int) ^ (64 * k - 1) = 2 ^ 63 * 2 ^ (64 * (k - 1))"
    using assms(2) by (cases k) (simp_all add: power_add)
  have half: "(2 :: int) ^ (64 * k) = 2 * 2 ^ (64 * k - 1)"
    using assms(2) by (cases "64 * k") auto
  have top: "2 ^ 63 \<le> uint w \<longleftrightarrow> 2 ^ (64 * k - 1) \<le> ?V"
  proof
    assume "2 ^ 63 \<le> uint w"
    then have "2 ^ 63 * 2 ^ (64 * (k - 1)) \<le> uint w * 2 ^ (64 * (k - 1))"
      by (intro mult_right_mono) auto
    then show "2 ^ (64 * k - 1) \<le> ?V" using V r kk by linarith
  next
    assume le: "2 ^ (64 * k - 1) \<le> ?V"
    show "2 ^ 63 \<le> uint w"
    proof (rule ccontr)
      assume "\<not> 2 ^ 63 \<le> uint w"
      then have "(uint w + 1) * 2 ^ (64 * (k - 1)) \<le> 2 ^ 63 * 2 ^ (64 * (k - 1))"
        by (intro mult_right_mono) auto
      then have "uint w * 2 ^ (64 * (k - 1)) + 2 ^ (64 * (k - 1)) \<le> 2 ^ (64 * k - 1)"
        unfolding kk by (simp only: distrib_right mult_1)
      with V r le show False by linarith
    qed
  qed
  have "wordsToBigInt (twosComplementWords n k) s =
      (if s \<and> 2 ^ (64 * k - 1) \<le> ?V then ?V - 2 ^ (64 * k) else ?V)"
    using words_val_twos [OF assms] length_twosComplementWords [of n k]
    unfolding ws(1) wordsToBigInt_Cons top by (simp only: if_cancel)
  also have "\<dots> = n"
    using assms(1) half by (auto simp: in_range_def split: if_splits)
  finally show ?thesis .
qed

section \<open>Properties\<close>

lemma parseInteger_scaled:
  assumes "\<And>c. c \<in> set v \<Longrightarrow> plain_char c \<and> c \<noteq> CHR ''@''" and "k \<le> maxDecimals"
  shows "parseInteger (v @ ''@'' @ itoa (int k)) =
    scaleByDecimals v k (v @ ''@'' @ itoa (int k))"
proof -
  have "list_all plain_char (v @ ''@'' @ itoa (int k))"
    using assms(1) itoa_plain [of "int k"] by (auto simp: list_all_iff plain_char_def code_def)
  then have trim: "trim_space (v @ ''@'' @ itoa (int k)) = v @ ''@'' @ itoa (int k)"
    by (rule trim_space_all_plain)
  have at: "CHR ''@'' \<notin> set v" using assms(1) by blast
  have "cut (CHR ''@'') (v @ ''@'' @ itoa (int k)) = (v, itoa (int k), True)"
    using cut_present [OF at] by simp
  then show ?thesis
    using assms(2) unfolding parseInteger_def trim Let_def
    by (simp add: maxDecimals_def)
qed

text \<open>
  C32. A scaled amount is exact: the digits before and after the point, read as one number and
  padded to the decimal count, are the base units, with the sign given; an amount with more
  fractional digits than the token has decimals is refused, never rounded.
\<close>

theorem scaled_amount_exact:
  assumes "all_digits i" and "all_digits f" and "i \<noteq> [] \<or> f \<noteq> []" and "k \<le> maxDecimals"
    and lit: "lit = (if neg then ''-'' else []) @ i @ ''.'' @ f @ ''@'' @ itoa (int k)"
  shows "parseInteger lit =
    (if length f \<le> k
     then Inr ((if neg then - 1 else 1) * int (digits_val (i @ f) * 10 ^ (k - length f)))
     else Inl (TooManyFractionDigits lit (length f) k))"
proof -
  let ?v = "(if neg then ''-'' else []) @ i @ ''.'' @ f"
  have chars: "plain_char c \<and> c \<noteq> CHR ''@''" if "c \<in> set ?v" for c
    using that assms(1,2)
    by (auto simp: all_digits_def list_all_iff is_digit_def plain_char_def code_def split: if_splits)
  have "parseInteger lit = scaleByDecimals ?v k lit"
    using parseInteger_scaled [of ?v k, OF chars assms(4)] unfolding lit by (simp only: append_assoc)
  moreover have "scaled_value i f k = digits_val (i @ f) * 10 ^ (k - length f)" if "length f \<le> k"
    using that by (simp add: scaled_value_def digits_val_append algebra_simps flip: power_add)
  ultimately show ?thesis
    using scaleByDecimals_digits [of i f k neg lit] scaleByDecimals_too_many [of i f k neg lit] assms
    by auto
qed

lemma scaled_amount_exact_witness:
  "parseInteger ''-10.5@7'' = Inr (- 105000000)"
  using scaled_amount_exact [of "''10''" "''5''" 7 "''-10.5@7''" True]
  by (simp add: maxDecimals_def all_digits_def is_digit_def code_def itoa_small
      digits_val_def digit_val_def)

end
