(* ===== verification/Scval_Codec.thy ===== *)
theory Scval_Codec
  imports Scval_Number "HOL-Library.AList"
begin

text \<open>
  Soroban values and their scalar codec: the \<^verbatim>\<open>xdr.ScVal\<close> union as \<open>scval\<close>, the encoders of
  \<^verbatim>\<open>internal/scval/encode.go\<close> and the decoder of \<^verbatim>\<open>internal/scval/decode.go\<close>.

  A \<^verbatim>\<open>ScVal\<close> is a type tag and one pointer per arm, so each constructor carries an option;
  \<open>None\<close> is a nil pointer. What the Stellar SDK computes (strkey validity and decoding,
  \<^verbatim>\<open>ScAddress.String\<close>) is the record \<open>strkey_lib\<close>, an argument of the operations that use it;
  the names the SDK gives to enumeration values are carried as texts. A Go \<^verbatim>\<open>any\<close> holding a
  JSON-friendly value is \<open>jval\<close>; a \<^verbatim>\<open>map[string]any\<close> is an association list updated by key.
\<close>

section \<open>Data\<close>

datatype sc_address = AddrAccount "u8 list" | AddrContract "u8 list" | AddrOther nat

record parts128 =
  Hi :: u64
  Lo :: u64

record parts256 =
  HiHi :: u64
  HiLo :: u64
  LoHi :: u64
  LoLo :: u64

datatype sc_error = ScErrContract string u32 | ScErrCode string string

datatype scval =
    ScvVoid
  | ScvBool "bool option"
  | ScvU32 "u32 option"
  | ScvI32 "i32 option"
  | ScvU64 "u64 option"
  | ScvI64 "i64 option"
  | ScvTimepoint "u64 option"
  | ScvDuration "u64 option"
  | ScvU128 "parts128 option"
  | ScvI128 "parts128 option"
  | ScvU256 "parts256 option"
  | ScvI256 "parts256 option"
  | ScvBytes "u8 list option"
  | ScvString "string option"
  | ScvSymbol "string option"
  | ScvAddress "sc_address option"
  | ScvVec "scval list option"
  | ScvMap "(scval \<times> scval) list option"
  | ScvError "sc_error option"
  | ScvLedgerKeyContractInstance
  | ScvLedgerKeyNonce "i64 option"
  | ScvContractInstance "(string \<times> u8 list option \<times> (scval \<times> scval) list option) option"
  | ScvUnknown string

datatype jval =
    JNull
  | JBool bool
  | JUint u32
  | JInt i32
  | JString string
  | JList "jval list"
  | JObject "(string \<times> jval) list"

record strkey_lib =
  IsValidEd25519PublicKey :: "string \<Rightarrow> bool"
  IsValidContractAddress :: "string \<Rightarrow> bool"
  decode_account :: "string \<Rightarrow> u8 list option"
  decode_contract :: "string \<Rightarrow> u8 list option"
  address_string :: "sc_address \<Rightarrow> string option"

datatype encode_error =
    NumError num_error
  | ExpectedBoolean string
  | ExpectedTimestamp string
  | ExpectedDuration string
  | SymbolTooLong string nat
  | SymbolChars string
  | ExpectedHex string
  | DecodeAccountAddress string
  | DecodeContractAddress string
  | ExpectedAddress string
  | Argument string encode_error
  | ArgAt nat encode_error
  | TooDeep
  | NotArray string
  | NotJson string
  | VecItem nat encode_error
  | MapNotPair nat
  | MapKey nat encode_error
  | MapVal nat encode_error
  | EmptyElement
  | BadStringElement
  | ObjectsUnsupported
  | NotInteger string

datatype decode_error =
    NoValue string
  | DecodeAddress
  | VecAt nat decode_error
  | MapKeyAt nat decode_error
  | MapValueAt nat decode_error
  | InstanceStorage decode_error
  | Unsupported string

section \<open>Encoders\<close>

definition maxSymbolLen :: nat where "maxSymbolLen = 32"

definition isIntegerLiteral :: "string \<Rightarrow> bool" where
  "isIntegerLiteral s =
     (if s = [] then False
      else let body = trim_prefix ''+'' (trim_prefix ''-'' s)
           in if body = [] then False else list_all is_digit body)"

definition symbol_char :: "char \<Rightarrow> bool" where
  "symbol_char c \<longleftrightarrow> is_lower c \<or> is_upper c \<or> is_digit c \<or> c = CHR ''_''"

definition isSymbolLiteral :: "string \<Rightarrow> bool" where
  "isSymbolLiteral s =
     (if s = [] \<or> maxSymbolLen < length s then False else list_all symbol_char s)"

definition unquote :: "string \<Rightarrow> string" where
  "unquote s =
     (if 2 \<le> length s \<and>
         (hd s = CHR 0x22 \<and> last s = CHR 0x22 \<or> hd s = CHR 0x27 \<and> last s = CHR 0x27)
      then butlast (tl s) else s)"

definition encodeBool :: "string \<Rightarrow> (encode_error, scval) result" where
  "encodeBool literal =
     (case parse_bool (trim_space literal) of
        None \<Rightarrow> Inl (ExpectedBoolean literal)
      | Some b \<Rightarrow> Inr (ScvBool (Some b)))"

text \<open>The first two statements of every integer encoder: parse, then check the range.\<close>

definition parse_in_range ::
    "nat \<Rightarrow> bool \<Rightarrow> string \<Rightarrow> string \<Rightarrow> (encode_error, int) result" where
  "parse_in_range bits signed' name literal =
     rbind (rmap_err NumError (parseInteger literal)) (\<lambda>n.
     rbind (rmap_err NumError (checkRange n bits signed' name)) (\<lambda>_. Inr n))"

definition encodeU32 :: "string \<Rightarrow> (encode_error, scval) result" where
  "encodeU32 literal = rbind (parse_in_range 32 False ''u32'' literal)
     (\<lambda>n. Inr (ScvU32 (Some (word_of_int n))))"

definition encodeI32 :: "string \<Rightarrow> (encode_error, scval) result" where
  "encodeI32 literal = rbind (parse_in_range 32 True ''i32'' literal)
     (\<lambda>n. Inr (ScvI32 (Some (word_of_int n))))"

definition encodeU64 :: "string \<Rightarrow> (encode_error, scval) result" where
  "encodeU64 literal = rbind (parse_in_range 64 False ''u64'' literal)
     (\<lambda>n. Inr (ScvU64 (Some (word_of_int n))))"

definition encodeI64 :: "string \<Rightarrow> (encode_error, scval) result" where
  "encodeI64 literal = rbind (parse_in_range 64 True ''i64'' literal)
     (\<lambda>n. Inr (ScvI64 (Some (word_of_int n))))"

definition encodeTimepoint :: "string \<Rightarrow> (encode_error, scval) result" where
  "encodeTimepoint literal =
     (case parse_uint 64 (trim_space literal) of
        None \<Rightarrow> Inl (ExpectedTimestamp literal)
      | Some n \<Rightarrow> Inr (ScvTimepoint (Some (of_nat n))))"

definition encodeDuration :: "string \<Rightarrow> (encode_error, scval) result" where
  "encodeDuration literal =
     (case parse_uint 64 (trim_space literal) of
        None \<Rightarrow> Inl (ExpectedDuration literal)
      | Some n \<Rightarrow> Inr (ScvDuration (Some (of_nat n))))"

definition encodeSymbol :: "string \<Rightarrow> (encode_error, scval) result" where
  "encodeSymbol literal =
     (let s = unquote literal in
      if maxSymbolLen < length s then Inl (SymbolTooLong s (length s))
      else if \<not> isSymbolLiteral s \<and> s \<noteq> [] then Inl (SymbolChars s)
      else Inr (ScvSymbol (Some s)))"

definition encodeString :: "string \<Rightarrow> (encode_error, scval) result" where
  "encodeString literal = Inr (ScvString (Some (unquote literal)))"

definition encodeBytes :: "string \<Rightarrow> (encode_error, scval) result" where
  "encodeBytes literal =
     (let s = trim_prefix ''0x'' (trim_space (unquote literal))
      in case hex_decode s of
           None \<Rightarrow> Inl (ExpectedHex literal)
         | Some raw \<Rightarrow> Inr (ScvBytes (Some raw)))"

text \<open>\<^verbatim>\<open>copy\<close> into a 32-byte array: the missing bytes stay zero, surplus bytes are dropped.\<close>

definition copy32 :: "u8 list \<Rightarrow> u8 list" where
  "copy32 raw = take 32 raw @ replicate (32 - length raw) 0"

definition encodeAddress :: "strkey_lib \<Rightarrow> string \<Rightarrow> (encode_error, scval) result" where
  "encodeAddress L literal =
     (let s = trim_space (unquote literal) in
      if IsValidEd25519PublicKey L s
        then (case decode_account L s of
                None \<Rightarrow> Inl (DecodeAccountAddress s)
              | Some raw \<Rightarrow> Inr (ScvAddress (Some (AddrAccount (copy32 raw)))))
      else if IsValidContractAddress L s
        then (case decode_contract L s of
                None \<Rightarrow> Inl (DecodeContractAddress s)
              | Some raw \<Rightarrow> Inr (ScvAddress (Some (AddrContract (copy32 raw)))))
      else Inl (ExpectedAddress s))"

definition encodeU128 :: "string \<Rightarrow> (encode_error, scval) result" where
  "encodeU128 literal = rbind (parse_in_range 128 False ''u128'' literal)
     (\<lambda>n. let w = twosComplementWords n 2
          in Inr (ScvU128 (Some \<lparr>Hi = w ! 0, Lo = w ! 1\<rparr>)))"

definition encodeI128 :: "string \<Rightarrow> (encode_error, scval) result" where
  "encodeI128 literal = rbind (parse_in_range 128 True ''i128'' literal)
     (\<lambda>n. let w = twosComplementWords n 2
          in Inr (ScvI128 (Some \<lparr>Hi = w ! 0, Lo = w ! 1\<rparr>)))"

definition encodeU256 :: "string \<Rightarrow> (encode_error, scval) result" where
  "encodeU256 literal = rbind (parse_in_range 256 False ''u256'' literal)
     (\<lambda>n. let w = twosComplementWords n 4
          in Inr (ScvU256 (Some \<lparr>HiHi = w ! 0, HiLo = w ! 1, LoHi = w ! 2, LoLo = w ! 3\<rparr>)))"

definition encodeI256 :: "string \<Rightarrow> (encode_error, scval) result" where
  "encodeI256 literal = rbind (parse_in_range 256 True ''i256'' literal)
     (\<lambda>n. let w = twosComplementWords n 4
          in Inr (ScvI256 (Some \<lparr>HiHi = w ! 0, HiLo = w ! 1, LoHi = w ! 2, LoLo = w ! 3\<rparr>)))"

section \<open>Decoding\<close>

definition words128 :: "parts128 \<Rightarrow> u64 list" where
  "words128 p = [Hi p, Lo p]"

definition words256 :: "parts256 \<Rightarrow> u64 list" where
  "words256 p = [HiHi p, HiLo p, LoHi p, LoLo p]"

fun ToBigInt :: "scval \<Rightarrow> int option" where
  "ToBigInt (ScvU32 v) = map_option uint v"
| "ToBigInt (ScvI32 v) = map_option sint v"
| "ToBigInt (ScvU64 v) = map_option uint v"
| "ToBigInt (ScvI64 v) = map_option sint v"
| "ToBigInt (ScvTimepoint v) = map_option uint v"
| "ToBigInt (ScvDuration v) = map_option uint v"
| "ToBigInt (ScvU128 v) = map_option (\<lambda>p. wordsToBigInt (words128 p) False) v"
| "ToBigInt (ScvI128 v) = map_option (\<lambda>p. wordsToBigInt (words128 p) True) v"
| "ToBigInt (ScvU256 v) = map_option (\<lambda>p. wordsToBigInt (words256 p) False) v"
| "ToBigInt (ScvI256 v) = map_option (\<lambda>p. wordsToBigInt (words256 p) True) v"
| "ToBigInt _ = None"

fun is_string :: "jval \<Rightarrow> bool" where
  "is_string (JString _) = True"
| "is_string _ = False"

fun string_of :: "jval \<Rightarrow> string" where
  "string_of (JString s) = s"
| "string_of _ = []"

text \<open>The last part of \<^verbatim>\<open>decodeMap\<close>: an object when every key is a string, else a list of pairs.\<close>

definition map_value :: "(jval \<times> jval) list \<Rightarrow> jval" where
  "map_value pairs =
     (if list_all (\<lambda>p. is_string (fst p)) pairs
      then JObject (foldl (\<lambda>out p. AList.update (string_of (fst p)) (snd p) out) [] pairs)
      else JList (map (\<lambda>p. JObject [(''key'', fst p), (''value'', snd p)]) pairs))"

definition some_or :: "string \<Rightarrow> 'a option \<Rightarrow> ('a \<Rightarrow> jval) \<Rightarrow> (decode_error, jval) result" where
  "some_or name v f = (case v of None \<Rightarrow> Inl (NoValue name) | Some x \<Rightarrow> Inr (f x))"

definition decodeError :: "sc_error option \<Rightarrow> (decode_error, jval) result" where
  "decodeError v = some_or ''error'' v (\<lambda>e. case e of
     ScErrContract t c \<Rightarrow> JObject [(''type'', JString t), (''contract_code'', JUint c)]
   | ScErrCode t c \<Rightarrow> JObject [(''type'', JString t), (''code'', JString c)])"

abbreviation entries_size :: "(scval \<times> scval) list \<Rightarrow> nat" where
  "entries_size \<equiv> size_list (\<lambda>x. Suc (size (fst x) + size (snd x)))"

lemma entry_size:
  "e \<in> set es \<Longrightarrow> size (fst e) < entries_size es \<and> size (snd e) < entries_size es"
  by (induction es) auto

lemma item_size: "x \<in> set xs \<Longrightarrow> size x \<le> Suc (size_list size xs)"
  by (induction xs) auto

function (sequential)
    Decode :: "(sc_address \<Rightarrow> string option) \<Rightarrow> scval \<Rightarrow> (decode_error, jval) result"
and decodeMap :: "(sc_address \<Rightarrow> string option) \<Rightarrow> (scval \<times> scval) list option \<Rightarrow> (decode_error, jval) result"
and decodeContractInstance :: "(sc_address \<Rightarrow> string option) \<Rightarrow>
      (string \<times> u8 list option \<times> (scval \<times> scval) list option) option \<Rightarrow> (decode_error, jval) result" where
  "Decode A ScvVoid = Inr JNull"
| "Decode A (ScvBool v) = some_or ''bool'' v JBool"
| "Decode A (ScvU32 v) = some_or ''u32'' v JUint"
| "Decode A (ScvI32 v) = some_or ''i32'' v JInt"
| "Decode A (ScvU64 v) = some_or ''u64'' v (\<lambda>n. JString (itoa (uint n)))"
| "Decode A (ScvI64 v) = some_or ''i64'' v (\<lambda>n. JString (itoa (sint n)))"
| "Decode A (ScvTimepoint v) = some_or ''timepoint'' v (\<lambda>n. JString (itoa (uint n)))"
| "Decode A (ScvDuration v) = some_or ''duration'' v (\<lambda>n. JString (itoa (uint n)))"
| "Decode A (ScvU128 v) = some_or ''u128'' v (\<lambda>p. JString (itoa (wordsToBigInt (words128 p) False)))"
| "Decode A (ScvI128 v) = some_or ''i128'' v (\<lambda>p. JString (itoa (wordsToBigInt (words128 p) True)))"
| "Decode A (ScvU256 v) = some_or ''u256'' v (\<lambda>p. JString (itoa (wordsToBigInt (words256 p) False)))"
| "Decode A (ScvI256 v) = some_or ''i256'' v (\<lambda>p. JString (itoa (wordsToBigInt (words256 p) True)))"
| "Decode A (ScvBytes v) = some_or ''bytes'' v (\<lambda>b. JString (hex_encode b))"
| "Decode A (ScvString v) = some_or ''string'' v JString"
| "Decode A (ScvSymbol v) = some_or ''symbol'' v JString"
| "Decode A (ScvAddress v) =
     (case v of None \<Rightarrow> Inl (NoValue ''address'')
      | Some a \<Rightarrow> (case A a of None \<Rightarrow> Inl DecodeAddress | Some s \<Rightarrow> Inr (JString s)))"
| "Decode A (ScvVec v) =
     (case v of None \<Rightarrow> Inr (JList [])
      | Some items \<Rightarrow> rbind (rmap (\<lambda>i x. rmap_err (VecAt i) (Decode A x)) items) (\<lambda>out. Inr (JList out)))"
| "Decode A (ScvMap v) = decodeMap A v"
| "Decode A (ScvError v) = decodeError v"
| "Decode A ScvLedgerKeyContractInstance = Inr (JString ''contract_instance'')"
| "Decode A (ScvLedgerKeyNonce v) =
     some_or ''nonce'' v (\<lambda>n. JObject [(''nonce'', JString (itoa (sint n)))])"
| "Decode A (ScvContractInstance v) = decodeContractInstance A v"
| "Decode A (ScvUnknown t) = Inl (Unsupported t)"
| "decodeMap A v =
     (case v of None \<Rightarrow> Inr (JObject [])
      | Some entries \<Rightarrow>
          rbind (rmap (\<lambda>i e. rbind (rmap_err (MapKeyAt i) (Decode A (fst e))) (\<lambda>k.
                              rbind (rmap_err (MapValueAt i) (Decode A (snd e))) (\<lambda>x. Inr (k, x)))) entries)
            (\<lambda>pairs. Inr (map_value pairs)))"
| "decodeContractInstance A v =
     (case v of None \<Rightarrow> Inl (NoValue ''contract instance'')
      | Some (executable, wasm, storage) \<Rightarrow>
          let out = [(''executable'', JString executable)] @
                    (case wasm of None \<Rightarrow> [] | Some hash \<Rightarrow> [(''wasm_hash'', JString (hex_encode hash))])
          in (case storage of
                None \<Rightarrow> Inr (JObject out)
              | Some m \<Rightarrow> rbind (rmap_err InstanceStorage (decodeMap A (Some m)))
                           (\<lambda>s. Inr (JObject (out @ [(''storage'', s)])))))"
  by pat_completeness auto

termination
  by (relation "measure (\<lambda>x. case x of
        Inl (_, v) \<Rightarrow> size v
      | Inr (Inl (_, m)) \<Rightarrow> size_option entries_size m
      | Inr (Inr (_, c)) \<Rightarrow>
          size_option (\<lambda>x. Suc (Suc (size_option entries_size (snd (snd x))))) c)")
    (auto simp: size_prod_simp less_Suc_eq_le dest: entry_size item_size)

lemma map_value_not_string [simp]: "map_value ps \<noteq> JString s"
  by (simp add: map_value_def)

section \<open>Lemmas\<close>

text \<open>The eight integer types of the syntax, with width, signedness and encoder.\<close>

definition int_encoders ::
    "(string \<times> nat \<times> bool \<times> (string \<Rightarrow> (encode_error, scval) result)) list" where
  "int_encoders =
     [(''u32'', 32, False, encodeU32), (''i32'', 32, True, encodeI32),
      (''u64'', 64, False, encodeU64), (''i64'', 64, True, encodeI64),
      (''u128'', 128, False, encodeU128), (''i128'', 128, True, encodeI128),
      (''u256'', 256, False, encodeU256), (''i256'', 256, True, encodeI256)]"

lemma parse_in_range_cases:
  "parse_in_range bits s name lit =
     (case parseInteger lit of
        Inl e \<Rightarrow> Inl (NumError e)
      | Inr n \<Rightarrow> if in_range n bits s then Inr n else Inl (NumError (OutOfRange n name)))"
  by (auto simp: parse_in_range_def checkRange_iff split: sum.splits)

lemma uint_of_int_in_range:
  "in_range n (LENGTH('a)) False \<Longrightarrow> uint (word_of_int n :: 'a :: len word) = n"
  by (simp add: in_range_def uint_word_of_int_eq take_bit_int_eq_self)

lemma sint_of_int_in_range:
  "in_range n (LENGTH('a)) True \<Longrightarrow> sint (word_of_int n :: 'a :: len word) = n"
  by (simp add: in_range_def signed_of_int signed_take_bit_int_eq_self)

lemma list_of_two: "length xs = 2 \<Longrightarrow> [xs ! 0, xs ! Suc 0] = xs"
  by (auto simp: numeral_2_eq_2 length_Suc_conv)

lemma list_of_four: "length xs = 4 \<Longrightarrow> [xs ! 0, xs ! Suc 0, xs ! 2, xs ! 3] = xs"
  by (auto simp: numeral_eq_Suc length_Suc_conv)

lemma wide_round_trip:
  "in_range n 128 s \<Longrightarrow> wordsToBigInt (twosComplementWords n 2) s = n"
  "in_range n 256 s \<Longrightarrow> wordsToBigInt (twosComplementWords n 4) s = n"
  using words_round_trip [of n 2 s] words_round_trip [of n 4 s] by simp_all

definition int_json :: "scval \<Rightarrow> int \<Rightarrow> jval" where
  "int_json v n = (case v of ScvU32 _ \<Rightarrow> JUint (word_of_int n) | ScvI32 _ \<Rightarrow> JInt (word_of_int n)
     | _ \<Rightarrow> JString (itoa n))"

lemma Decode_integer: "ToBigInt v = Some n \<Longrightarrow> Decode A v = Inr (int_json v n)"
  by (cases v) (auto simp: some_or_def int_json_def)

lemma encode_integer_ok:
  assumes "(name, bits, s, enc) \<in> set int_encoders" and "parseInteger lit = Inr n" and "in_range n bits s"
  shows "\<exists>v. enc lit = Inr v \<and> ToBigInt v = Some n"
  using assms
  by (auto simp: int_encoders_def parse_in_range_cases encodeU32_def encodeI32_def encodeU64_def
      encodeI64_def encodeU128_def encodeI128_def encodeU256_def encodeI256_def
      uint_of_int_in_range sint_of_int_in_range words128_def words256_def Let_def
      list_of_two list_of_four wide_round_trip)

lemma encode_integer_error:
  assumes "(name, bits, s, enc) \<in> set int_encoders"
  shows "parse_in_range bits s name lit = Inl e \<Longrightarrow> enc lit = Inl e"
  using assms
  by (auto simp: int_encoders_def encodeU32_def encodeI32_def encodeU64_def
      encodeI64_def encodeU128_def encodeI128_def encodeU256_def encodeI256_def)

lemma int_json_encoded:
  assumes "(name, bits, s, enc) \<in> set int_encoders" and "enc lit = Inr v"
  shows "int_json v n = (if bits = 32 then if s then JInt (word_of_int n) else JUint (word_of_int n)
    else JString (itoa n))"
  using assms
  by (auto simp: int_encoders_def result_simps encodeU32_def encodeI32_def encodeU64_def
      encodeI64_def encodeU128_def encodeI128_def encodeU256_def encodeI256_def Let_def int_json_def)

section \<open>Well-formed values\<close>

text \<open>
  A value is well formed when its arm is present, all the way down, and its addresses have a
  rendering. Exactly these decode.
\<close>

definition present :: "'a option \<Rightarrow> bool" where
  "present v \<longleftrightarrow> v \<noteq> None"

function (sequential) wf_scval :: "(sc_address \<Rightarrow> string option) \<Rightarrow> scval \<Rightarrow> bool" where
  "wf_scval A ScvVoid = True"
| "wf_scval A (ScvBool v) = present v"
| "wf_scval A (ScvU32 v) = present v"
| "wf_scval A (ScvI32 v) = present v"
| "wf_scval A (ScvU64 v) = present v"
| "wf_scval A (ScvI64 v) = present v"
| "wf_scval A (ScvTimepoint v) = present v"
| "wf_scval A (ScvDuration v) = present v"
| "wf_scval A (ScvU128 v) = present v"
| "wf_scval A (ScvI128 v) = present v"
| "wf_scval A (ScvU256 v) = present v"
| "wf_scval A (ScvI256 v) = present v"
| "wf_scval A (ScvBytes v) = present v"
| "wf_scval A (ScvString v) = present v"
| "wf_scval A (ScvSymbol v) = present v"
| "wf_scval A (ScvAddress v) = (case v of None \<Rightarrow> False | Some a \<Rightarrow> present (A a))"
| "wf_scval A (ScvVec v) = (case v of None \<Rightarrow> True | Some items \<Rightarrow> (\<forall>x \<in> set items. wf_scval A x))"
| "wf_scval A (ScvMap v) =
     (case v of None \<Rightarrow> True
      | Some es \<Rightarrow> (\<forall>e \<in> set es. wf_scval A (fst e) \<and> wf_scval A (snd e)))"
| "wf_scval A (ScvError v) = present v"
| "wf_scval A ScvLedgerKeyContractInstance = True"
| "wf_scval A (ScvLedgerKeyNonce v) = present v"
| "wf_scval A (ScvContractInstance v) =
     (case v of None \<Rightarrow> False
      | Some (_, _, storage) \<Rightarrow>
          (case storage of None \<Rightarrow> True
           | Some es \<Rightarrow> (\<forall>e \<in> set es. wf_scval A (fst e) \<and> wf_scval A (snd e))))"
| "wf_scval A (ScvUnknown t) = False"
  by pat_completeness auto

termination
  by (relation "measure (\<lambda>(_, v). size v)")
    (auto simp: size_prod_simp less_Suc_eq_le dest: entry_size item_size)

lemma isOk_rbind_Inr [simp]: "isOk (rbind m (\<lambda>x. Inr (g x))) \<longleftrightarrow> isOk m"
  by (cases m) auto

lemma isOk_rbind_pair [simp]:
  "isOk (rbind m (\<lambda>k. rbind n (\<lambda>x. Inr (g k x)))) \<longleftrightarrow> isOk m \<and> isOk n"
  by (cases m; cases n) auto

lemma isOk_rmap_err [simp]: "isOk (rmap_err g m) \<longleftrightarrow> isOk m"
  by (cases m) auto

lemma isOk_rmap: "isOk (rmap_from i f xs) \<longleftrightarrow> (\<forall>k < length xs. isOk (f (i + k) (xs ! k)))"
proof
  show "isOk (rmap_from i f xs) \<Longrightarrow> \<forall>k < length xs. isOk (f (i + k) (xs ! k))"
    by (auto simp: isOk_iff rmap_from_Inr_iff)
next
  assume "\<forall>k < length xs. isOk (f (i + k) (xs ! k))"
  then have "rmap_from i f xs \<noteq> Inl e" for e
    by (auto simp: rmap_from_Inl_iff)
  then show "isOk (rmap_from i f xs)"
    by (cases "rmap_from i f xs") auto
qed

lemma isOk_some_or [simp]: "isOk (some_or name v f) \<longleftrightarrow> present v"
  by (cases v) (auto simp: some_or_def present_def)

lemma isOk_decodeError [simp]: "isOk (decodeError v) \<longleftrightarrow> present v"
  by (simp add: decodeError_def)

lemma isOk_Decode:
  "isOk (Decode A v) \<longleftrightarrow> wf_scval A v"
  "isOk (decodeMap A m) \<longleftrightarrow> wf_scval A (ScvMap m)"
  "isOk (decodeContractInstance A c) \<longleftrightarrow> wf_scval A (ScvContractInstance c)"
proof (induction A v and A m and A c rule: Decode_decodeMap_decodeContractInstance.induct)
  case (17 A v)
  then show ?case by (cases v) (simp_all add: isOk_rmap all_set_conv_all_nth)
next
  case (24 A v)
  show ?case
  proof (cases v)
    case (Some es)
    have "isOk (Decode A (fst x)) \<and> isOk (Decode A (snd x)) \<longleftrightarrow>
        wf_scval A (fst x) \<and> wf_scval A (snd x)" if x: "x \<in> set es" for x
    proof (cases "Decode A (fst x)")
      case (Inl e)
      then show ?thesis using 24(1) [OF Some x] by simp
    next
      case (Inr k)
      then show ?thesis using 24(1) [OF Some x] 24(2) [OF Some x] by simp
    qed
    then show ?thesis by (simp add: Some isOk_rmap all_set_conv_all_nth)
  qed simp
next
  case (25 A v)
  show ?case
  proof (cases v)
    case (Some t)
    obtain x w st where t: "t = (x, w, st)" by (cases t) auto
    show ?thesis
      using 25 [OF Some t [symmetric]] by (cases st) (simp_all add: Some t Let_def)
  qed simp
qed (auto simp: present_def split: option.splits)

text \<open>The entries a map decodes to, by key: a later entry of the same key replaces an earlier one.\<close>

lemma map_of_foldl_update:
  "map_of (foldl (\<lambda>out p. AList.update (k p) (v p) out) out ps) =
     map_of out ++ map_of (rev (map (\<lambda>p. (k p, v p)) ps))"
  by (induction ps arbitrary: out) (auto simp: update_conv' map_add_def fun_eq_iff split: option.splits)

lemma distinct_foldl_update:
  "distinct (map fst out) \<Longrightarrow> distinct (map fst (foldl (\<lambda>out p. AList.update (k p) (v p) out) out ps))"
  by (induction ps arbitrary: out) (auto simp: distinct_update)

lemma decodeMap_pairs:
  assumes "length ps = length es"
    and "\<And>i. i < length es \<Longrightarrow>
      Decode A (fst (es ! i)) = Inr (fst (ps ! i)) \<and> Decode A (snd (es ! i)) = Inr (snd (ps ! i))"
  shows "decodeMap A (Some es) = Inr (map_value ps)"
proof -
  have "rmap (\<lambda>i e. rbind (rmap_err (MapKeyAt i) (Decode A (fst e))) (\<lambda>k.
            rbind (rmap_err (MapValueAt i) (Decode A (snd e))) (\<lambda>x. Inr (k, x)))) es = Inr ps"
    using assms by (auto simp: rmap_from_Inr_iff)
  then show ?thesis by simp
qed

section \<open>Properties\<close>

text \<open>
  C20. Every integer encoder is exact. A literal that parses to \<open>n\<close> encodes, when \<open>n\<close> fits
  the type, to a value whose number is \<open>n\<close> and which decodes to \<open>n\<close> (a JSON number up to 32 bits,
  the decimal string beyond), and otherwise fails with the out-of-range error; a literal that
  does not parse fails with the parse error.
\<close>

theorem integer_encoders_exact:
  assumes enc: "(name, bits, s, enc) \<in> set int_encoders"
  shows "case parseInteger lit of
      Inl e \<Rightarrow> enc lit = Inl (NumError e)
    | Inr n \<Rightarrow>
        if in_range n bits s
        then \<exists>v. enc lit = Inr v \<and> ToBigInt v = Some n \<and>
          Decode A v = Inr (if bits = 32 then if s then JInt (word_of_int n) else JUint (word_of_int n)
                            else JString (itoa n))
        else enc lit = Inl (NumError (OutOfRange n name))"
proof (cases "parseInteger lit")
  case (Inl e)
  then show ?thesis using encode_integer_error [OF enc, of lit] by (simp add: parse_in_range_cases)
next
  case (Inr n)
  show ?thesis
  proof (cases "in_range n bits s")
    case True
    obtain v where v: "enc lit = Inr v" "ToBigInt v = Some n"
      using encode_integer_ok [OF enc Inr True] by blast
    then show ?thesis
      using Decode_integer [OF v(2), of A] int_json_encoded [OF enc v(1), of n] by (simp add: Inr True)
  next
    case False
    then show ?thesis
      using encode_integer_error [OF enc, of lit] by (simp add: parse_in_range_cases Inr)
  qed
qed

lemma integer_encoders_exact_witness:
  "\<exists>v. encodeI128 (itoa (- 5)) = Inr v \<and> ToBigInt v = Some (- 5) \<and>
     Decode (\<lambda>_. None) v = Inr (JString (itoa (- 5)))"
  using integer_encoders_exact [of "''i128''" 128 True encodeI128 "itoa (- 5)" "\<lambda>_. None"]
  by (simp add: int_encoders_def parseInteger_itoa in_range_def)

text \<open>
  C36. Decoding succeeds exactly on the well-formed values: every arm present all the way down,
  every type known, every address renderable; no other value is ever rejected or decoded.
\<close>

theorem decode_total_on_well_formed: "isOk (Decode A v) \<longleftrightarrow> wf_scval A v"
  by (rule isOk_Decode(1))

text \<open>
  A map decodes to a JSON object exactly when all its keys decode to strings, and then
  looking a key up in the object gives the value of the last entry with that key; otherwise it
  decodes to the list of all its entries, in order.
\<close>

theorem decode_map_entries:
  assumes "length ps = length es"
    and "\<forall>i < length es. Decode A (fst (es ! i)) = Inr (fst (ps ! i)) \<and>
      Decode A (snd (es ! i)) = Inr (snd (ps ! i))"
  shows "if list_all (\<lambda>p. is_string (fst p)) ps
    then \<exists>obj. Decode A (ScvMap (Some es)) = Inr (JObject obj) \<and> distinct (map fst obj) \<and>
      map_of obj = map_of (rev (map (\<lambda>p. (string_of (fst p), snd p)) ps))
    else Decode A (ScvMap (Some es)) =
      Inr (JList (map (\<lambda>p. JObject [(''key'', fst p), (''value'', snd p)]) ps))"
proof -
  have "Decode A (ScvMap (Some es)) = Inr (map_value ps)"
    using decodeMap_pairs [of ps es A] assms by simp
  then show ?thesis
    by (simp add: map_value_def map_of_foldl_update distinct_foldl_update)
qed

lemma decode_map_entries_witness:
  "\<exists>obj. Decode (\<lambda>_. None) (ScvMap (Some [(ScvSymbol (Some ''a''), ScvBool (Some True))])) = Inr (JObject obj) \<and>
     distinct (map fst obj) \<and> map_of obj = [''a'' \<mapsto> JBool True]"
  using decode_map_entries [of "[(JString ''a'', JBool True)]" "[(ScvSymbol (Some ''a''), ScvBool (Some True))]" "\<lambda>_. None"]
  by (simp add: some_or_def)

text \<open>
  A map with the keys u64 1 and symbol 1 decodes to an object with one member: the entry of the
  first key is lost, although its keys are distinct.
\<close>

lemma decode_map_drops_entry:
  "Decode A (ScvMap (Some [(ScvU64 (Some 1), ScvBool (Some True)), (ScvSymbol (Some ''1''), ScvBool (Some False))])) =
     Inr (JObject [(''1'', JBool False)])"
  by (simp add: some_or_def map_value_def itoa_small)

end
