(* ===== verification/Go_Json.thy ===== *)
theory Go_Json
  imports Go_Text
begin

text \<open>
  The part of Go's \<^verbatim>\<open>encoding/json\<close> the program's argument syntax uses: the validity scanner,
  reading an array into its raw elements (\<^verbatim>\<open>[]json.RawMessage\<close>), and unquoting a string
  literal. The scanner is a pushdown automaton over the text with a stack of open brackets
  (\<open>True\<close> for an array, \<open>False\<close> for an object), limited, as in Go, to 10000 levels; one step
  reads one token, so the length of the text bounds the run.
\<close>

section \<open>Tokens\<close>

definition is_json_ws :: "char \<Rightarrow> bool" where
  "is_json_ws c \<longleftrightarrow> code c = 32 \<or> code c = 9 \<or> code c = 13 \<or> code c = 10"

definition skip_ws :: "string \<Rightarrow> string" where
  "skip_ws s = dropWhile is_json_ws s"

definition is_hex :: "char \<Rightarrow> bool" where
  "is_hex c \<longleftrightarrow> hex_val c \<noteq> None"

definition is_escape :: "char \<Rightarrow> bool" where
  "is_escape e \<longleftrightarrow> e \<in> set ''bfnrt/'' \<or> e = CHR 0x22 \<or> e = CHR 0x5C"

fun scan_string :: "string \<Rightarrow> string option" where
  "scan_string [] = None"
| "scan_string (c # cs) =
     (if c = CHR 0x22 then Some cs
      else if c = CHR 0x5C then
        (case cs of
           [] \<Rightarrow> None
         | e # es \<Rightarrow>
             if is_escape e then scan_string es
             else if e = CHR ''u'' \<and> 4 \<le> length es \<and> list_all is_hex (take 4 es)
               then scan_string (drop 4 es)
             else None)
      else if code c < 32 then None
      else scan_string cs)"

definition scan_digits :: "string \<Rightarrow> string option" where
  "scan_digits s = (case s of c # cs \<Rightarrow> if is_digit c then Some (dropWhile is_digit cs) else None | [] \<Rightarrow> None)"

definition scan_int :: "string \<Rightarrow> string option" where
  "scan_int s = (case s of c # cs \<Rightarrow> if c = CHR ''0'' then Some cs else scan_digits s | [] \<Rightarrow> None)"

definition scan_frac :: "string \<Rightarrow> string option" where
  "scan_frac s = (case s of c # cs \<Rightarrow> if c = CHR ''.'' then scan_digits cs else Some s | [] \<Rightarrow> Some s)"

definition scan_exp :: "string \<Rightarrow> string option" where
  "scan_exp s =
     (case s of
        c # cs \<Rightarrow>
          if c = CHR ''e'' \<or> c = CHR ''E'' then
            (case cs of
               d # ds \<Rightarrow> if d = CHR ''+'' \<or> d = CHR ''-'' then scan_digits ds else scan_digits cs
             | [] \<Rightarrow> None)
          else Some s
      | [] \<Rightarrow> Some s)"

definition scan_number :: "string \<Rightarrow> string option" where
  "scan_number s =
     Option.bind (scan_int (trim_prefix ''-'' s)) (\<lambda>r. Option.bind (scan_frac r) scan_exp)"

definition scan_literal :: "string \<Rightarrow> string option" where
  "scan_literal s =
     (if prefix ''true'' s then Some (drop 4 s)
      else if prefix ''false'' s then Some (drop 5 s)
      else if prefix ''null'' s then Some (drop 4 s)
      else None)"

text \<open>What a token reader leaves is a proper suffix of what it was given.\<close>

lemma strict_suffix_length: "strict_suffix r s \<Longrightarrow> length r < length s"
  by (auto simp: strict_suffix_def suffix_def)

lemma strict_suffix_Cons: "suffix r cs \<Longrightarrow> strict_suffix r (c # cs)"
  by (auto simp: strict_suffix_def suffix_Cons dest: suffix_length_le)

lemma scan_string_suffix: "scan_string s = Some r \<Longrightarrow> strict_suffix r s"
proof (induction s arbitrary: r rule: length_induct)
  case (1 s)
  have IH: "strict_suffix r s" if "scan_string t = Some r" "length t < length s" "suffix t s" for t
  proof -
    have "strict_suffix r t" using 1(1) that by blast
    then show ?thesis using that(3) by (rule suffix_order.less_le_trans)
  qed
  show ?case
  proof (cases s)
    case Nil
    then show ?thesis using 1 by simp
  next
    case (Cons c cs)
    show ?thesis
    proof (cases "scan_string cs = Some r \<or> r = cs")
      case True
      then show ?thesis
      proof
        assume "scan_string cs = Some r"
        then show ?thesis by (rule IH) (simp_all add: Cons suffix_Cons)
      qed (simp add: Cons strict_suffix_Cons)
    next
      case False
      then obtain e es where cs: "cs = e # es"
        and es: "scan_string es = Some r \<or> scan_string (drop 4 es) = Some r"
        using 1(2) unfolding Cons scan_string.simps(2)
        by (auto simp del: scan_string.simps split: if_split_asm list.split_asm)
      from es show ?thesis
      proof
        assume "scan_string es = Some r"
        then show ?thesis by (rule IH) (simp_all add: Cons cs suffix_Cons)
      next
        assume "scan_string (drop 4 es) = Some r"
        then show ?thesis by (rule IH) (simp_all add: Cons cs suffix_Cons suffix_drop)
      qed
    qed
  qed
qed

lemma scan_digits_suffix: "scan_digits s = Some r \<Longrightarrow> strict_suffix r s"
  using suffix_dropWhile [of is_digit "tl s"]
  by (auto simp: scan_digits_def strict_suffix_def suffix_Cons split: list.splits if_splits dest: suffix_length_le)

lemma scan_int_suffix: "scan_int s = Some r \<Longrightarrow> strict_suffix r s"
  using scan_digits_suffix [of s r]
  by (auto simp: scan_int_def strict_suffix_def suffix_Cons split: list.splits if_splits)

lemma scan_frac_suffix: "scan_frac s = Some r \<Longrightarrow> suffix r s"
  using scan_digits_suffix [of "tl s" r]
  by (auto simp: scan_frac_def strict_suffix_def suffix_Cons split: list.splits if_splits)

lemma scan_exp_suffix: "scan_exp s = Some r \<Longrightarrow> suffix r s"
  using scan_digits_suffix [of "tl s" r] scan_digits_suffix [of "tl (tl s)" r]
  by (auto simp: scan_exp_def strict_suffix_def suffix_Cons split: list.splits if_splits)

lemma scan_number_suffix: "scan_number s = Some r \<Longrightarrow> strict_suffix r s"
proof -
  assume "scan_number s = Some r"
  then obtain a b where a: "scan_int (trim_prefix ''-'' s) = Some a" and b: "scan_frac a = Some b"
    and r: "scan_exp b = Some r"
    by (auto simp: scan_number_def Option.bind_eq_Some_conv)
  have "suffix (trim_prefix ''-'' s) s"
    by (simp add: trim_prefix_def suffix_drop)
  with scan_int_suffix [OF a] scan_frac_suffix [OF b] scan_exp_suffix [OF r] show ?thesis
    by (meson suffix_order.less_le_trans suffix_order.le_less_trans)
qed

lemma scan_literal_suffix: "scan_literal s = Some r \<Longrightarrow> strict_suffix r s"
  by (auto simp: scan_literal_def prefix_def strict_suffix_def suffix_def split: if_splits)

section \<open>The scanner\<close>

datatype jstate = WantValue | WantValueOrEnd | AfterValue | WantKey | WantKeyOrEnd | WantColon

definition scan_step :: "nat \<Rightarrow> jstate \<Rightarrow> bool list \<Rightarrow> string \<Rightarrow> (jstate \<times> bool list \<times> string) option" where
  "scan_step lim st stk s =
     (case skip_ws s of
        [] \<Rightarrow> None
      | c # cs \<Rightarrow>
          (case st of
             AfterValue \<Rightarrow>
               if c = CHR '','' then Some (if hd stk then WantValue else WantKey, stk, cs)
               else if c = (if hd stk then CHR '']'' else CHR ''}'') then Some (AfterValue, tl stk, cs)
               else None
           | WantColon \<Rightarrow> if c = CHR '':'' then Some (WantValue, stk, cs) else None
           | _ \<Rightarrow>
               if st = WantValueOrEnd \<and> c = CHR '']'' \<or> st = WantKeyOrEnd \<and> c = CHR ''}''
                 then Some (AfterValue, tl stk, cs)
               else if st = WantKey \<or> st = WantKeyOrEnd then
                 (if c = CHR 0x22 then map_option (\<lambda>r. (WantColon, stk, r)) (scan_string cs) else None)
               else if c = CHR 0x22 then map_option (\<lambda>r. (AfterValue, stk, r)) (scan_string cs)
               else if c = CHR ''['' then
                 (if lim \<le> length stk then None else Some (WantValueOrEnd, True # stk, cs))
               else if c = CHR ''{'' then
                 (if lim \<le> length stk then None else Some (WantKeyOrEnd, False # stk, cs))
               else map_option (\<lambda>r. (AfterValue, stk, r))
                 (if c = CHR ''-'' \<or> is_digit c then scan_number (c # cs) else scan_literal (c # cs))))"

lemma skip_ws_suffix: "suffix (skip_ws s) s"
  by (simp add: skip_ws_def suffix_dropWhile)

lemma scan_step_suffix: "scan_step lim st stk s = Some (st', stk', r) \<Longrightarrow> strict_suffix r s"
proof -
  assume step: "scan_step lim st stk s = Some (st', stk', r)"
  then obtain c cs where sk: "skip_ws s = c # cs"
    by (auto simp: scan_step_def split: list.splits)
  have "r = cs \<or> scan_string cs = Some r \<or> scan_number (c # cs) = Some r \<or> scan_literal (c # cs) = Some r"
    using step unfolding scan_step_def sk list.case by (auto split: jstate.splits if_splits)
  then have "strict_suffix r (c # cs)"
    using scan_string_suffix [of cs r] scan_number_suffix [of "c # cs" r] scan_literal_suffix [of "c # cs" r]
      strict_suffix_Cons [of r cs c] suffix_order.less_imp_le [of r cs]
    by blast
  then show ?thesis
    using skip_ws_suffix [of s] unfolding sk by (rule suffix_order.less_le_trans)
qed

function scan :: "nat \<Rightarrow> jstate \<Rightarrow> bool list \<Rightarrow> string \<Rightarrow> string option" where
  "scan lim st stk s =
     (if st = AfterValue \<and> stk = [] then Some s
      else case scan_step lim st stk s of
        None \<Rightarrow> None
      | Some (st', stk', r) \<Rightarrow> scan lim st' stk' r)"
  by pat_completeness auto

termination
  by (relation "measure (\<lambda>(lim, st, stk, s). length s)")
    (auto dest: scan_step_suffix strict_suffix_length)

declare scan.simps [simp del]

lemma scan_suffix: "scan lim st stk s = Some r \<Longrightarrow> suffix r s"
proof (induction lim st stk s rule: scan.induct)
  case (1 lim st stk s)
  show ?case
  proof (cases "st = AfterValue \<and> stk = []")
    case True
    then show ?thesis using 1(2) by (auto simp: scan.simps [of lim AfterValue "[]" s])
  next
    case False
    then obtain st' stk' t where step: "scan_step lim st stk s = Some (st', stk', t)"
      and "scan lim st' stk' t = Some r"
      using 1(2) by (auto simp: scan.simps [of lim st stk s] split: option.splits)
    then have "suffix r t" using 1(1) [OF False step refl refl] by simp
    then show ?thesis
      using scan_step_suffix [OF step] by (auto simp: strict_suffix_def intro: suffix_order.trans)
  qed
qed

section \<open>Arrays of raw elements\<close>

definition max_nesting :: nat where "max_nesting = 10000"

text \<open>
  The elements after the opening bracket or a comma, up to the closing bracket, which must
  end the text. An element is one level down.
\<close>

function array_items :: "string \<Rightarrow> string list option" where
  "array_items s =
     (let t = skip_ws s in
      case scan (max_nesting - 1) WantValue [] t of
        None \<Rightarrow> None
      | Some r \<Rightarrow>
          let raw = take (length t - length r) t in
          (case skip_ws r of
             [] \<Rightarrow> None
           | c # cs \<Rightarrow>
               if c = CHR '','' then map_option (\<lambda>items. raw # items) (array_items cs)
               else if c = CHR '']'' \<and> skip_ws cs = [] then Some [raw]
               else None))"
  by pat_completeness auto

lemma array_items_split:
  assumes r: "scan lim WantValue [] (skip_ws s) = Some r" and c: "skip_ws r = c # cs"
  shows "\<exists>w v. s = w @ take (length (skip_ws s) - length r) (skip_ws s) @ v @ c # cs"
proof -
  obtain w where w: "s = w @ skip_ws s" using skip_ws_suffix [of s] by (auto simp: suffix_def)
  obtain u where u: "skip_ws s = u @ r" using scan_suffix [OF r] by (auto simp: suffix_def)
  obtain v where v: "r = v @ c # cs" using skip_ws_suffix [of r] by (auto simp: c suffix_def)
  have "take (length (skip_ws s) - length r) (skip_ws s) = u" by (simp add: u)
  then show ?thesis using w u v by (metis append.assoc)
qed

lemma array_items_length:
  "scan lim WantValue [] (skip_ws s) = Some r \<Longrightarrow> skip_ws r = c # cs \<Longrightarrow> length cs < length s"
  using array_items_split [of lim s r c cs] by (metis length_append length_Cons trans_less_add2 lessI)

termination array_items
  by (relation "measure length") (simp, metis array_items_length in_measure)

declare array_items.simps [simp del]

definition json_array :: "string \<Rightarrow> string list option" where
  "json_array s =
     (case skip_ws s of
        c # cs \<Rightarrow>
          if c = CHR ''['' then
            (case skip_ws cs of
               d # ds \<Rightarrow>
                 if d = CHR '']'' then (if skip_ws ds = [] then Some [] else None) else array_items cs
             | [] \<Rightarrow> None)
          else None
      | [] \<Rightarrow> None)"

section \<open>Strings\<close>

definition utf8_encode :: "nat \<Rightarrow> string" where
  "utf8_encode n =
     (if n < 128 then [char_of n]
      else if n < 2048 then [char_of (192 + n div 64), char_of (128 + n mod 64)]
      else if n < 65536 then
        [char_of (224 + n div 4096), char_of (128 + n div 64 mod 64), char_of (128 + n mod 64)]
      else [char_of (240 + n div 262144), char_of (128 + n div 4096 mod 64),
            char_of (128 + n div 64 mod 64), char_of (128 + n mod 64)])"

definition replacement :: string where
  "replacement = [CHR 0xEF, CHR 0xBF, CHR 0xBD]"

definition cont_in :: "nat \<Rightarrow> nat \<Rightarrow> string \<Rightarrow> bool" where
  "cont_in lo hi s = (case s of c # _ \<Rightarrow> lo \<le> code c \<and> code c \<le> hi | [] \<Rightarrow> False)"

text \<open>
  The length of the well-formed UTF-8 sequence at the head of a text that starts with a byte
  of 128 or more; 0 when there is none.
\<close>

definition utf8_len :: "char \<Rightarrow> string \<Rightarrow> nat" where
  "utf8_len c s =
     (let n = code c; cont = cont_in 128 191 in
      if 194 \<le> n \<and> n \<le> 223 then (if cont s then 2 else 0)
      else if 224 \<le> n \<and> n \<le> 239 then
        (if cont_in (if n = 224 then 160 else 128) (if n = 237 then 159 else 191) s \<and> cont (drop 1 s)
         then 3 else 0)
      else if 240 \<le> n \<and> n \<le> 244 then
        (if cont_in (if n = 240 then 144 else 128) (if n = 244 then 143 else 191) s
            \<and> cont (drop 1 s) \<and> cont (drop 2 s)
         then 4 else 0)
      else 0)"

definition hex4 :: "string \<Rightarrow> nat" where
  "hex4 s = foldl (\<lambda>n c. 16 * n + (case hex_val c of Some d \<Rightarrow> d | None \<Rightarrow> 0)) 0 (take 4 s)"

definition is_surrogate :: "nat \<Rightarrow> bool" where
  "is_surrogate n \<longleftrightarrow> 55296 \<le> n \<and> n < 57344"

text \<open>The escape \<^verbatim>\<open>\\uXXXX\<close> after its mark: its UTF-8 text and what is left, pairing surrogates.\<close>

definition u_escape :: "string \<Rightarrow> string \<times> string" where
  "u_escape es =
     (let n = hex4 es; rest = drop 4 es in
      if is_surrogate n then
        (if prefix [CHR 0x5C, CHR ''u''] rest \<and> 6 \<le> length rest \<and> list_all is_hex (take 4 (drop 2 rest))
            \<and> n < 56320 \<and> 56320 \<le> hex4 (drop 2 rest) \<and> hex4 (drop 2 rest) < 57344
         then (utf8_encode ((n - 55296) * 1024 + (hex4 (drop 2 rest) - 56320) + 65536), drop 6 rest)
         else (replacement, rest))
      else (utf8_encode n, rest))"

definition simple_escape :: "char \<Rightarrow> char" where
  "simple_escape e =
     (if e = CHR ''b'' then char_of (8 :: nat) else if e = CHR ''f'' then char_of (12 :: nat)
      else if e = CHR ''n'' then char_of (10 :: nat) else if e = CHR ''r'' then char_of (13 :: nat)
      else if e = CHR ''t'' then char_of (9 :: nat) else e)"

lemma u_escape_length: "u_escape es = (t, r) \<Longrightarrow> length r \<le> length es"
  by (auto simp: u_escape_def Let_def split: if_splits)

function unescape :: "string \<Rightarrow> string" where
  "unescape s =
     (case s of
        [] \<Rightarrow> []
      | c # cs \<Rightarrow>
          if c = CHR 0x5C then
            (case cs of
               [] \<Rightarrow> []
             | e # es \<Rightarrow>
                 if e = CHR ''u'' then (case u_escape es of (t, r) \<Rightarrow> t @ unescape r)
                 else simple_escape e # unescape es)
          else if code c < 128 then c # unescape cs
          else if utf8_len c cs = 0 then replacement @ unescape cs
          else take (utf8_len c cs) s @ unescape (drop (utf8_len c cs) s))"
  by pat_completeness auto

termination
  by (relation "measure length") (auto dest: u_escape_length [OF sym])

declare unescape.simps [simp del]

text \<open>\<^verbatim>\<open>json.Unmarshal\<close> of a string literal, quotes included, into a Go string.\<close>

definition json_string :: "string \<Rightarrow> string option" where
  "json_string raw =
     (case raw of
        c # cs \<Rightarrow>
          if c = CHR 0x22 \<and> scan_string cs = Some [] then Some (unescape (butlast cs)) else None
      | [] \<Rightarrow> None)"

section \<open>ASCII content\<close>

text \<open>
  The number of ASCII bytes of a text decreases from a JSON value to the values and strings
  inside it: every level costs its quotes or brackets, and an escape never stands for more
  ASCII than it is written with. The length itself may grow, as an invalid byte becomes the
  three bytes of U+FFFD.
\<close>

definition ascii_count :: "string \<Rightarrow> nat" where
  "ascii_count s = length (filter (\<lambda>c. code c < 128) s)"

lemma ascii_count_simps [simp]:
  "ascii_count [] = 0"
  "ascii_count (c # cs) = (if code c < 128 then 1 else 0) + ascii_count cs"
  "ascii_count (xs @ ys) = ascii_count xs + ascii_count ys"
  by (simp_all add: ascii_count_def)

lemma ascii_count_sublist: "sublist x s \<Longrightarrow> ascii_count x \<le> ascii_count s"
  by (auto simp: sublist_def)

lemma ascii_count_suffix: "suffix x s \<Longrightarrow> ascii_count x \<le> ascii_count s"
  by (simp add: ascii_count_sublist suffix_imp_sublist)

lemma ascii_count_length: "ascii_count s \<le> length s"
  by (simp add: ascii_count_def)

lemma ascii_count_skip_ws: "skip_ws s = c # cs \<Longrightarrow> (if code c < 128 then 1 else 0) + ascii_count cs \<le> ascii_count s"
  using ascii_count_suffix [OF skip_ws_suffix [of s]] by simp

lemma ascii_count_array_items:
  "array_items s = Some xs \<Longrightarrow> x \<in> set xs \<Longrightarrow> ascii_count x \<le> ascii_count s"
proof (induction s arbitrary: xs rule: array_items.induct)
  case (1 s)
  let ?t = "skip_ws s"
  obtain r where r: "scan (max_nesting - 1) WantValue [] ?t = Some r"
    using 1(2) by (auto simp: array_items.simps [of s] Let_def split: option.splits)
  obtain c cs where c: "skip_ws r = c # cs"
    using 1(2) r by (auto simp: array_items.simps [of s] Let_def split: list.splits)
  obtain w v where s: "s = w @ take (length ?t - length r) ?t @ v @ c # cs"
    using array_items_split [OF r c] by blast
  have raw: "ascii_count (take (length ?t - length r) ?t) \<le> ascii_count s"
    using arg_cong [OF s, of ascii_count] by simp
  have rest: "ascii_count cs \<le> ascii_count s"
    using arg_cong [OF s, of ascii_count] by simp
  consider "x = take (length ?t - length r) ?t"
    | ys where "array_items cs = Some ys" "x \<in> set ys" "c = CHR '',''"
    using 1(2,3) r c by (auto simp: array_items.simps [of s] Let_def split: if_splits)
  then show ?case
  proof cases
    case 1
    then show ?thesis using raw by simp
  next
    case (2 ys)
    then show ?thesis using 1(1) [OF refl r refl c 2(3,1,2)] rest by simp
  qed
qed

lemma ascii_count_json_array:
  "json_array s = Some xs \<Longrightarrow> x \<in> set xs \<Longrightarrow> ascii_count x < ascii_count s"
proof -
  assume xs: "json_array s = Some xs" and x: "x \<in> set xs"
  obtain cs where c: "skip_ws s = CHR ''['' # cs" and items: "array_items cs = Some xs"
    using xs x by (auto simp: json_array_def split: list.splits if_splits)
  show ?thesis
    using ascii_count_array_items [OF items x] ascii_count_skip_ws [OF c] by (simp add: code_def)
qed

lemma code_char_of_mod: "code (char_of n) = n mod 256"
  by (simp add: code_def)

lemma utf8_encode_ascii: "ascii_count (utf8_encode n) \<le> 1"
proof -
  have "128 \<le> (128 + m mod 64) mod 256" for m :: nat
    by (subst mod_less) (use mod_less_divisor [of 64 m] in auto)
  then show ?thesis by (auto simp: utf8_encode_def code_char_of_mod)
qed

lemma u_escape_ascii: "u_escape es = (t, r) \<Longrightarrow> ascii_count t + ascii_count r \<le> ascii_count es + 1"
proof -
  assume e: "u_escape es = (t, r)"
  have "suffix r es"
    using e by (auto simp: u_escape_def Let_def suffix_drop split: if_splits)
  moreover have "ascii_count t \<le> 1"
    using e utf8_encode_ascii by (auto simp: u_escape_def Let_def replacement_def code_def split: if_splits)
  ultimately show ?thesis using ascii_count_suffix [of r es] by simp
qed

lemma unescape_ascii: "ascii_count (unescape s) \<le> ascii_count s"
proof (induction s rule: unescape.induct)
  case (1 s)
  show ?case
  proof (cases s)
    case Nil
    then show ?thesis by (simp add: unescape.simps [of "[]"])
  next
    case (Cons c cs)
    have esc: "ascii_count (unescape s) \<le> ascii_count s" if c: "c = CHR 0x5C"
    proof (cases cs)
      case Nil
      then show ?thesis using c by (simp add: unescape.simps [of "[CHR 0x5C]"] Cons)
    next
      case es: (Cons e es)
      obtain t r where tr: "u_escape es = (t, r)" by (cases "u_escape es")
      have mark: "code (CHR 0x5C) < 128" by (simp add: code_def)
      show ?thesis
      proof (cases "e = CHR ''u''")
        case True
        have "unescape s = t @ unescape r"
          by (subst unescape.simps) (simp add: Cons es c True tr)
        then show ?thesis
          using 1(1) [OF Cons c es True tr [symmetric]] u_escape_ascii [OF tr] c mark
          by (simp add: Cons es)
      next
        case False
        have "unescape s = simple_escape e # unescape es"
          by (subst unescape.simps) (simp add: Cons es c False)
        then show ?thesis
          using 1(2) [OF Cons c es False] c mark by (simp add: Cons es)
      qed
    qed
    show ?thesis
    proof (cases "c = CHR 0x5C")
      case True
      then show ?thesis by (rule esc)
    next
      case plain: False
      consider "code c < 128" | "\<not> code c < 128" "utf8_len c cs = 0" | "\<not> code c < 128" "utf8_len c cs \<noteq> 0"
        by blast
      then show ?thesis
      proof cases
        case 1
        have "unescape s = c # unescape cs"
          by (subst unescape.simps) (simp only: Cons list.case plain 1 if_False if_True)
        then show ?thesis using "1.IH"(3) [OF Cons plain 1] by (simp add: Cons)
      next
        case 2
        have "unescape s = replacement @ unescape cs"
          by (subst unescape.simps) (simp add: Cons plain 2 del: not_less)
        then show ?thesis using "1.IH"(4) [OF Cons plain 2] by (simp add: Cons replacement_def code_def)
      next
        case 3
        let ?k = "utf8_len c cs"
        have "unescape s = take ?k s @ unescape (drop ?k s)"
          by (subst unescape.simps) (simp only: Cons list.case plain 3 if_False)
        moreover have "ascii_count s = ascii_count (take ?k s) + ascii_count (drop ?k s)"
          by (metis append_take_drop_id ascii_count_simps(3))
        ultimately show ?thesis using "1.IH"(5) [OF Cons plain 3] by simp
      qed
    qed
  qed
qed

lemma json_string_ascii: "json_string raw = Some t \<Longrightarrow> ascii_count t < ascii_count raw"
proof -
  assume t: "json_string raw = Some t"
  then obtain cs where raw: "raw = CHR 0x22 # cs" and t: "t = unescape (butlast cs)"
    by (auto simp: json_string_def split: list.splits if_splits)
  have "ascii_count (butlast cs) \<le> ascii_count cs"
    by (intro ascii_count_sublist prefix_imp_sublist) (simp add: prefixeq_butlast)
  then show ?thesis using unescape_ascii [of "butlast cs"] by (simp add: raw t code_def)
qed

end
