(* ===== verification/Scval_Registry.thy ===== *)
theory Scval_Registry
  imports Scval_Codec Go_Json
begin

text \<open>
  The argument codec, \<^verbatim>\<open>internal/scval/scval.go\<close> and \<^verbatim>\<open>collections.go\<close>: the registry of encoders,
  the split of a \<^verbatim>\<open>type:value\<close> spec, inference for bare values, and the recursive encoding of
  JSON collections with its depth limit.

  A registry is an association list from lower-case names to encoders. The two collection
  encoders close over the registry in Go; here they are constructors that \<open>Encode\<close> interprets
  with the registry at hand. Every other encoder is the function registered.
\<close>

section \<open>Registries\<close>

datatype encoder =
    EncFn "string \<Rightarrow> (encode_error, scval) result"
  | EncVec
  | EncMap

type_synonym registry = "(string \<times> encoder) list"

definition Register :: "string \<Rightarrow> encoder \<Rightarrow> registry \<Rightarrow> registry" where
  "Register typeName fn r = AList.update (to_lower typeName) fn r"

definition encodeVoid :: "string \<Rightarrow> (encode_error, scval) result" where
  "encodeVoid _ = Inr ScvVoid"

definition builtins :: "strkey_lib \<Rightarrow> (string \<times> encoder) list" where
  "builtins L =
     [(''bool'', EncFn encodeBool), (''void'', EncFn encodeVoid), (''null'', EncFn encodeVoid),
      (''u32'', EncFn encodeU32), (''i32'', EncFn encodeI32), (''u64'', EncFn encodeU64),
      (''i64'', EncFn encodeI64), (''u128'', EncFn encodeU128), (''i128'', EncFn encodeI128),
      (''u256'', EncFn encodeU256), (''i256'', EncFn encodeI256),
      (''timepoint'', EncFn encodeTimepoint), (''duration'', EncFn encodeDuration),
      (''sym'', EncFn encodeSymbol), (''symbol'', EncFn encodeSymbol),
      (''str'', EncFn encodeString), (''string'', EncFn encodeString),
      (''bytes'', EncFn encodeBytes),
      (''addr'', EncFn (encodeAddress L)), (''address'', EncFn (encodeAddress L))]"

definition registerBuiltins :: "strkey_lib \<Rightarrow> registry \<Rightarrow> registry" where
  "registerBuiltins L r = foldl (\<lambda>r (name, fn). Register name fn r) r (builtins L)"

definition registerCollections :: "registry \<Rightarrow> registry" where
  "registerCollections r = Register ''map'' EncMap (Register ''vec'' EncVec r)"

definition NewRegistry :: "strkey_lib \<Rightarrow> registry" where
  "NewRegistry L = registerCollections (registerBuiltins L [])"

definition TypeNames :: "registry \<Rightarrow> string list" where
  "TypeNames r = sort (map fst r)"

definition type_char :: "char \<Rightarrow> bool" where
  "type_char c \<longleftrightarrow> is_lower c \<or> is_digit c \<or> c = CHR ''_''"

definition splitSpec :: "string \<Rightarrow> (string \<times> string) option" where
  "splitSpec spec =
     (case cut (CHR '':'') spec of (before, literal, found) \<Rightarrow>
        if \<not> found \<or> before = [] then None
        else let p = to_lower before
             in if list_all type_char p then Some (p, literal) else None)"

definition HasType :: "registry \<Rightarrow> string \<Rightarrow> bool" where
  "HasType r spec =
     ((case splitSpec spec of Some (p, _) \<Rightarrow> map_of r p \<noteq> None | None \<Rightarrow> False) \<or>
      to_lower spec = ''void'' \<or> to_lower spec = ''null'')"

section \<open>Inference\<close>

definition infer :: "strkey_lib \<Rightarrow> string \<Rightarrow> (encode_error, scval) result" where
  "infer L spec =
     (if to_lower spec = ''true'' \<or> to_lower spec = ''false'' then encodeBool spec
      else if to_lower spec = ''void'' \<or> to_lower spec = ''null'' then Inr ScvVoid
      else if IsValidEd25519PublicKey L spec \<or> IsValidContractAddress L spec
        then encodeAddress L spec
      else if isIntegerLiteral spec then encodeI128 spec
      else if isSymbolLiteral spec then encodeSymbol spec
      else encodeString spec)"

section \<open>Collections\<close>

definition maxCollectionDepth :: nat where "maxCollectionDepth = 32"

definition parseJSONArray :: "string \<Rightarrow> string \<Rightarrow> (encode_error, string list) result" where
  "parseJSONArray literal kind =
     (let s = trim_space literal in
      if \<not> prefix ''['' s then Inl (NotArray kind)
      else case json_array s of None \<Rightarrow> Inl (NotJson kind) | Some items \<Rightarrow> Inr items)"

lemma parseJSONArray_ascii:
  "parseJSONArray literal kind = Inr items \<Longrightarrow> x \<in> set items \<Longrightarrow> ascii_count x < ascii_count literal"
  using ascii_count_json_array [of "trim_space literal" items x]
    ascii_count_sublist [OF trim_space_sublist [of literal]]
  by (auto simp: parseJSONArray_def Let_def split: if_splits option.splits)

lemma cut_append: "cut sep s = (a, b, True) \<Longrightarrow> s = a @ sep # b"
  by (induction s arbitrary: a b) (auto split: if_splits prod.splits)

lemma splitSpec_ascii: "splitSpec spec = Some (p, literal) \<Longrightarrow> ascii_count literal < ascii_count spec"
  using cut_append [of "CHR '':''" spec]
  by (auto simp: splitSpec_def Let_def code_def split: prod.splits if_splits)

text \<open>
  The recursion ends because each level of nesting costs ASCII bytes: a bracket for an array,
  the quotes for a string.
\<close>

function
    Encode :: "strkey_lib \<Rightarrow> registry \<Rightarrow> string \<Rightarrow> (encode_error, scval) result"
and encodeVecAt :: "strkey_lib \<Rightarrow> registry \<Rightarrow> string \<Rightarrow> nat \<Rightarrow> (encode_error, scval) result"
and encodeMapAt :: "strkey_lib \<Rightarrow> registry \<Rightarrow> string \<Rightarrow> nat \<Rightarrow> (encode_error, scval) result"
and encodeElementAt :: "strkey_lib \<Rightarrow> registry \<Rightarrow> string \<Rightarrow> nat \<Rightarrow> (encode_error, scval) result" where
  "Encode L r spec =
     (case splitSpec spec of
        None \<Rightarrow> rmap_err (Argument spec) (infer L spec)
      | Some (p, literal) \<Rightarrow>
          (case map_of r p of
             None \<Rightarrow> rmap_err (Argument spec) (infer L spec)
           | Some (EncFn fn) \<Rightarrow> rmap_err (Argument spec) (fn literal)
           | Some EncVec \<Rightarrow> rmap_err (Argument spec) (encodeVecAt L r literal 1)
           | Some EncMap \<Rightarrow> rmap_err (Argument spec) (encodeMapAt L r literal 1)))"
| "encodeVecAt L r literal depth =
     (if maxCollectionDepth < depth then Inl TooDeep
      else rbind (parseJSONArray literal ''vec'') (\<lambda>items.
           rbind (rmap (\<lambda>i item. rmap_err (VecItem i) (encodeElementAt L r item depth)) items) (\<lambda>vec.
           Inr (ScvVec (Some vec)))))"
| "encodeMapAt L r literal depth =
     (if maxCollectionDepth < depth then Inl TooDeep
      else rbind (parseJSONArray literal ''map'') (\<lambda>items.
           rbind (rmap (\<lambda>i item.
             case json_array item of
               Some [k, v] \<Rightarrow>
                 rbind (rmap_err (MapKey i) (encodeElementAt L r k depth)) (\<lambda>key.
                 rbind (rmap_err (MapVal i) (encodeElementAt L r v depth)) (\<lambda>val.
                 Inr (key, val)))
             | _ \<Rightarrow> Inl (MapNotPair i)) items) (\<lambda>entries.
           Inr (ScvMap (Some entries)))))"
| "encodeElementAt L r raw0 depth =
     (let raw = trim_space raw0 in
      if raw = [] then Inl EmptyElement
      else if hd raw = CHR 0x22 then
        (case json_string raw of None \<Rightarrow> Inl BadStringElement | Some spec \<Rightarrow> Encode L r spec)
      else if hd raw = CHR ''['' then encodeVecAt L r raw (depth + 1)
      else if hd raw = CHR ''{'' then Inl ObjectsUnsupported
      else if raw \<noteq> ''true'' \<and> raw \<noteq> ''false'' \<and> raw \<noteq> ''null'' \<and> \<not> isIntegerLiteral raw
        then Inl (NotInteger raw)
      else Encode L r raw)"
  by pat_completeness auto

lemma json_array_pair_ascii:
  "json_array item = Some [k, v] \<Longrightarrow>
     ascii_count k < ascii_count item \<and> ascii_count v < ascii_count item"
  using ascii_count_json_array [of item "[k, v]" k] ascii_count_json_array [of item "[k, v]" v] by simp

lemma trim_space_ascii: "ascii_count (trim_space s) \<le> ascii_count s"
  by (rule ascii_count_sublist [OF trim_space_sublist])

lemma json_string_trim_ascii:
  "json_string (trim_space s) = Some t \<Longrightarrow> ascii_count t < ascii_count s"
  using json_string_ascii trim_space_ascii order.strict_trans2 by blast

termination Encode
proof (relation "measure (\<lambda>x. case x of
      Inl (Inl (_, _, s)) \<Rightarrow> 2 * ascii_count s
    | Inl (Inr (_, _, s, _)) \<Rightarrow> 2 * ascii_count s
    | Inr (Inl (_, _, s, _)) \<Rightarrow> 2 * ascii_count s
    | Inr (Inr (_, _, s, _)) \<Rightarrow> 2 * ascii_count s + 1)", goal_cases)
  case 1
  then show ?case by simp
qed (auto dest!: splitSpec_ascii parseJSONArray_ascii json_array_pair_ascii json_string_trim_ascii
    intro: le_less_trans [OF trim_space_ascii] order.strict_trans simp: trim_space_ascii le_imp_less_Suc)

declare Encode.simps [simp del] encodeVecAt.simps [simp del] encodeMapAt.simps [simp del]
  encodeElementAt.simps [simp del]

definition EncodeAll :: "strkey_lib \<Rightarrow> registry \<Rightarrow> string list \<Rightarrow> (encode_error, scval list) result" where
  "EncodeAll L r specs = rmap (\<lambda>i spec. rmap_err (ArgAt i) (Encode L r spec)) specs"

section \<open>What encoding produces\<close>

text \<open>The addresses the encoders build: 32 bytes of an account or a contract.\<close>

fun renderable :: "sc_address \<Rightarrow> string option" where
  "renderable (AddrAccount b) = (if length b = 32 then Some [] else None)"
| "renderable (AddrContract b) = (if length b = 32 then Some [] else None)"
| "renderable (AddrOther _) = None"

abbreviation encoded :: "scval \<Rightarrow> bool" where
  "encoded \<equiv> wf_scval renderable"

lemma wf_scval_mono:
  "wf_scval A v \<Longrightarrow> (\<And>a. present (A a) \<Longrightarrow> present (B a)) \<Longrightarrow> wf_scval B v"
proof (induction A v rule: wf_scval.induct)
  case (17 A v)
  then show ?case by (cases v) auto
next
  case (18 A v)
  then show ?case by (cases v) (auto simp del: split_paired_All)
next
  case (22 A v)
  then show ?case by (auto split: option.splits prod.splits simp del: split_paired_All)
qed (auto split: option.splits)

lemma length_copy32 [simp]: "length (copy32 raw) = 32"
  by (simp add: copy32_def)

lemma encodeAddress_encoded: "encodeAddress L lit = Inr v \<Longrightarrow> encoded v"
  by (auto simp: encodeAddress_def Let_def present_def split: if_splits option.splits)

lemma scalar_encoded:
  assumes "(name, EncFn fn) \<in> set (builtins L)" and "fn lit = Inr v"
  shows "encoded v"
  using assms encodeAddress_encoded [of L lit v]
  by (auto simp: builtins_def result_simps present_def encodeBool_def encodeVoid_def encodeU32_def
      encodeI32_def encodeU64_def encodeI64_def encodeU128_def encodeI128_def encodeU256_def
      encodeI256_def encodeTimepoint_def encodeDuration_def encodeSymbol_def encodeString_def
      encodeBytes_def Let_def split: option.splits if_splits)

text \<open>Registering is a map update under the lower-case name.\<close>

lemma map_of_Register: "map_of (Register name fn r) = (map_of r)(to_lower name \<mapsto> fn)"
  by (simp add: Register_def update_conv' )

lemma map_of_registerBuiltins:
  "map_of (foldl (\<lambda>r (name, fn). Register name fn r) r bs) =
     map_of r ++ map_of (rev (map (\<lambda>(name, fn). (to_lower name, fn)) bs))"
  by (induction bs arbitrary: r) (auto simp: map_of_Register)

definition sound_registry :: "registry \<Rightarrow> bool" where
  "sound_registry r \<longleftrightarrow> (\<forall>p fn lit v. map_of r p = Some (EncFn fn) \<longrightarrow> fn lit = Inr v \<longrightarrow> encoded v)"

lemma NewRegistry_mem:
  assumes "map_of (NewRegistry L) p = Some (EncFn fn)"
  shows "\<exists>name. (name, EncFn fn) \<in> set (builtins L)"
proof -
  have "map_of (rev (map (\<lambda>(name, fn). (to_lower name, fn)) (builtins L))) p = Some (EncFn fn)"
    using assms
    by (simp add: NewRegistry_def registerCollections_def registerBuiltins_def map_of_Register
        map_of_registerBuiltins split: if_splits)
  then have "(p, EncFn fn) \<in> (\<lambda>(name, fn). (to_lower name, fn)) ` set (builtins L)"
    by (auto dest: map_of_SomeD)
  then show ?thesis by auto
qed

lemma NewRegistry_sound: "sound_registry (NewRegistry L)"
  unfolding sound_registry_def using NewRegistry_mem scalar_encoded by blast

lemma infer_encoded: "infer L spec = Inr v \<Longrightarrow> encoded v"
  using encodeAddress_encoded [of L spec v]
  by (auto simp: infer_def encodeBool_def encodeI128_def encodeSymbol_def encodeString_def result_simps
      present_def Let_def split: if_splits option.splits)

lemma Encode_encoded:
  "Encode L r spec = Inr v \<Longrightarrow> sound_registry r \<Longrightarrow> encoded v"
  "encodeVecAt L r lit depth = Inr v \<Longrightarrow> sound_registry r \<Longrightarrow> encoded v"
  "encodeMapAt L r lit depth = Inr v \<Longrightarrow> sound_registry r \<Longrightarrow> encoded v"
  "encodeElementAt L r raw depth = Inr v \<Longrightarrow> sound_registry r \<Longrightarrow> encoded v"
proof (induction L r spec and L r lit depth and L r lit depth and L r raw depth arbitrary: v and v and v and v
    rule: Encode_encodeVecAt_encodeMapAt_encodeElementAt.induct)
  case (1 L r spec)
  show ?case
  proof (cases "splitSpec spec")
    case None
    then show ?thesis using 1(3) infer_encoded by (auto simp: Encode.simps result_simps)
  next
    case (Some pl)
    obtain p lit where pl: "pl = (p, lit)" by (cases pl)
    show ?thesis
    proof (cases "map_of r p")
      case None
      then show ?thesis using 1(3) Some pl infer_encoded by (auto simp: Encode.simps result_simps)
    next
      case enc: (Some e)
      show ?thesis
      proof (cases e)
        case (EncFn fn)
        then show ?thesis
          using 1(3,4) Some pl enc by (auto simp: Encode.simps result_simps sound_registry_def)
      next
        case EncVec
        then show ?thesis
          using 1(3,4) Some pl enc 1(1) [OF Some pl [symmetric] enc EncVec]
          by (auto simp: Encode.simps result_simps)
      next
        case EncMap
        then show ?thesis
          using 1(3,4) Some pl enc 1(2) [OF Some pl [symmetric] enc EncMap]
          by (auto simp: Encode.simps result_simps)
      qed
    qed
  qed
next
  case (2 L r lit depth)
  obtain items vec where items: "parseJSONArray lit ''vec'' = Inr items" and d: "\<not> maxCollectionDepth < depth"
    and vec: "rmap (\<lambda>i item. rmap_err (VecItem i) (encodeElementAt L r item depth)) items = Inr vec"
    and v: "v = ScvVec (Some vec)"
    using 2(2) by (auto simp: encodeVecAt.simps result_simps split: if_splits)
  have "encoded (vec ! k)" if "k < length vec" for k
    using that vec 2(1) [OF d items, of "items ! k"] 2(3) by (auto simp: rmap_from_Inr_iff result_simps)
  then show ?case by (auto simp: v in_set_conv_nth)
next
  case (3 L r lit depth)
  let ?f = "\<lambda>i item. case json_array item of
      Some [k, v] \<Rightarrow>
        rbind (rmap_err (MapKey i) (encodeElementAt L r k depth)) (\<lambda>key.
        rbind (rmap_err (MapVal i) (encodeElementAt L r v depth)) (\<lambda>val. Inr (key, val)))
    | _ \<Rightarrow> Inl (MapNotPair i)"
  obtain items es where items: "parseJSONArray lit ''map'' = Inr items" and d: "\<not> maxCollectionDepth < depth"
    and es: "rmap ?f items = Inr es" and v: "v = ScvMap (Some es)"
    using 3(3) by (auto simp: encodeMapAt.simps result_simps split: if_splits)
  have "encoded (fst (es ! i)) \<and> encoded (snd (es ! i))" if i: "i < length es" for i
  proof -
    have len: "i < length items" using i rmap_from_length [OF es] by simp
    then have mem: "items ! i \<in> set items" by simp
    have "?f (0 + i) (items ! i) = Inr (es ! i)"
      using es len unfolding rmap_from_Inr_iff by blast
    then have step: "?f i (items ! i) = Inr (es ! i)" by (simp only: add_0)
    obtain k x where pair: "json_array (items ! i) = Some [k, x]"
      and k: "encodeElementAt L r k depth = Inr (fst (es ! i))"
      and x: "encodeElementAt L r x depth = Inr (snd (es ! i))"
      using step by (cases "es ! i") (auto simp: result_simps split: option.splits list.splits)
    show ?thesis
      using 3(1) [OF d items mem pair refl refl refl k 3(4)] 3(2) [OF d items mem pair refl refl refl _ x 3(4)] k
      by auto
  qed
  then show ?case by (fastforce simp: v in_set_conv_nth)
next
  case (4 L r raw0 depth)
  then show ?case
    by (auto simp: encodeElementAt.simps Let_def split: if_splits option.splits)
qed

section \<open>The codec contract\<close>

text \<open>
  \<^verbatim>\<open>scval.Codec\<close> is the interface the probe layer calls. Its contract: \<open>encode_all\<close> is \<open>encode\<close>
  on every spec, reporting the first failure under its index, and what \<open>encode\<close> returns is
  well formed.
\<close>

locale codec =
  fixes encode :: "string \<Rightarrow> ('e, 'v) result"
    and encode_all :: "string list \<Rightarrow> ('e, 'v list) result"
    and well_formed :: "'v \<Rightarrow> bool"
    and at_index :: "nat \<Rightarrow> 'e \<Rightarrow> 'e"
  assumes encode_all_eq: "encode_all ss = rmap (\<lambda>i s. rmap_err (at_index i) (encode s)) ss"
    and encode_wf: "encode s = Inr v \<Longrightarrow> well_formed v"
begin

lemma all_ok:
  "encode_all ss = Inr vs \<longleftrightarrow> length vs = length ss \<and> (\<forall>k < length ss. encode (ss ! k) = Inr (vs ! k))"
  by (auto simp: encode_all_eq rmap_from_Inr_iff result_simps)

lemma all_wf: "encode_all ss = Inr vs \<Longrightarrow> v \<in> set vs \<Longrightarrow> well_formed v"
  using encode_wf by (auto simp: all_ok in_set_conv_nth)

lemma first_error:
  "encode_all ss = Inl e \<longleftrightarrow>
     (\<exists>k < length ss. \<exists>e'. encode (ss ! k) = Inl e' \<and> e = at_index k e' \<and>
        (\<forall>j < k. isOk (encode (ss ! j))))"
  by (auto simp: encode_all_eq rmap_from_Inl_iff result_simps isOk_iff)

lemma all_append_ok:
  "encode_all ss = Inr vs \<Longrightarrow> encode_all ts = Inr ws \<Longrightarrow> encode_all (ss @ ts) = Inr (vs @ ws)"
  by (auto simp: all_ok nth_append)

lemma all_length: "encode_all ss = Inr vs \<Longrightarrow> length vs = length ss"
  by (simp add: all_ok)

end

interpretation default_codec:
  codec "Encode L (NewRegistry L)" "EncodeAll L (NewRegistry L)" encoded ArgAt for L
  by unfold_locales (auto simp: EncodeAll_def intro: Encode_encoded(1) NewRegistry_sound)

section \<open>Lookups in the default registry\<close>

lemma to_lower_builtin: "(name, fn) \<in> set (builtins L) \<Longrightarrow> to_lower name = name"
  by (auto simp: builtins_def lower_byte_def is_upper_def code_def)

lemma NewRegistry_builtin:
  assumes "(name, fn) \<in> set (builtins L)" and "name \<noteq> ''vec''" and "name \<noteq> ''map''"
  shows "map_of (NewRegistry L) name = map_of (rev (builtins L)) name"
proof -
  have low: "map (\<lambda>(name, fn). (to_lower name, fn)) (builtins L) = builtins L"
    by (rule map_idI) (auto simp: to_lower_builtin)
  show ?thesis
    using assms unfolding NewRegistry_def registerCollections_def registerBuiltins_def map_of_Register
      map_of_registerBuiltins low
    by (simp add: lower_byte_def is_upper_def code_def)
qed

lemma Encode_prefixed:
  assumes "list_all type_char p" and "p \<noteq> []" and "map_of r p = Some (EncFn fn)" and "to_lower p = p"
  shows "Encode L r (p @ '':'' @ lit) = rmap_err (Argument (p @ '':'' @ lit)) (fn lit)"
proof -
  have "CHR '':'' \<notin> set p"
    using assms(1) by (auto simp: list_all_iff type_char_def is_lower_def is_digit_def code_def)
  then have "cut (CHR '':'') (p @ '':'' @ lit) = (p, lit, True)"
    using cut_present [of "CHR '':''" p lit] by simp
  then have "splitSpec (p @ '':'' @ lit) = Some (p, lit)"
    using assms by (simp add: splitSpec_def)
  then show ?thesis using assms(3) by (simp add: Encode.simps)
qed

lemma itoa_no_colon: "CHR '':'' \<notin> set (itoa n)"
  using itoa_chars [of "CHR '':''" n] by (auto simp: is_digit_def code_def)

lemma splitSpec_no_colon: "CHR '':'' \<notin> set s \<Longrightarrow> splitSpec s = None"
  by (simp add: splitSpec_def cut_absent)

lemma to_lower_itoa: "to_lower (itoa n) = itoa n"
proof -
  have "list_all (\<lambda>c. code c < 128) (itoa n)" and low: "map lower_byte (itoa n) = itoa n"
    using itoa_chars [of _ n]
    by (fastforce simp: list_all_iff is_digit_def code_def lower_byte_def is_upper_def intro!: map_idI)+
  then show ?thesis by (simp add: to_lower_ascii)
qed

lemma itoa_not_word: "c \<in> set w \<Longrightarrow> \<not> is_digit c \<Longrightarrow> c \<noteq> CHR ''-'' \<Longrightarrow> itoa n \<noteq> w"
  using itoa_chars by blast

lemma isIntegerLiteral_itoa: "isIntegerLiteral (itoa n)"
proof -
  have digits: "list_all is_digit (nat_digits k)" "nat_digits k \<noteq> []" for k
    using nat_digits_all_digits [of k] by (simp_all add: all_digits_def)
  have sign: "\<not> prefix ''-'' (nat_digits k)" "\<not> prefix ''+'' (nat_digits k)" for k
    using digits [of k] by (cases "nat_digits k"; auto simp: is_digit_def code_def)+
  show ?thesis
    by (simp add: isIntegerLiteral_def itoa_def trim_prefix_def sign digits Let_def)
qed

section \<open>Properties\<close>

text \<open>
  C19. Whatever the default codec encodes, it decodes: every argument of an accepted list, of
  any type and nesting, decodes without an error, given that account and contract addresses of
  32 bytes have a rendering.
\<close>

theorem encode_then_decode:
  assumes "\<And>b. length b = 32 \<Longrightarrow> address_string L (AddrAccount b) \<noteq> None \<and> address_string L (AddrContract b) \<noteq> None"
    and "EncodeAll L (NewRegistry L) specs = Inr vs"
  shows "length vs = length specs \<and> (\<forall>v \<in> set vs. isOk (Decode (address_string L) v))"
proof -
  have "present (address_string L a)" if "present (renderable a)" for a
    using that assms(1) by (cases a) (auto simp: present_def split: if_splits)
  then have "wf_scval (address_string L) v" if "v \<in> set vs" for v
    using default_codec.all_wf [OF assms(2) that] wf_scval_mono by blast
  then show ?thesis
    using default_codec.all_length [OF assms(2)] by (simp add: isOk_Decode)
qed

definition sample_lib :: strkey_lib where
  "sample_lib = \<lparr>IsValidEd25519PublicKey = (\<lambda>s. s = ''GA''), IsValidContractAddress = (\<lambda>s. s = ''CA''),
     decode_account = (\<lambda>s. Some (replicate 32 1)), decode_contract = (\<lambda>s. Some (replicate 32 2)),
     address_string = (\<lambda>a. case a of AddrAccount _ \<Rightarrow> Some ''GA'' | AddrContract _ \<Rightarrow> Some ''CA'' | AddrOther _ \<Rightarrow> None)\<rparr>"

lemma sample_vec: "EncodeAll sample_lib (NewRegistry sample_lib) [''vec:[true, []]''] =
    Inr [ScvVec (Some [ScvBool (Some True), ScvVec (Some [])])]"
  by code_simp

lemma encode_then_decode_witness:
  "isOk (Decode (address_string sample_lib) (ScvVec (Some [ScvBool (Some True), ScvVec (Some [])])))"
  using encode_then_decode [OF _ sample_vec] by (simp add: sample_lib_def)

text \<open>
  A list of arguments fails exactly when one of them fails, and then with the first
  failure, under its index: no argument after it is reported, none before it failed.
\<close>

theorem encode_all_first_error:
  "EncodeAll L (NewRegistry L) specs = Inl e \<longleftrightarrow>
     (\<exists>k < length specs. \<exists>e'. Encode L (NewRegistry L) (specs ! k) = Inl e' \<and> e = ArgAt k e' \<and>
        (\<forall>j < k. isOk (Encode L (NewRegistry L) (specs ! j))))"
  by (rule default_codec.first_error)

lemma sample_bad: "Encode sample_lib (NewRegistry sample_lib) ''bool:x'' =
    Inl (Argument ''bool:x'' (ExpectedBoolean ''x''))"
  by code_simp

lemma encode_all_first_error_witness:
  "EncodeAll sample_lib (NewRegistry sample_lib) [''bool:x'', ''vec:[''] =
     Inl (ArgAt 0 (Argument ''bool:x'' (ExpectedBoolean ''x'')))"
  using encode_all_first_error [of sample_lib "[''bool:x'', ''vec:['']"
    "ArgAt 0 (Argument ''bool:x'' (ExpectedBoolean ''x''))"]
  by (simp add: sample_bad)

text \<open>
  An address round-trips: a valid account or contract address given as an argument comes
  back from the decoder as the same text, given that the SDK renders the bytes it decoded.
\<close>

theorem address_round_trip:
  assumes "list_all plain_char s" and "2 \<le> length s" and "hd s \<noteq> CHR 0x22" and "hd s \<noteq> CHR 0x27"
    and "if IsValidEd25519PublicKey L s
      then decode_account L s = Some raw \<and> address_string L (AddrAccount raw) = Some s
      else IsValidContractAddress L s \<and> decode_contract L s = Some raw \<and> address_string L (AddrContract raw) = Some s"
    and "length raw = 32"
  shows "\<exists>v. Encode L (NewRegistry L) (''addr:'' @ s) = Inr v \<and> Decode (address_string L) v = Inr (JString s)"
proof -
  have "encodeAddress L s =
      Inr (ScvAddress (Some (if IsValidEd25519PublicKey L s then AddrAccount raw else AddrContract raw)))"
    using assms by (auto simp: encodeAddress_def unquote_def trim_space_all_plain copy32_def Let_def)
  moreover have "Encode L (NewRegistry L) (''addr'' @ '':'' @ s) = rmap_err (Argument (''addr'' @ '':'' @ s)) (encodeAddress L s)"
    by (rule Encode_prefixed)
      (simp_all add: type_char_def is_lower_def code_def lower_byte_def is_upper_def
        NewRegistry_builtin [where fn = "EncFn (encodeAddress L)"] builtins_def)
  ultimately show ?thesis using assms(5) by (auto split: if_splits)
qed

lemma address_round_trip_witness:
  "\<exists>v. Encode sample_lib (NewRegistry sample_lib) (''addr:'' @ ''GA'') = Inr v \<and>
     Decode (address_string sample_lib) v = Inr (JString ''GA'')"
  using address_round_trip [of "''GA''" sample_lib "replicate 32 1"]
  by (simp add: sample_lib_def plain_char_def code_def)

text \<open>
  A bare integer is an i128 of exactly its value, whatever the registry; outside the range
  of an i128 it is an error, never a narrower or a wrapped value.
\<close>

theorem bare_integer_is_i128:
  assumes "\<not> IsValidEd25519PublicKey L (itoa n)" and "\<not> IsValidContractAddress L (itoa n)"
  shows "if in_range n 128 True
    then \<exists>p. Encode L r (itoa n) = Inr (ScvI128 (Some p)) \<and> ToBigInt (ScvI128 (Some p)) = Some n
    else Encode L r (itoa n) = Inl (Argument (itoa n) (NumError (OutOfRange n ''i128'')))"
proof -
  have words: "to_lower (itoa n) \<noteq> ''true'' \<and> to_lower (itoa n) \<noteq> ''false'' \<and>
      to_lower (itoa n) \<noteq> ''void'' \<and> to_lower (itoa n) \<noteq> ''null''"
    unfolding to_lower_itoa
    using itoa_not_word [of "CHR ''e''" "''true''"] itoa_not_word [of "CHR ''e''" "''false''"]
      itoa_not_word [of "CHR ''v''" "''void''"] itoa_not_word [of "CHR ''u''" "''null''"]
    by (simp add: is_digit_def code_def)
  have "infer L (itoa n) = encodeI128 (itoa n)"
    using words assms by (simp add: infer_def isIntegerLiteral_itoa)
  then have enc: "Encode L r (itoa n) = rmap_err (Argument (itoa n)) (encodeI128 (itoa n))"
    by (simp add: Encode.simps splitSpec_no_colon [OF itoa_no_colon])
  have "(''i128'', 128, True, encodeI128) \<in> set int_encoders" by (simp add: int_encoders_def)
  from encode_integer_ok [OF this parseInteger_itoa] encode_integer_error [OF this]
  show ?thesis
    by (auto simp: enc parse_in_range_cases parseInteger_itoa encodeI128_def Let_def)
qed

lemma bare_integer_is_i128_witness:
  "\<exists>p. Encode sample_lib [] (itoa (- 7)) = Inr (ScvI128 (Some p)) \<and> ToBigInt (ScvI128 (Some p)) = Some (- 7)"
  using bare_integer_is_i128 [of sample_lib "- 7" "[]"] itoa_not_word [of "CHR ''A''" _ "- 7"]
  by (simp add: sample_lib_def in_range_def is_digit_def code_def)

text \<open>
  A bare text that names no registered type, no address, no word and no integer is never
  changed: it becomes the symbol of the same spelling when it is one, and otherwise the string
  (less one layer of quotes).
\<close>

theorem bare_text_kept:
  assumes "\<not> HasType r spec" and "\<not> IsValidEd25519PublicKey L spec" and "\<not> IsValidContractAddress L spec"
    and "to_lower spec \<noteq> ''true''" and "to_lower spec \<noteq> ''false''" and "\<not> isIntegerLiteral spec"
  shows "Encode L r spec =
    Inr (if isSymbolLiteral spec then ScvSymbol (Some spec) else ScvString (Some (unquote spec)))"
proof -
  have "unquote spec = spec \<and> length spec \<le> maxSymbolLen" if "isSymbolLiteral spec"
  proof -
    have "list_all symbol_char spec" "spec \<noteq> []" "length spec \<le> maxSymbolLen"
      using that by (auto simp: isSymbolLiteral_def split: if_splits)
    moreover have "\<not> symbol_char (CHR 0x22)" "\<not> symbol_char (CHR 0x27)"
      by (simp_all add: symbol_char_def is_lower_def is_upper_def is_digit_def code_def)
    ultimately show ?thesis
      by (cases spec) (auto simp: unquote_def)
  qed
  then have "infer L spec =
      Inr (if isSymbolLiteral spec then ScvSymbol (Some spec) else ScvString (Some (unquote spec)))"
    using assms by (auto simp: infer_def HasType_def encodeSymbol_def encodeString_def)
  moreover have "Encode L r spec = rmap_err (Argument spec) (infer L spec)"
    using assms(1) by (auto simp: Encode.simps HasType_def split: option.splits prod.splits)
  ultimately show ?thesis by simp
qed

lemma bare_text_kept_witness:
  "Encode sample_lib [] ''a b'' = Inr (ScvString (Some ''a b''))"
  using bare_text_kept [of "[]" "''a b''" sample_lib]
  by (simp add: sample_lib_def HasType_def splitSpec_def isIntegerLiteral_def isSymbolLiteral_def
      symbol_char_def is_lower_def is_upper_def is_digit_def code_def lower_byte_def trim_prefix_def unquote_def)

text \<open>The inferred sign prefix accepts two signs, which the integer parser then rejects.\<close>

lemma double_sign_fails:
  "isIntegerLiteral ''-+5'' \<and> Encode sample_lib [] ''-+5'' = Inl (Argument ''-+5'' (NumError (ExpectedBase10 ''-+5'')))"
  by code_simp

end
