(* ===== verification/Effects.thy ===== *)
theory Effects
  imports Prelude
begin

text \<open>
  Operations with effects: state passing with errors. An operation maps the state before to a
  result and the state after; \<open>ebind\<close> is Go's sequence
  \<^verbatim>\<open>x, err := m(); if err != nil { return err }\<close>, and the state changed up to the error stays
  changed. \<open>etry\<close> hands the error to the code that follows instead of returning it.

  \<open>keeps I m\<close> says that \<open>m\<close> preserves \<open>I\<close> whether it succeeds or fails; the rules of the
  collection \<open>keeps_rules\<close> reduce it to the operations \<open>m\<close> is composed of.
\<close>

type_synonym ('s, 'e, 'a) op = "'s \<Rightarrow> ('e, 'a) result \<times> 's"

definition eret :: "'a \<Rightarrow> ('s, 'e, 'a) op" where
  "eret x = (\<lambda>s. (Inr x, s))"

definition ethrow :: "'e \<Rightarrow> ('s, 'e, 'a) op" where
  "ethrow e = (\<lambda>s. (Inl e, s))"

definition elift :: "('e, 'a) result \<Rightarrow> ('s, 'e, 'a) op" where
  "elift r = (\<lambda>s. (r, s))"

definition ebind :: "('s, 'e, 'a) op \<Rightarrow> ('a \<Rightarrow> ('s, 'e, 'b) op) \<Rightarrow> ('s, 'e, 'b) op" where
  "ebind m f = (\<lambda>s. case m s of (Inl e, t) \<Rightarrow> (Inl e, t) | (Inr x, t) \<Rightarrow> f x t)"

definition etry :: "('s, 'e, 'a) op \<Rightarrow> ('s, 'f, ('e, 'a) result) op" where
  "etry m = (\<lambda>s. case m s of (r, t) \<Rightarrow> (Inr r, t))"

definition eget :: "('s \<Rightarrow> 'a) \<Rightarrow> ('s, 'e, 'a) op" where
  "eget f = (\<lambda>s. (Inr (f s), s))"

definition emodify :: "('s \<Rightarrow> 's) \<Rightarrow> ('s, 'e, unit) op" where
  "emodify f = (\<lambda>s. (Inr (), f s))"

text \<open>A loop that runs an operation for each element and returns at the first error.\<close>

fun emap :: "('a \<Rightarrow> ('s, 'e, 'b) op) \<Rightarrow> 'a list \<Rightarrow> ('s, 'e, 'b list) op" where
  "emap f [] = eret []"
| "emap f (x # xs) = ebind (f x) (\<lambda>y. ebind (emap f xs) (\<lambda>ys. eret (y # ys)))"

lemma eret_apply [simp]: "eret x s = (Inr x, s)"
  by (simp add: eret_def)

lemma ethrow_apply [simp]: "ethrow e s = (Inl e, s)"
  by (simp add: ethrow_def)

lemma elift_apply [simp]: "elift r s = (r, s)"
  by (simp add: elift_def)

lemma eget_apply [simp]: "eget f s = (Inr (f s), s)"
  by (simp add: eget_def)

lemma emodify_apply [simp]: "emodify f s = (Inr (), f s)"
  by (simp add: emodify_def)

lemma etry_apply: "etry m s = (Inr (fst (m s)), snd (m s))"
  by (simp add: etry_def split: prod.splits)

lemma ebind_apply:
  "ebind m f s = (case m s of (Inl e, t) \<Rightarrow> (Inl e, t) | (Inr x, t) \<Rightarrow> f x t)"
  by (simp add: ebind_def)

named_theorems effect_simps \<open>running an operation whose parts are known\<close>

lemma ebind_Inl [effect_simps]: "m s = (Inl e, t) \<Longrightarrow> ebind m f s = (Inl e, t)"
  by (simp add: ebind_apply)

lemma ebind_Inr [effect_simps]: "m s = (Inr x, t) \<Longrightarrow> ebind m f s = f x t"
  by (simp add: ebind_apply)

lemma etry_eq [effect_simps]: "m s = (r, t) \<Longrightarrow> etry m s = (Inr r, t)"
  by (simp add: etry_apply)

lemma ebind_eret [simp]: "ebind (eret x) f = f x"
  by (simp add: fun_eq_iff ebind_apply)

lemma ebind_ethrow [simp]: "ebind (ethrow e) f = ethrow e"
  by (simp add: fun_eq_iff ebind_apply)

lemma ebind_elift [simp]:
  "ebind (elift (Inl e)) f = ethrow e"
  "ebind (elift (Inr x)) f = f x"
  by (simp_all add: fun_eq_iff ebind_apply)

lemma ebind_eq_Inr:
  "ebind m f s = (Inr y, u) \<longleftrightarrow> (\<exists>x t. m s = (Inr x, t) \<and> f x t = (Inr y, u))"
  by (auto simp: ebind_apply split: prod.splits sum.splits)

lemma ebind_eq_Inl:
  "ebind m f s = (Inl e, u) \<longleftrightarrow>
     m s = (Inl e, u) \<or> (\<exists>x t. m s = (Inr x, t) \<and> f x t = (Inl e, u))"
  by (auto simp: ebind_apply split: prod.splits sum.splits)

lemma etry_eq_iff: "etry m s = (r', t) \<longleftrightarrow> (\<exists>r. m s = (r, t) \<and> r' = Inr r)"
  by (auto simp: etry_apply prod_eq_iff)

lemma emap_length: "emap f xs s = (Inr ys, t) \<Longrightarrow> length ys = length xs"
  by (induction xs arbitrary: ys s) (auto simp: ebind_eq_Inr)

section \<open>Invariants\<close>

definition keeps :: "('s \<Rightarrow> bool) \<Rightarrow> ('s, 'e, 'a) op \<Rightarrow> bool" where
  "keeps I m \<longleftrightarrow> (\<forall>s. I s \<longrightarrow> I (snd (m s)))"

named_theorems keeps_rules \<open>preservation of an invariant by composed operations\<close>

lemma keepsD: "keeps I m \<Longrightarrow> I s \<Longrightarrow> m s = (r, t) \<Longrightarrow> I t"
  by (metis keeps_def snd_conv)

lemma keeps_basic [keeps_rules, simp]:
  "keeps I (eret x)" "keeps I (ethrow e)" "keeps I (elift r)" "keeps I (eget f)"
  by (simp_all add: keeps_def)

lemma keeps_ebind [keeps_rules]:
  "keeps I m \<Longrightarrow> (\<And>x. keeps I (f x)) \<Longrightarrow> keeps I (ebind m f)"
  unfolding keeps_def by (force simp: ebind_apply split: prod.split sum.split)

lemma keeps_etry [keeps_rules]: "keeps I m \<Longrightarrow> keeps I (etry m)"
  by (simp add: keeps_def etry_apply)

lemma keeps_emodify: "(\<And>s. I s \<Longrightarrow> I (f s)) \<Longrightarrow> keeps I (emodify f)"
  by (simp add: keeps_def)

lemma keeps_emap [keeps_rules]: "(\<And>x. x \<in> set xs \<Longrightarrow> keeps I (f x)) \<Longrightarrow> keeps I (emap f xs)"
  by (induction xs) (auto intro!: keeps_ebind)

lemma keeps_if [keeps_rules]: "(b \<Longrightarrow> keeps I m) \<Longrightarrow> (\<not> b \<Longrightarrow> keeps I n) \<Longrightarrow> keeps I (if b then m else n)"
  by simp

lemma keeps_case_option [keeps_rules]:
  "(v = None \<Longrightarrow> keeps I m) \<Longrightarrow> (\<And>x. v = Some x \<Longrightarrow> keeps I (f x)) \<Longrightarrow>
     keeps I (case v of None \<Rightarrow> m | Some x \<Rightarrow> f x)"
  by (cases v) auto

lemma keeps_case_sum [keeps_rules]:
  "(\<And>e. v = Inl e \<Longrightarrow> keeps I (g e)) \<Longrightarrow> (\<And>x. v = Inr x \<Longrightarrow> keeps I (f x)) \<Longrightarrow>
     keeps I (case v of Inl e \<Rightarrow> g e | Inr x \<Rightarrow> f x)"
  by (cases v) auto

lemma keeps_case_prod [keeps_rules]:
  "(\<And>a b. v = (a, b) \<Longrightarrow> keeps I (f a b)) \<Longrightarrow> keeps I (case v of (a, b) \<Rightarrow> f a b)"
  by (cases v) auto

lemma keeps_case_list [keeps_rules]:
  "(v = [] \<Longrightarrow> keeps I m) \<Longrightarrow> (\<And>x xs. v = x # xs \<Longrightarrow> keeps I (f x xs)) \<Longrightarrow>
     keeps I (case v of [] \<Rightarrow> m | x # xs \<Rightarrow> f x xs)"
  by (cases v) auto

section \<open>Results\<close>

text \<open>\<open>yields Q m\<close>: whatever \<open>m\<close> returns, from any state, satisfies \<open>Q\<close>.\<close>

definition yields :: "('a \<Rightarrow> bool) \<Rightarrow> ('s, 'e, 'a) op \<Rightarrow> bool" where
  "yields Q m \<longleftrightarrow> (\<forall>s x t. m s = (Inr x, t) \<longrightarrow> Q x)"

named_theorems yields_rules \<open>results of composed operations\<close>

lemma yieldsD: "yields Q m \<Longrightarrow> m s = (Inr x, t) \<Longrightarrow> Q x"
  by (auto simp: yields_def)

lemma yields_eret [yields_rules]: "Q x \<Longrightarrow> yields Q (eret x)"
  by (simp add: yields_def)

lemma yields_ethrow [yields_rules]: "yields Q (ethrow e)"
  by (simp add: yields_def)

lemma yields_elift [yields_rules]: "(\<And>x. r = Inr x \<Longrightarrow> Q x) \<Longrightarrow> yields Q (elift r)"
  by (simp add: yields_def)

lemma yields_ebind: "yields P m \<Longrightarrow> (\<And>x. P x \<Longrightarrow> yields Q (f x)) \<Longrightarrow> yields Q (ebind m f)"
  unfolding yields_def ebind_eq_Inr by blast

lemma yields_ebind' [yields_rules]: "(\<And>x. yields Q (f x)) \<Longrightarrow> yields Q (ebind m f)"
  unfolding yields_def ebind_eq_Inr by blast

lemma yields_if [yields_rules]: "(b \<Longrightarrow> yields Q m) \<Longrightarrow> (\<not> b \<Longrightarrow> yields Q n) \<Longrightarrow> yields Q (if b then m else n)"
  by simp

lemma yields_case_option [yields_rules]:
  "(v = None \<Longrightarrow> yields Q m) \<Longrightarrow> (\<And>x. v = Some x \<Longrightarrow> yields Q (f x)) \<Longrightarrow>
     yields Q (case v of None \<Rightarrow> m | Some x \<Rightarrow> f x)"
  by (cases v) auto

lemma yields_case_sum [yields_rules]:
  "(\<And>e. v = Inl e \<Longrightarrow> yields Q (g e)) \<Longrightarrow> (\<And>x. v = Inr x \<Longrightarrow> yields Q (f x)) \<Longrightarrow>
     yields Q (case v of Inl e \<Rightarrow> g e | Inr x \<Rightarrow> f x)"
  by (cases v) auto

lemma yields_case_prod [yields_rules]:
  "(\<And>a b. v = (a, b) \<Longrightarrow> yields Q (f a b)) \<Longrightarrow> yields Q (case v of (a, b) \<Rightarrow> f a b)"
  by (cases v) auto

lemma yields_case_list [yields_rules]:
  "(v = [] \<Longrightarrow> yields Q m) \<Longrightarrow> (\<And>x xs. v = x # xs \<Longrightarrow> yields Q (f x xs)) \<Longrightarrow>
     yields Q (case v of [] \<Rightarrow> m | x # xs \<Rightarrow> f x xs)"
  by (cases v) auto

lemma yields_mono: "yields P m \<Longrightarrow> (\<And>x. P x \<Longrightarrow> Q x) \<Longrightarrow> yields Q m"
  by (auto simp: yields_def)

lemma yields_emap: "(\<And>x. x \<in> set xs \<Longrightarrow> yields Q (f x)) \<Longrightarrow> yields (\<lambda>ys. \<forall>y \<in> set ys. Q y) (emap f xs)"
proof (induction xs)
  case (Cons x xs)
  have fx: "yields Q (f x)" and fxs: "yields (\<lambda>ys. \<forall>y \<in> set ys. Q y) (emap f xs)"
    using Cons by simp_all
  show ?case
    unfolding emap.simps
    by (rule yields_ebind [OF fx], rule yields_ebind [OF fxs], rule yields_eret) simp
qed (simp add: yields_def)

section \<open>Invariants with results\<close>

text \<open>
  \<open>ensures I Q m\<close>: from a state with \<open>I\<close>, \<open>m\<close> leaves a state with \<open>I\<close>, and a value it returns
  satisfies \<open>Q\<close>. It is needed where a result is read out of the state.
\<close>

definition ensures :: "('s \<Rightarrow> bool) \<Rightarrow> ('a \<Rightarrow> bool) \<Rightarrow> ('s, 'e, 'a) op \<Rightarrow> bool" where
  "ensures I Q m \<longleftrightarrow> (\<forall>s r t. I s \<longrightarrow> m s = (r, t) \<longrightarrow> I t \<and> (\<forall>x. r = Inr x \<longrightarrow> Q x))"

named_theorems ensures_rules \<open>invariants and results of composed operations\<close>

lemma ensuresD:
  assumes "ensures I Q m" and "I s" and "m s = (r, t)"
  shows "I t" and "r = Inr x \<Longrightarrow> Q x"
  using assms by (auto simp: ensures_def)

lemma ensures_keeps_yields: "keeps I m \<Longrightarrow> yields Q m \<Longrightarrow> ensures I Q m"
  by (auto simp: ensures_def keeps_def yields_def)

lemma ensures_keeps: "keeps I m \<Longrightarrow> ensures I (\<lambda>_. True) m"
  by (auto simp: ensures_def keeps_def)

lemma ensures_eret [ensures_rules]: "Q x \<Longrightarrow> ensures I Q (eret x)"
  by (simp add: ensures_def)

lemma ensures_ethrow [ensures_rules]: "ensures I Q (ethrow e)"
  by (simp add: ensures_def)

lemma ensures_elift [ensures_rules]: "(\<And>x. r = Inr x \<Longrightarrow> Q x) \<Longrightarrow> ensures I Q (elift r)"
  by (simp add: ensures_def)

lemma ensures_eget: "(\<And>s. I s \<Longrightarrow> Q (f s)) \<Longrightarrow> ensures I Q (eget f)"
  by (simp add: ensures_def)

lemma ensures_emodify: "(\<And>s. I s \<Longrightarrow> I (f s)) \<Longrightarrow> ensures I (\<lambda>_. True) (emodify f)"
  by (simp add: ensures_def)

lemma ensures_ebind: "ensures I P m \<Longrightarrow> (\<And>x. P x \<Longrightarrow> ensures I Q (f x)) \<Longrightarrow> ensures I Q (ebind m f)"
proof -
  assume m: "ensures I P m" and f: "\<And>x. P x \<Longrightarrow> ensures I Q (f x)"
  show ?thesis
    unfolding ensures_def
  proof (intro allI impI)
    fix s r t
    assume "I s" and run: "ebind m f s = (r, t)"
    obtain r' u where u: "m s = (r', u)" by fastforce
    note mid = ensuresD [OF m \<open>I s\<close> u]
    show "I t \<and> (\<forall>x. r = Inr x \<longrightarrow> Q x)"
    proof (cases r')
      case (Inl e)
      then show ?thesis using run u mid(1) by (auto simp: ebind_apply)
    next
      case (Inr x)
      then have "f x u = (r, t)" using run u by (simp add: ebind_apply)
      then show ?thesis using ensuresD [OF f [OF mid(2) [OF Inr]] mid(1)] by blast
    qed
  qed
qed

lemma ensures_if [ensures_rules]:
  "(b \<Longrightarrow> ensures I Q m) \<Longrightarrow> (\<not> b \<Longrightarrow> ensures I Q n) \<Longrightarrow> ensures I Q (if b then m else n)"
  by simp

lemma ensures_case_option [ensures_rules]:
  "(v = None \<Longrightarrow> ensures I Q m) \<Longrightarrow> (\<And>x. v = Some x \<Longrightarrow> ensures I Q (f x)) \<Longrightarrow>
     ensures I Q (case v of None \<Rightarrow> m | Some x \<Rightarrow> f x)"
  by (cases v) auto

lemma ensures_mono: "ensures I P m \<Longrightarrow> (\<And>x. P x \<Longrightarrow> Q x) \<Longrightarrow> ensures I Q m"
  by (auto simp: ensures_def)

end
