(* ===== verification/Network.thy ===== *)
theory Network
  imports Effects Scval_Registry Cost
begin

text \<open>
  The boundary of the probe layer: the Stellar RPC client of \<^verbatim>\<open>internal/stellar/client.go\<close>, ledger
  keys of \<^verbatim>\<open>internal/stellar/keys.go\<close>, the transaction envelopes of \<^verbatim>\<open>tx.go\<close>, and the prober
  with its mutable parts, \<^verbatim>\<open>internal/probe/probe.go\<close>.

  The client is a record of operations on a world of any type \<open>'w\<close>: each call may change the
  world, fail, and return anything. \<open>CtxErr\<close> is \<^verbatim>\<open>ctx.Err()\<close> and \<open>Now\<close> is \<^verbatim>\<open>time.Now()\<close>. The XDR
  and transaction code of the SDK is the record \<open>sdk_lib\<close>.
\<close>

section \<open>Errors of the probe layer\<close>

datatype abi_error =
    UnknownContract
  | NoWasm
  | NoSuchFunction string "string list"
  | ArgumentCount string nat nat
  | BadArgument string abi_error
  | NotJsonArray string
  | NotJsonPairs string
  | ItemAt nat abi_error
  | KeyAt nat abi_error
  | ValueAt nat abi_error
  | NotAPair nat
  | InvalidModule
  | InvalidSectionLength
  | InvalidSectionName
  | NoSpecSection string
  | TruncatedLEB
  | OverflowLEB
  | BadSpecEntry
  | RegistryError string

datatype batch_error =
    NoChecks
  | TooManyChecks nat
  | NoContract nat
  | InvalidTimeout string string
  | NegativeTimeout string duration
  | UnknownDurability string durability
  | DuplicateName nat nat string
  | NegativeConcurrency int

datatype error =
    RpcError string
  | CtxError string
  | InvalidContractID string
  | ContractIDLength string nat
  | EncodeKeyError
  | EntryDataError
  | NotContractData string
  | NotContractInstance
  | CodecError encode_error
  | StorageError decode_error
  | EmptySource
  | EmptyFunction
  | TransactionError
  | ExtensionFailed string
  | ExtensionNoData
  | TransactionDataError
  | RestoreDataError
  | ReturnValueXdrError
  | ReturnValueError decode_error
  | FunctionRequired
  | BaselineMismatch baseline_error
  | AbiError abi_error
  | NoSimulation
  | EmptyBatch
  | InvalidBatch batch_error
  | TimedOut duration
  | ClientRequired
  | RpcUnreachable string
  | RpcUnhealthy string
  | WrongNetwork string string
  | NilDereference

section \<open>Ledger keys and the SDK\<close>

datatype ledger_key =
    KeyContractData sc_address scval durability
  | KeyContractCode "u8 list"
  | KeyAccount string
  | KeyTrustline
  | KeyTtl
  | KeyOther string

record ledger_footprint =
  lf_ReadOnly :: "ledger_key list"
  lf_ReadWrite :: "ledger_key list"

record transaction_data =
  td_Instructions :: u32
  td_DiskReadBytes :: u32
  td_WriteBytes :: u32
  td_ResourceFee :: i64
  td_Footprint :: ledger_footprint

datatype entry_data =
    EntryContractData scval
  | EntryContractCode "u8 list"
  | EntryOther string

datatype host_operation =
    InvokeContract sc_address string "scval list"
  | ExtendFootprintTtl u32 ledger_footprint

text \<open>Authorization entries and diagnostic events, as the SDK decodes them.\<close>

datatype auth_function =
    AuthContractFn "(sc_address \<times> string \<times> scval list) option"
  | AuthCreateContract
  | AuthCreateContractV2
  | AuthFunctionOther string

datatype auth_invocation = AuthInvocation (auth_Function: auth_function) (auth_Subs: "auth_invocation list")

datatype auth_credentials =
    CredentialsSourceAccount
  | CredentialsAddress "sc_address option"
  | CredentialsAddressV2 "sc_address option"
  | CredentialsWithDelegates "sc_address option"
  | CredentialsOther

record auth_entry_xdr =
  ax_Credentials :: auth_credentials
  ax_RootInvocation :: auth_invocation

record diagnostic_event =
  de_Type :: string
  de_InSuccessfulContractCall :: bool
  de_ContractId :: "u8 list option"
  de_Body :: "(scval list \<times> scval) option"

text \<open>
  \<open>build_tx source op\<close> is the base64 envelope of an unsigned transaction with one operation,
  the sequence number, fee and time bounds fixed; the other fields are the XDR codecs.
\<close>

record sdk_lib =
  strkeys :: strkey_lib
  marshal_key :: "ledger_key \<Rightarrow> string option"
  unmarshal_entry :: "string \<Rightarrow> entry_data option"
  unmarshal_transaction :: "string \<Rightarrow> transaction_data option"
  unmarshal_scval :: "string \<Rightarrow> scval option"
  marshal_scval :: "scval \<Rightarrow> u8 list option"
  unmarshal_auth :: "string \<Rightarrow> auth_entry_xdr option"
  unmarshal_event :: "string \<Rightarrow> diagnostic_event option"
  build_tx :: "string \<Rightarrow> host_operation \<Rightarrow> string option"

definition ParseContractID :: "strkey_lib \<Rightarrow> string \<Rightarrow> (error, sc_address) result" where
  "ParseContractID L contractID =
     (case decode_contract L contractID of
        None \<Rightarrow> Inl (InvalidContractID contractID)
      | Some raw \<Rightarrow>
          if length raw \<noteq> 32 then Inl (ContractIDLength contractID (length raw))
          else Inr (AddrContract (copy32 raw)))"

definition InstanceKey :: "sc_address \<Rightarrow> ledger_key" where
  "InstanceKey contract = KeyContractData contract ScvLedgerKeyContractInstance DurabilityPersistent"

definition CodeKey :: "u8 list \<Rightarrow> ledger_key" where
  "CodeKey hash = KeyContractCode hash"

definition DataKey :: "sc_address \<Rightarrow> scval \<Rightarrow> durability \<Rightarrow> ledger_key" where
  "DataKey contract key d = KeyContractData contract key d"

definition EncodeKey :: "sdk_lib \<Rightarrow> ledger_key \<Rightarrow> (error, string) result" where
  "EncodeKey S key = (case marshal_key S key of None \<Rightarrow> Inl EncodeKeyError | Some s \<Rightarrow> Inr s)"

definition DecodeEntryData :: "sdk_lib \<Rightarrow> string \<Rightarrow> (error, entry_data) result" where
  "DecodeEntryData S b64 =
     (case unmarshal_entry S b64 of None \<Rightarrow> Inl EntryDataError | Some d \<Rightarrow> Inr d)"

definition BuildInvocationTx ::
    "sdk_lib \<Rightarrow> string \<Rightarrow> sc_address \<Rightarrow> string \<Rightarrow> scval list \<Rightarrow> (error, string) result" where
  "BuildInvocationTx S source contract function' args =
     (if source = [] then Inl EmptySource
      else if function' = [] then Inl EmptyFunction
      else case build_tx S source (InvokeContract contract function' args) of
             None \<Rightarrow> Inl TransactionError
           | Some envelope \<Rightarrow> Inr envelope)"

definition BuildExtendFootprintTx ::
    "sdk_lib \<Rightarrow> string \<Rightarrow> ledger_key \<Rightarrow> u32 \<Rightarrow> (error, string) result" where
  "BuildExtendFootprintTx S source key extendTo =
     (if source = [] then Inl EmptySource
      else case build_tx S source
               (ExtendFootprintTtl extendTo \<lparr>lf_ReadOnly = [key], lf_ReadWrite = []\<rparr>) of
             None \<Rightarrow> Inl TransactionError
           | Some envelope \<Rightarrow> Inr envelope)"

section \<open>The RPC client\<close>

record ledger_entry =
  le_KeyXDR :: string
  le_DataXDR :: string
  le_LiveUntil :: "u32 option"

record entries_response =
  er_Entries :: "ledger_entry list"
  er_LatestLedger :: u32

record ledger_info =
  li_Sequence :: u32
  li_LedgerCloseTime :: i64

record restore_preamble =
  rp_TransactionDataXDR :: string
  rp_MinResourceFee :: i64

record host_result =
  hr_ReturnValueXDR :: "string option"
  hr_AuthXDR :: "string list option"

record simulate_response =
  sr_Error :: string
  sr_TransactionDataXDR :: string
  sr_MinResourceFee :: i64
  sr_RestorePreamble :: "restore_preamble option"
  sr_Results :: "host_result list"
  sr_EventsXDR :: "string list"
  sr_LatestLedger :: u32

type_synonym ('w, 'a) call = "'w \<Rightarrow> (string, 'a) result \<times> 'w"

record 'w client =
  SimulateTransaction :: "string \<Rightarrow> ('w, simulate_response) call"
  GetLedgerEntries :: "string list \<Rightarrow> ('w, entries_response) call"
  GetLatestLedger :: "('w, u32) call"
  GetLedgers :: "u32 \<Rightarrow> nat \<Rightarrow> ('w, ledger_info list) call"
  GetNetwork :: "('w, string) call"
  GetHealth :: "('w, string) call"
  CtxErr :: "'w \<Rightarrow> string option \<times> 'w"
  Now :: "'w \<Rightarrow> instant \<times> 'w"

section \<open>The codec interface\<close>

record codec_impl =
  cd_Encode :: "string \<Rightarrow> (encode_error, scval) result"
  cd_EncodeAll :: "string list \<Rightarrow> (encode_error, scval list) result"
  cd_Decode :: "scval \<Rightarrow> (decode_error, jval) result"
  cd_HasType :: "(string \<Rightarrow> bool) option"

definition registry_codec :: "strkey_lib \<Rightarrow> registry \<Rightarrow> codec_impl" where
  "registry_codec L r = \<lparr>cd_Encode = Encode L r, cd_EncodeAll = EncodeAll L r,
     cd_Decode = Decode (address_string L), cd_HasType = Some (HasType r)\<rparr>"

end
