(* ===== verification/Json_Write.thy ===== *)
theory Json_Write
  imports Go_Json
begin

text \<open>
  The writing half of \<^verbatim>\<open>encoding/json\<close> the program uses: \<^verbatim>\<open>json.Marshal\<close> of a string and of a
  list of strings, with the lemmas that reading gives back what was written.
\<close>

section \<open>Writing strings and arrays of strings\<close>

text \<open>
  \<^verbatim>\<open>json.Marshal\<close> of a string: quotes, backslashes and control characters are escaped, and so
  are the HTML characters, the separators U+2028 and U+2029, and bytes that are no UTF-8 (as
  U+FFFD).
\<close>

definition hex2 :: "nat \<Rightarrow> string" where
  "hex2 n = [hex_digit (n div 16), hex_digit (n mod 16)]"

definition escape_ascii :: "char \<Rightarrow> string" where
  "escape_ascii c =
     (if c = CHR 0x22 \<or> c = CHR 0x5C then [CHR 0x5C, c]
      else if code c = 8 then [CHR 0x5C, CHR ''b'']
      else if code c = 12 then [CHR 0x5C, CHR ''f'']
      else if code c = 10 then [CHR 0x5C, CHR ''n'']
      else if code c = 13 then [CHR 0x5C, CHR ''r'']
      else if code c = 9 then [CHR 0x5C, CHR ''t'']
      else if code c < 32 \<or> c = CHR ''<'' \<or> c = CHR ''>'' \<or> c = CHR ''&''
        then [CHR 0x5C, CHR ''u'', CHR ''0'', CHR ''0''] @ hex2 (code c)
      else [c])"

function json_escape :: "string \<Rightarrow> string" where
  "json_escape s =
     (case s of
        [] \<Rightarrow> []
      | c # cs \<Rightarrow>
          if code c < 128 then escape_ascii c @ json_escape cs
          else if utf8_len c cs = 0 then [CHR 0x5C] @ ''ufffd'' @ json_escape cs
          else if c = CHR 0xE2 \<and> prefix [CHR 0x80, CHR 0xA8] cs
            then [CHR 0x5C] @ ''u2028'' @ json_escape (drop 2 cs)
          else if c = CHR 0xE2 \<and> prefix [CHR 0x80, CHR 0xA9] cs
            then [CHR 0x5C] @ ''u2029'' @ json_escape (drop 2 cs)
          else take (utf8_len c cs) s @ json_escape (drop (utf8_len c cs) s))"
  by pat_completeness auto

termination
  by (relation "measure length") auto

declare json_escape.simps [simp del]

definition json_quote :: "string \<Rightarrow> string" where
  "json_quote s = [CHR 0x22] @ json_escape s @ [CHR 0x22]"

definition json_strings :: "string list \<Rightarrow> string" where
  "json_strings ss = ''['' @ join '','' (map json_quote ss) @ '']''"

text \<open>Reading back what was written, for ASCII texts.\<close>

definition ascii :: "string \<Rightarrow> bool" where
  "ascii s \<longleftrightarrow> list_all (\<lambda>c. code c < 128) s"

lemma json_escape_Nil [simp]: "json_escape [] = []"
  by (simp add: json_escape.simps)

lemma json_escape_Cons: "code c < 128 \<Longrightarrow> json_escape (c # cs) = escape_ascii c @ json_escape cs"
  by (subst json_escape.simps) simp

lemma char_of_code_eq: "code c = n \<Longrightarrow> char_of n = c"
  by (auto simp: code_def)

lemma hex_digit_low: "n < 128 \<Longrightarrow> hex_val (hex_digit (n div 16)) = Some (n div 16) \<and>
    hex_val (hex_digit (n mod 16)) = Some (n mod 16)"
  by (auto intro!: hex_val_digit)

lemma scan_string_escape_ascii:
  assumes "code c < 128"
  shows "scan_string (escape_ascii c @ rest) = scan_string rest"
proof (cases "code c < 32 \<or> c = CHR ''<'' \<or> c = CHR ''>'' \<or> c = CHR ''&''")
  case True
  then have "c \<noteq> CHR 0x22" "c \<noteq> CHR 0x5C" by (auto simp: code_def)
  then show ?thesis
    using True hex_digit_low [OF assms]
    by (auto simp: escape_ascii_def is_escape_def hex2_def is_hex_def hex_val_def is_digit_def code_def)
next
  case False
  then show ?thesis by (auto simp: escape_ascii_def is_escape_def)
qed

lemma unescape_mark:
  "unescape (CHR 0x5C # e # es) =
     (if e = CHR ''u'' then (case u_escape es of (t, r) \<Rightarrow> t @ unescape r)
      else simple_escape e # unescape es)"
  by (subst unescape.simps) simp

lemma unescape_plain: "code c < 128 \<Longrightarrow> c \<noteq> CHR 0x5C \<Longrightarrow> unescape (c # cs) = c # unescape cs"
  by (subst unescape.simps) simp

lemma char_of_code [simp]: "char_of (code c) = c"
  by (simp add: code_def)

lemma u_escape_hex2:
  assumes "n < 128"
  shows "u_escape (CHR ''0'' # CHR ''0'' # hex2 n @ rest) = ([char_of n], rest)"
proof -
  have "hex_val (CHR ''0'') = Some 0" by (simp add: hex_val_def is_digit_def code_def)
  then have "hex4 (CHR ''0'' # CHR ''0'' # hex2 n @ rest) = 16 * (n div 16) + n mod 16"
    using hex_digit_low [OF assms] by (simp add: hex4_def hex2_def)
  then show ?thesis
    using assms by (simp add: u_escape_def is_surrogate_def utf8_encode_def hex2_def)
qed

lemma unescape_escape_ascii:
  assumes "code c < 128"
  shows "unescape (escape_ascii c @ rest) = c # unescape rest"
proof -
  let ?u = "code c < 32 \<or> c = CHR ''<'' \<or> c = CHR ''>'' \<or> c = CHR ''&''"
  show ?thesis
  proof (cases "c = CHR 0x22 \<or> c = CHR 0x5C")
    case True
    then show ?thesis
      by (elim disjE; simp add: escape_ascii_def unescape_mark simple_escape_def)
  next
    case q: False
    show ?thesis
    proof (cases "code c = 8 \<or> code c = 12 \<or> code c = 10 \<or> code c = 13 \<or> code c = 9")
      case True
      then have "escape_ascii c = [CHR 0x5C, if code c = 8 then CHR ''b'' else if code c = 12 then CHR ''f''
          else if code c = 10 then CHR ''n'' else if code c = 13 then CHR ''r'' else CHR ''t'']"
        using q by (auto simp: escape_ascii_def)
      then show ?thesis
        using True by (auto simp: unescape_mark simple_escape_def char_of_code_eq)
    next
      case ctl: False
      show ?thesis
      proof (cases ?u)
        case True
        then have "escape_ascii c = CHR 0x5C # CHR ''u'' # CHR ''0'' # CHR ''0'' # hex2 (code c)"
          using q ctl by (simp add: escape_ascii_def)
        then show ?thesis
          using u_escape_hex2 [OF assms, of rest] by (simp add: unescape_mark)
      next
        case False
        then show ?thesis using q ctl unescape_plain [OF assms] by (simp add: escape_ascii_def)
      qed
    qed
  qed
qed

lemma scan_string_escape: "ascii s \<Longrightarrow> scan_string (json_escape s @ rest) = scan_string rest"
  by (induction s) (auto simp: ascii_def json_escape_Cons scan_string_escape_ascii)

lemma unescape_escape: "ascii s \<Longrightarrow> unescape (json_escape s) = s"
  by (induction s) (auto simp: ascii_def json_escape_Cons unescape_escape_ascii unescape.simps [of "[]"])

lemma json_string_quote: "ascii s \<Longrightarrow> json_string (json_quote s) = Some s"
  using scan_string_escape [of s "[CHR 0x22]"]
  by (simp add: json_string_def json_quote_def unescape_escape butlast_append)

lemma scan_quote:
  "ascii s \<Longrightarrow> scan lim WantValue [] (json_quote s @ rest) = Some rest"
  using scan_string_escape [of s "CHR 0x22 # rest"]
  by (simp add: scan.simps [of lim WantValue] scan.simps [of lim AfterValue] scan_step_def json_quote_def
      skip_ws_def is_json_ws_def code_def)

lemma skip_ws_quote [simp]: "skip_ws (json_quote s @ r) = json_quote s @ r"
  by (simp add: json_quote_def skip_ws_def is_json_ws_def code_def)

lemma skip_ws_mark [simp]:
  "skip_ws (CHR '','' # r) = CHR '','' # r" "skip_ws (CHR '']'' # r) = CHR '']'' # r"
  "skip_ws (CHR ''['' # r) = CHR ''['' # r" "skip_ws [] = []"
  by (simp_all add: skip_ws_def is_json_ws_def code_def)

lemma array_items_step:
  assumes "ascii s"
  shows "array_items (json_quote s @ CHR '','' # r) = map_option (\<lambda>items. json_quote s # items) (array_items r)"
    and "array_items (json_quote s @ '']'') = Some [json_quote s]"
  by (subst array_items.simps; simp add: scan_quote [OF assms] Let_def)+

lemma array_items_quotes:
  "list_all ascii ss \<Longrightarrow> ss \<noteq> [] \<Longrightarrow>
     array_items (join '','' (map json_quote ss) @ '']'') = Some (map json_quote ss)"
proof (induction ss)
  case (Cons s ss)
  then show ?case
    by (cases ss) (simp_all add: array_items_step)
qed simp

lemma json_array_strings:
  assumes "list_all ascii ss"
  shows "json_array (json_strings ss) = Some (map json_quote ss)"
proof (cases ss)
  case Nil
  then show ?thesis by (simp add: json_array_def json_strings_def)
next
  case (Cons s ts)
  have "skip_ws (join '','' (map json_quote ss) @ '']'') = join '','' (map json_quote ss) @ '']''"
    "hd (join '','' (map json_quote ss) @ '']'') = CHR 0x22" "join '','' (map json_quote ss) @ '']'' \<noteq> []"
    by (cases ts; simp add: Cons; simp add: json_quote_def)+
  then show ?thesis
    using array_items_quotes [OF assms] Cons
    by (cases "join '','' (map json_quote ss) @ '']''") (auto simp: json_array_def json_strings_def)
qed

end
