(* ===== verification/Contract_Abi.thy ===== *)
theory Contract_Abi
  imports Network Json_Write "HOL-Library.Multiset"
begin

text \<open>
  Contract interfaces, \<^verbatim>\<open>internal/abi/abi.go\<close>: lookup of a function, its signature, and the
  typing of arguments from the declared inputs (\<open>Annotate\<close>). A type is a tree; the typing of a
  literal recurses on it.
\<close>

section \<open>Interfaces\<close>

datatype abi_type = AbiType
  (Kind: string)
  (Display: string)
  (Inner: "abi_type option")
  (Element: "abi_type option")
  (KeyType: "abi_type option")
  (ValueType: "abi_type option")

record param =
  pa_Name :: string
  pa_Type :: abi_type

record abi_function =
  fn_Name :: string
  fn_Doc :: string
  fn_Inputs :: "param list"
  fn_Outputs :: "abi_type list"

type_synonym abi_interface = "abi_function list"

definition Lookup :: "abi_interface \<Rightarrow> string \<Rightarrow> (abi_error, abi_function) result" where
  "Lookup i name =
     (case find (\<lambda>f. fn_Name f = name) i of
        Some f \<Rightarrow> Inr f
      | None \<Rightarrow> Inl (NoSuchFunction name (sort (map fn_Name i))))"

definition Signature :: "abi_function \<Rightarrow> string" where
  "Signature f =
     ''fn '' @ fn_Name f @ ''('' @
     join '', '' (map (\<lambda>p. pa_Name p @ '': '' @ Display (pa_Type p)) (fn_Inputs f)) @ '')'' @
     (case fn_Outputs f of [] \<Rightarrow> [] | out # _ \<Rightarrow> '' -> '' @ Display out)"

definition prefixes :: "(string \<times> string) list" where
  "prefixes =
     [(''bool'', ''bool''), (''void'', ''void''), (''u32'', ''u32''), (''i32'', ''i32''),
      (''u64'', ''u64''), (''i64'', ''i64''), (''u128'', ''u128''), (''i128'', ''i128''),
      (''u256'', ''u256''), (''i256'', ''i256''), (''timepoint'', ''timepoint''),
      (''duration'', ''duration''), (''bytes'', ''bytes''), (''bytes_n'', ''bytes''),
      (''string'', ''string''), (''symbol'', ''symbol''), (''address'', ''address'')]"

section \<open>Typing arguments\<close>

definition encodeCollection :: "string \<Rightarrow> string list \<Rightarrow> string" where
  "encodeCollection kind specs = kind @ '':'' @ json_strings specs"

text \<open>\<^verbatim>\<open>json.Unmarshal\<close> into a \<^verbatim>\<open>[][]json.RawMessage\<close>: every item an array, or null.\<close>

definition json_rows :: "string \<Rightarrow> string list list option" where
  "json_rows literal =
     (case json_array literal of
        None \<Rightarrow> None
      | Some items \<Rightarrow>
          (case rmap (\<lambda>_ item. if item = ''null'' then Inr []
               else case json_array item of None \<Rightarrow> Inl () | Some row \<Rightarrow> Inr row) items of
             Inl _ \<Rightarrow> None
           | Inr rows \<Rightarrow> Some rows))"

definition pairs_text :: "(string \<times> string) list \<Rightarrow> string" where
  "pairs_text ps = ''['' @ join '','' (map (\<lambda>(k, v). json_strings [k, v]) ps) @ '']''"

text \<open>The literal an element stands for: the text of a string, and the raw JSON otherwise.\<close>

definition element_literal :: "string \<Rightarrow> (abi_error, string) result" where
  "element_literal raw =
     (let literal = trim_space raw in
      if prefix [CHR 0x22] literal
      then (case json_string raw of None \<Rightarrow> Inl (NotJsonArray raw) | Some s \<Rightarrow> Inr s)
      else Inr literal)"

function (sequential)
    spec :: "(string \<Rightarrow> bool) \<Rightarrow> abi_type \<Rightarrow> string \<Rightarrow> (abi_error, string) result"
and element :: "(string \<Rightarrow> bool) \<Rightarrow> abi_type option \<Rightarrow> string \<Rightarrow> (abi_error, string) result" where
  "spec hasType t literal =
     (if hasType literal then Inr literal
      else if Kind t = ''option'' then
        (if to_lower literal = ''void'' \<or> to_lower literal = ''null'' then Inr (''void:'' @ literal)
         else case Inner t of None \<Rightarrow> Inr literal | Some inner \<Rightarrow> spec hasType inner literal)
      else if Kind t = ''vec'' then
        (if \<not> prefix ''['' (trim_space literal) then Inr literal
         else case json_array literal of
             None \<Rightarrow> Inl (NotJsonArray (Display t))
           | Some items \<Rightarrow>
               rbind (rmap (\<lambda>i item. rmap_err (ItemAt i) (element hasType (Element t) item)) items)
                 (\<lambda>specs. Inr (encodeCollection ''vec'' specs)))
      else if Kind t = ''map'' then
        (if \<not> prefix ''['' (trim_space literal) then Inr literal
         else case json_rows literal of
             None \<Rightarrow> Inl (NotJsonPairs (Display t))
           | Some rows \<Rightarrow>
               rbind (rmap (\<lambda>i row. case row of
                   [k, v] \<Rightarrow>
                     rbind (rmap_err (KeyAt i) (element hasType (KeyType t) k)) (\<lambda>k'.
                     rbind (rmap_err (ValueAt i) (element hasType (ValueType t) v)) (\<lambda>v'.
                     Inr (k', v')))
                 | _ \<Rightarrow> Inl (NotAPair i)) rows)
                 (\<lambda>ps. Inr (''map:'' @ pairs_text ps)))
      else case map_of prefixes (Kind t) of
          Some p \<Rightarrow> Inr (p @ '':'' @ literal)
        | None \<Rightarrow> Inr literal)"
| "element hasType None raw =
     rbind (element_literal raw) (\<lambda>literal.
       if prefix ''['' literal then Inr (''vec:'' @ literal) else Inr literal)"
| "element hasType (Some t) raw =
     rbind (element_literal raw) (\<lambda>literal.
     rbind (spec hasType t literal) (\<lambda>s.
       if prefix ''['' s then Inr (''vec:'' @ s) else Inr s))"
  by pat_completeness auto

lemma abi_size [termination_simp]:
  "Inner t = Some u \<Longrightarrow> size u < size t"
  "size_option size (Element t) < size t"
  "size_option size (KeyType t) < size t"
  "size_option size (ValueType t) < size t"
  by (cases t; auto)+

termination spec
  by (relation "measure (\<lambda>x. case x of Inl (_, t, _) \<Rightarrow> 2 * size t
        | Inr (_, t, _) \<Rightarrow> 2 * size_option size t)")
    (auto simp: termination_simp)

declare spec.simps [simp del] element.simps [simp del]

definition Annotate ::
    "abi_function \<Rightarrow> string list \<Rightarrow> (string \<Rightarrow> bool) \<Rightarrow> (abi_error, string list) result" where
  "Annotate fn args hasType =
     (if length args \<noteq> length (fn_Inputs fn)
      then Inl (ArgumentCount (Signature fn) (length (fn_Inputs fn)) (length args))
      else rmap (\<lambda>i arg. rmap_err (BadArgument (pa_Name (fn_Inputs fn ! i)))
             (spec hasType (pa_Type (fn_Inputs fn ! i)) arg)) args)"

text \<open>\<^verbatim>\<open>abi.NetworkName\<close> of \<^verbatim>\<open>sorovault.go\<close>.\<close>

definition NetworkName :: "string \<Rightarrow> string" where
  "NetworkName passphrase =
     (if passphrase = ''Public Global Stellar Network ; September 2015'' then ''public''
      else if passphrase = ''Test SDF Network ; September 2015'' then ''testnet''
      else if passphrase = ''Test SDF Future Network ; October 2022'' then ''futurenet''
      else passphrase)"

section \<open>Lemmas\<close>

lemma spec_explicit: "hasType literal \<Longrightarrow> spec hasType t literal = Inr literal"
  by (simp add: spec.simps)

lemma spec_scalar:
  "\<not> hasType literal \<Longrightarrow> map_of prefixes (Kind t) = Some p \<Longrightarrow> spec hasType t literal = Inr (p @ '':'' @ literal)"
  by (auto simp: spec.simps prefixes_def split: if_splits)

lemma Annotate_Inr_iff:
  "Annotate fn args hasType = Inr specs \<longleftrightarrow>
     length args = length (fn_Inputs fn) \<and> length specs = length args \<and>
     (\<forall>i < length args. spec hasType (pa_Type (fn_Inputs fn ! i)) (args ! i) = Inr (specs ! i))"
  by (auto simp: Annotate_def rmap_from_Inr_iff result_simps)

text \<open>The written form of a list of specs is what the codec reads as a vec.\<close>

lemma NewRegistry_vec: "map_of (NewRegistry L) ''vec'' = Some EncVec"
  by (simp add: NewRegistry_def registerCollections_def map_of_Register lower_byte_def is_upper_def code_def)

lemma trim_json_strings [simp]: "trim_space (json_strings ss) = json_strings ss"
  by (rule trim_space_plain) (simp_all add: json_strings_def plain_char_def code_def)

lemma trim_json_quote [simp]: "trim_space (json_quote s) = json_quote s"
  by (rule trim_space_plain) (simp_all add: json_quote_def plain_char_def code_def)

lemma encode_quoted_element:
  "ascii s \<Longrightarrow> encodeElementAt L r (json_quote s) depth = Encode L r s"
  using json_string_quote [of s]
  by (subst encodeElementAt.simps) (simp add: Let_def, simp add: json_quote_def)

lemma encode_vec_of_specs:
  assumes "list_all ascii specs" and "list_all2 (\<lambda>s v. Encode L (NewRegistry L) s = Inr v) specs vs"
  shows "Encode L (NewRegistry L) (encodeCollection ''vec'' specs) = Inr (ScvVec (Some vs))"
proof -
  have "parseJSONArray (json_strings specs) ''vec'' = Inr (map json_quote specs)"
    using json_array_strings [OF assms(1)] by (simp add: parseJSONArray_def) (simp add: json_strings_def)
  moreover have "rmap (\<lambda>i item. rmap_err (VecItem i) (encodeElementAt L (NewRegistry L) item 1)) (map json_quote specs) = Inr vs"
    using assms by (auto simp: rmap_from_Inr_iff list_all2_conv_all_nth encode_quoted_element list_all_length result_simps)
  ultimately have vec: "encodeVecAt L (NewRegistry L) (json_strings specs) 1 = Inr (ScvVec (Some vs))"
    by (simp add: encodeVecAt.simps maxCollectionDepth_def)
  have "splitSpec (encodeCollection ''vec'' specs) = Some (''vec'', json_strings specs)"
    by (simp add: splitSpec_def encodeCollection_def lower_byte_def is_upper_def type_char_def is_lower_def code_def)
  then show ?thesis using vec by (simp add: Encode.simps NewRegistry_vec)
qed

lemma ascii_append [simp]: "ascii (a @ b) \<longleftrightarrow> ascii a \<and> ascii b"
  by (simp add: ascii_def)

lemma ascii_Cons [simp]: "ascii (c # s) \<longleftrightarrow> code c < 128 \<and> ascii s"
  by (simp add: ascii_def)

lemma ascii_prefixes: "map_of prefixes k = Some p \<Longrightarrow> ascii (p @ '':'') \<and> \<not> prefix ''['' (p @ r) \<and> p \<noteq> []"
  by (auto simp: prefixes_def ascii_def code_def split: if_splits)

lemma element_scalar:
  assumes "map_of prefixes (Kind e) = Some p" and "\<not> hasType x" and "trim_space x = x" and "\<not> prefix [CHR 0x22] x"
  shows "element hasType (Some e) x = Inr (p @ '':'' @ x)"
  using assms ascii_prefixes [OF assms(1), of "'':'' @ x"]
  by (simp add: element.simps element_literal_def spec_scalar)

section \<open>Properties\<close>

text \<open>
  Typing never touches what the caller typed: an argument that names its type comes back
  unchanged at its position, whatever the function declares; the number of arguments is that
  of the declared inputs.
\<close>

theorem annotate_keeps_explicit:
  assumes "Annotate fn args hasType = Inr specs"
  shows "length specs = length (fn_Inputs fn) \<and> length specs = length args \<and>
    (\<forall>i < length args. hasType (args ! i) \<longrightarrow> specs ! i = args ! i)"
  using assms by (auto simp: Annotate_Inr_iff spec_explicit)

lemma annotate_keeps_explicit_witness:
  "length [''u32:5''] = length [\<lparr>pa_Name = ''n'', pa_Type = AbiType ''i128'' ''i128'' None None None None\<rparr>] \<and>
     [''u32:5''] ! 0 = ''u32:5''"
  using annotate_keeps_explicit [of "\<lparr>fn_Name = ''f'', fn_Doc = [],
      fn_Inputs = [\<lparr>pa_Name = ''n'', pa_Type = AbiType ''i128'' ''i128'' None None None None\<rparr>], fn_Outputs = []\<rparr>"
      "[''u32:5'']" "\<lambda>s. s = ''u32:5''" "[''u32:5'']"]
  by (simp add: Annotate_def spec_explicit)



text \<open>
  A lookup is definite: it returns the first function of that name, and fails only when
  the interface has none, listing exactly the names it has, sorted.
\<close>

theorem lookup_definite:
  "case Lookup i name of
     Inr f \<Rightarrow> f \<in> set i \<and> fn_Name f = name
   | Inl e \<Rightarrow> name \<notin> fn_Name ` set i \<and>
       (\<exists>names. e = NoSuchFunction name names \<and> sorted names \<and> mset names = mset (map fn_Name i))"
  by (auto simp: Lookup_def find_None_iff find_Some_iff split: option.splits)

end
