(* ===== verification/Wasm_Spec.thy ===== *)
theory Wasm_Spec
  imports Contract_Abi
begin

unbundle bit_operations_syntax

text \<open>
  Reading a contract interface from deployed Wasm code, \<^verbatim>\<open>internal/abi/chain.go\<close>: LEB128 sizes,
  the search for a custom section and the decoding of the spec entries (the XDR reader is a
  parameter). The source that fetches the code and keeps what it read is in \<open>Abi_Sources\<close>.

  Positions are indices into the module. A slice or an index out of range panics in Go; here it
  is the outcome \<open>None\<close> of \<open>slice\<close> or \<open>nth_opt\<close>, which the properties show is never reached.
\<close>

definition slice :: "u8 list \<Rightarrow> nat \<Rightarrow> nat \<Rightarrow> u8 list option" where
  "slice data lo hi = (if lo \<le> hi \<and> hi \<le> length data then Some (take (hi - lo) (drop lo data)) else None)"

datatype wasm_error = WasmError abi_error | IndexPanic

section \<open>LEB128\<close>

fun readULEB_loop :: "nat list \<Rightarrow> u32 \<Rightarrow> u8 list \<Rightarrow> nat \<Rightarrow> (abi_error, u32 \<times> nat) result" where
  "readULEB_loop [] v data pos = Inl OverflowLEB"
| "readULEB_loop (shift # shifts) v data pos =
     (if length data \<le> pos then Inl TruncatedLEB
      else let b = data ! pos in
        if shift = 28 \<and> b AND 0xf0 \<noteq> 0 then Inl OverflowLEB
        else let v' = v OR push_bit shift (ucast (b AND 0x7f)) in
          if b AND 0x80 = 0 then Inr (v', pos + 1)
          else readULEB_loop shifts v' data (pos + 1))"

definition readULEB :: "u8 list \<Rightarrow> nat \<Rightarrow> (abi_error, u32 \<times> nat) result" where
  "readULEB data pos = readULEB_loop [0, 7, 14, 21, 28] 0 data pos"

lemma readULEB_loop_pos: "readULEB_loop sh v data pos = Inr (n, pos') \<Longrightarrow> pos < pos' \<and> pos' \<le> length data"
  by (induction sh v data pos rule: readULEB_loop.induct) (fastforce simp: Let_def split: if_splits)+

lemma readULEB_pos: "readULEB data pos = Inr (n, pos') \<Longrightarrow> pos < pos' \<and> pos' \<le> length data"
  unfolding readULEB_def by (rule readULEB_loop_pos)

section \<open>Custom sections\<close>

definition magic :: "u8 list" where
  "magic = [0x00, 0x61, 0x73, 0x6d]"

definition contractSpecSection :: "u8 list" where
  "contractSpecSection = map (\<lambda>c. of_nat (code c)) ''contractspecv0''"

text \<open>One section: its end, and the content when it is the custom section wanted.\<close>

definition read_section ::
    "u8 list \<Rightarrow> u8 list \<Rightarrow> nat \<Rightarrow> (wasm_error, nat \<times> u8 list option) result" where
  "read_section wasm wanted pos =
     (let sectionID = wasm ! pos in
      case readULEB wasm (pos + 1) of
        Inl _ \<Rightarrow> Inl (WasmError InvalidSectionLength)
      | Inr (sectionSize, p1) \<Rightarrow>
          if int (length wasm) - int p1 < uint sectionSize then Inl (WasmError InvalidSectionLength)
          else let sectionEnd = p1 + unat sectionSize in
            if sectionID \<noteq> 0 then Inr (sectionEnd, None)
            else case slice wasm 0 sectionEnd of
                None \<Rightarrow> Inl IndexPanic
              | Some front \<Rightarrow>
                  (case readULEB front p1 of
                     Inl _ \<Rightarrow> Inl (WasmError InvalidSectionName)
                   | Inr (nameLength, p2) \<Rightarrow>
                       if int sectionEnd - int p2 < uint nameLength then Inl (WasmError InvalidSectionName)
                       else let nameEnd = p2 + unat nameLength in
                         (case slice wasm p2 nameEnd of
                            None \<Rightarrow> Inl IndexPanic
                          | Some name \<Rightarrow>
                              if name = wanted
                              then (case slice wasm nameEnd sectionEnd of
                                      None \<Rightarrow> Inl IndexPanic
                                    | Some content \<Rightarrow> Inr (sectionEnd, Some content))
                              else Inr (sectionEnd, None))))"

lemma read_section_advances: "read_section wasm wanted pos = Inr (pos', r) \<Longrightarrow> pos < pos'"
  by (auto simp: read_section_def Let_def dest!: readULEB_pos split: sum.splits if_splits option.splits)

function sections_loop :: "u8 list \<Rightarrow> u8 list \<Rightarrow> nat \<Rightarrow> (wasm_error, u8 list) result" where
  "sections_loop wasm wanted pos =
     (if length wasm \<le> pos then Inl (WasmError (NoSpecSection (map (\<lambda>b. char_of (unat b)) wanted)))
      else case read_section wasm wanted pos of
          Inl e \<Rightarrow> Inl e
        | Inr (_, Some content) \<Rightarrow> Inr content
        | Inr (pos', None) \<Rightarrow> sections_loop wasm wanted pos')"
  by pat_completeness auto

termination
  by (relation "measure (\<lambda>(wasm, _, pos). length wasm - pos)") (auto dest: read_section_advances)

declare sections_loop.simps [simp del]

definition customSection :: "u8 list \<Rightarrow> u8 list \<Rightarrow> (wasm_error, u8 list) result" where
  "customSection wasm wanted =
     (if length wasm < 8 \<or> take 4 wasm \<noteq> magic then Inl (WasmError InvalidModule)
      else sections_loop wasm wanted 8)"

section \<open>Types\<close>

text \<open>The spec types of the XDR; a type the program has no name for carries the SDK's.\<close>

datatype spec_type =
    SpecOption spec_type
  | SpecVec spec_type
  | SpecMap spec_type spec_type
  | SpecResult
  | SpecTuple
  | SpecBytesN
  | SpecUdt string
  | SpecVal | SpecBool | SpecVoid | SpecError | SpecU32 | SpecI32 | SpecU64 | SpecI64
  | SpecTimepoint | SpecDuration | SpecU128 | SpecI128 | SpecU256 | SpecI256
  | SpecBytes | SpecString | SpecSymbol | SpecAddress | SpecMuxedAddress
  | SpecOther string

fun scalar_name :: "spec_type \<Rightarrow> string" where
  "scalar_name SpecVal = ''val''"
| "scalar_name SpecBool = ''bool''"
| "scalar_name SpecVoid = ''void''"
| "scalar_name SpecError = ''error''"
| "scalar_name SpecU32 = ''u32''"
| "scalar_name SpecI32 = ''i32''"
| "scalar_name SpecU64 = ''u64''"
| "scalar_name SpecI64 = ''i64''"
| "scalar_name SpecTimepoint = ''timepoint''"
| "scalar_name SpecDuration = ''duration''"
| "scalar_name SpecU128 = ''u128''"
| "scalar_name SpecI128 = ''i128''"
| "scalar_name SpecU256 = ''u256''"
| "scalar_name SpecI256 = ''i256''"
| "scalar_name SpecBytes = ''bytes''"
| "scalar_name SpecString = ''string''"
| "scalar_name SpecSymbol = ''symbol''"
| "scalar_name SpecAddress = ''address''"
| "scalar_name SpecMuxedAddress = ''address''"
| "scalar_name (SpecOther s) = s"
| "scalar_name _ = []"

fun specType :: "spec_type \<Rightarrow> abi_type" where
  "specType (SpecOption v) =
     (let inner = specType v
      in AbiType ''option'' (''Option<'' @ Display inner @ ''>'') (Some inner) None None None)"
| "specType (SpecVec e) =
     (let element = specType e
      in AbiType ''vec'' (''Vec<'' @ Display element @ ''>'') None (Some element) None None)"
| "specType (SpecMap k v) =
     (let key = specType k; val = specType v
      in AbiType ''map'' (''Map<'' @ Display key @ '', '' @ Display val @ ''>'') None None (Some key) (Some val))"
| "specType SpecResult = AbiType ''result'' ''Result'' None None None None"
| "specType SpecTuple = AbiType ''tuple'' ''Tuple'' None None None None"
| "specType SpecBytesN = AbiType ''bytes_n'' ''BytesN'' None None None None"
| "specType (SpecUdt name) = AbiType ''udt'' name None None None None"
| "specType t = AbiType (scalar_name t) (scalar_name t) None None None None"

record spec_function =
  sf_Name :: string
  sf_Doc :: string
  sf_Inputs :: "(string \<times> spec_type) list"
  sf_Outputs :: "spec_type list"

datatype spec_entry = SpecFunction spec_function | SpecOtherEntry

definition function_of :: "spec_function \<Rightarrow> abi_function" where
  "function_of f = \<lparr>fn_Name = sf_Name f, fn_Doc = sf_Doc f,
     fn_Inputs = map (\<lambda>(n, t). \<lparr>pa_Name = n, pa_Type = specType t\<rparr>) (sf_Inputs f),
     fn_Outputs = map specType (sf_Outputs f)\<rparr>"

text \<open>
  The loop over the section. The reader \<open>un\<close> is the SDK's and consumes what it reads; the loop
  runs on fuel, the length of the section, which is enough for a reader that always consumes.
\<close>

fun spec_loop :: "(u8 list \<Rightarrow> (spec_entry \<times> u8 list) option) \<Rightarrow> nat \<Rightarrow> u8 list \<Rightarrow>
    (wasm_error, abi_interface) result option" where
  "spec_loop un fuel [] = Some (Inr [])"
| "spec_loop un 0 (b # bs) = None"
| "spec_loop un (Suc fuel) (b # bs) =
     (case un (b # bs) of
        None \<Rightarrow> Some (Inl (WasmError BadSpecEntry))
      | Some (entry, rest) \<Rightarrow>
          (case spec_loop un fuel rest of
             Some (Inr fs) \<Rightarrow>
               Some (Inr (case entry of SpecFunction f \<Rightarrow> function_of f # fs | SpecOtherEntry \<Rightarrow> fs))
           | other \<Rightarrow> other))"

definition decodeContractWasm :: "(u8 list \<Rightarrow> (spec_entry \<times> u8 list) option) \<Rightarrow> u8 list \<Rightarrow>
    (wasm_error, abi_interface) result option" where
  "decodeContractWasm un wasm =
     (case customSection wasm contractSpecSection of
        Inl e \<Rightarrow> Some (Inl e)
      | Inr section' \<Rightarrow> spec_loop un (length section') section')"

section \<open>Lemmas\<close>

lemma spec_loop_enough:
  assumes "\<And>bs e rest. un bs = Some (e, rest) \<Longrightarrow> length rest < length bs" and "length bs \<le> fuel"
  shows "spec_loop un fuel bs \<noteq> None"
  using assms
proof (induction un fuel bs rule: spec_loop.induct)
  case (3 un fuel b bs)
  have "spec_loop un fuel rest \<noteq> None" if "un (b # bs) = Some (e, rest)" for e rest
    using 3(1) [OF that refl 3(2)] 3(3) 3(2) [OF that] by simp
  then show ?case by (auto split: option.splits sum.splits)
qed auto

text \<open>The canonical unsigned LEB128 encoding of a number.\<close>

fun uleb :: "nat \<Rightarrow> u8 list" where
  "uleb n = (if n < 128 then [of_nat n] else of_nat (128 + n mod 128) # uleb (n div 128))"

declare uleb.simps [simp del]


lemma low7: "unat ((b :: u8) AND 0x7f) = unat b mod 128"
proof -
  have "b AND 0x7f = take_bit 7 b" by (simp add: take_bit_eq_mask mask_eq_exp_minus_1)
  then have "unat (b AND 0x7f) = take_bit 7 (unat b)" by (simp only: unsigned_take_bit_eq)
  then show ?thesis by (simp add: take_bit_eq_mod)
qed

lemma more_bit: "(b :: u8) AND 0x80 = 0 \<longleftrightarrow> unat b < 128"
proof -
  have "b AND 2 ^ 7 = 0 \<longleftrightarrow> \<not> bit b 7" by (rule and_exp_eq_0_iff_not_bit)
  also have "\<dots> \<longleftrightarrow> \<not> odd (unat b div 2 ^ 7)"
    using bit_iff_odd [of "unat b" 7] by (simp add: bit_unsigned_iff)
  also have "\<dots> \<longleftrightarrow> unat b < 128"
  proof -
    have "unat b < 256" using unsigned_less [of b, where 'a = nat] by simp
    then have "unat b div 128 = (if unat b < 128 then 0 else 1)" by auto
    then show ?thesis by simp
  qed
  finally show ?thesis by simp
qed

lemma high4: "unat (b :: u8) < 16 \<Longrightarrow> b AND 0xf0 = 0"
proof -
  assume "unat b < 16"
  then have "take_bit 4 b = b"
    unfolding word_unat_eq_iff unsigned_take_bit_eq by (intro take_bit_nat_eq_self) simp
  then have "b = b AND mask 4" by (simp add: take_bit_eq_mask)
  then have "b AND 0xf0 = b AND (mask 4 AND 0xf0)" by (metis and.assoc)
  also have "mask 4 AND (0xf0 :: u8) = 0" by (simp add: mask_eq_exp_minus_1)
  finally show ?thesis by simp
qed

lemma or_shift_add:
  assumes "uint (v :: u32) < 2 ^ k"
  shows "v OR push_bit k w = v + push_bit k w"
proof -
  have v: "take_bit k v = v"
    unfolding word_uint_eq_iff unsigned_take_bit_eq using assms by (intro take_bit_int_eq_self) simp_all
  have "v AND push_bit k w = 0"
  proof (rule bit_eqI)
    fix n
    have "bit v n \<Longrightarrow> n < k" by (subst (asm) v [symmetric]) (simp add: bit_take_bit_iff)
    then show "bit (v AND push_bit k w) n \<longleftrightarrow> bit 0 n"
      by (auto simp: bit_and_iff bit_push_bit_iff)
  qed
  then show ?thesis by (rule disjunctive_add_eq_or [symmetric])
qed

lemma uint_add_small: "uint (v :: u32) + int m < 2 ^ 32 \<Longrightarrow> uint (v + of_nat m) = uint v + int m"
proof -
  assume small: "uint v + int m < 2 ^ 32"
  have "uint (of_nat m :: u32) = int m mod 2 ^ 32"
    by (simp add: unsigned_of_nat take_bit_eq_mod of_nat_mod)
  then have "uint (v + of_nat m) = (uint v + int m) mod 2 ^ 32"
    by (simp add: uint_word_ariths(1) mod_add_right_eq)
  then show ?thesis using small by (simp add: mod_pos_pos_trivial)
qed

lemma ucast_of_unat: "unat (b :: u8) = n \<Longrightarrow> (ucast b :: u32) = of_nat n"
  by (simp only: ucast_eq uint_nat of_int_of_nat_eq)

text \<open>One step of the reader on a byte that ends the number, and on one that does not.\<close>

lemma readULEB_last:
  assumes "n < 128" and "shift = 28 \<longrightarrow> n < 16" and "uint v < 2 ^ shift"
  shows "readULEB_loop (shift # sh) v (pre @ of_nat n # post) (length pre) =
    Inr (v + of_nat (n * 2 ^ shift), Suc (length pre))"
proof -
  let ?b = "of_nat n :: u8"
  have b: "unat ?b = n" using assms(1) by (simp add: unsigned_of_nat take_bit_nat_eq_self)
  have "unat (?b AND 0x7f) = n" using low7 [of ?b] assms(1) by (simp add: b)
  then have "(ucast (?b AND 0x7f) :: u32) = of_nat n" by (rule ucast_of_unat)
  then have "v OR push_bit shift (ucast (?b AND 0x7f)) = v + of_nat (n * 2 ^ shift)"
    using or_shift_add [OF assms(3)] by (simp add: push_bit_eq_mult)
  moreover have "?b AND 0x80 = 0" using more_bit [of ?b] assms(1) by (simp add: b)
  moreover have "shift = 28 \<longrightarrow> ?b AND 0xf0 = 0" using high4 [of ?b] assms(2) by (simp add: b)
  ultimately show ?thesis by (simp add: Let_def)
qed

lemma readULEB_more:
  assumes "m < 128" and "shift \<noteq> 28" and "uint v < 2 ^ shift"
  shows "readULEB_loop (shift # sh) v (pre @ of_nat (128 + m) # post) (length pre) =
    readULEB_loop sh (v + of_nat (m * 2 ^ shift)) (pre @ of_nat (128 + m) # post) (Suc (length pre))"
proof -
  let ?b = "of_nat (128 + m) :: u8"
  have b: "unat ?b = 128 + m"
    using assms(1) by (simp add: unsigned_of_nat take_bit_nat_eq_self del: of_nat_add)
  have "unat (?b AND 0x7f) = m" unfolding low7 b using assms(1) by simp
  then have "(ucast (?b AND 0x7f) :: u32) = of_nat m" by (rule ucast_of_unat)
  then have "v OR push_bit shift (ucast (?b AND 0x7f)) = v + of_nat (m * 2 ^ shift)"
    using or_shift_add [OF assms(3)] by (simp add: push_bit_eq_mult)
  moreover have "?b AND 0x80 \<noteq> 0" unfolding more_bit b by simp
  ultimately show ?thesis using assms(2) by (simp add: Let_def)
qed

lemma readULEB_uleb_loop:
  assumes "j < 5" and "uint v < 2 ^ (7 * j)" and "n * 2 ^ (7 * j) < 2 ^ 32"
  shows "readULEB_loop (map (\<lambda>i. 7 * i) [j..<5]) v (pre @ uleb n @ post) (length pre) =
    Inr (v + of_nat (n * 2 ^ (7 * j)), length pre + length (uleb n))"
  using assms
proof (induction n arbitrary: j v pre rule: uleb.induct)
  case (1 n)
  have sh: "map (\<lambda>i. 7 * i) [j..<5] = 7 * j # map (\<lambda>i. 7 * i) [Suc j..<5]"
    using 1(2) by (simp add: upt_conv_Cons)
  show ?case
  proof (cases "n < 128")
    case True
    have "j = 4 \<longrightarrow> n < 16" using 1(4) by auto
    then have "7 * j = 28 \<longrightarrow> n < 16" by auto
    then show ?thesis
      using readULEB_last [OF True _ 1(3)] by (simp add: sh uleb.simps [of n] True)
  next
    case False
    have j: "j < 4"
    proof (rule ccontr)
      assume "\<not> j < 4"
      then have "j = 4" using 1(2) by simp
      then show False using 1(4) False by simp
    qed
    let ?m = "n mod 128" and ?d = "n div 128"
    have dn: "?d * 2 ^ (7 * Suc j) \<le> n * 2 ^ (7 * j)"
    proof -
      have "?d * 2 ^ (7 * Suc j) = (128 * ?d) * 2 ^ (7 * j)" by (simp add: power_add)
      also have "\<dots> \<le> n * 2 ^ (7 * j)" by (intro mult_right_mono) auto
      finally show ?thesis .
    qed
    have mj: "uint v + int (?m * 2 ^ (7 * j)) < 2 ^ (7 * Suc j)"
    proof -
      have "int (?m * 2 ^ (7 * j)) \<le> 127 * 2 ^ (7 * j)"
        using mult_right_mono [of "int ?m" 127 "2 ^ (7 * j)"] by simp
      then have "uint v + int (?m * 2 ^ (7 * j)) < 2 ^ (7 * j) + 127 * 2 ^ (7 * j)"
        using 1(3) by linarith
      then show ?thesis by (simp add: power_add)
    qed
    have "(2 :: int) ^ (7 * Suc j) \<le> 2 ^ 32" using j by (intro power_increasing) auto
    then have v': "uint (v + of_nat (?m * 2 ^ (7 * j))) < 2 ^ (7 * Suc j)"
      using mj uint_add_small [of v "?m * 2 ^ (7 * j)"] by linarith
    have "readULEB_loop (map (\<lambda>i. 7 * i) [j..<5]) v (pre @ uleb n @ post) (length pre) =
        readULEB_loop (map (\<lambda>i. 7 * i) [Suc j..<5]) (v + of_nat (?m * 2 ^ (7 * j)))
          ((pre @ [of_nat (128 + ?m)]) @ uleb ?d @ post) (length (pre @ [of_nat (128 + ?m) :: u8]))"
      using readULEB_more [of ?m "7 * j" v] j 1(3) by (simp add: sh uleb.simps [of n] False)
    also have "\<dots> = Inr (v + of_nat (?m * 2 ^ (7 * j)) + of_nat (?d * 2 ^ (7 * Suc j)),
        length (pre @ [of_nat (128 + ?m) :: u8]) + length (uleb ?d))"
      using 1(1) [OF False, of "Suc j" "v + of_nat (?m * 2 ^ (7 * j))" "pre @ [of_nat (128 + ?m)]"] j v' 1(4) dn
      by simp
    also have "v + of_nat (?m * 2 ^ (7 * j)) + of_nat (?d * 2 ^ (7 * Suc j)) = v + of_nat (n * 2 ^ (7 * j))"
    proof -
      have "?m * 2 ^ (7 * j) + ?d * 2 ^ (7 * Suc j) = (?m + 128 * ?d) * 2 ^ (7 * j)"
        unfolding distrib_right by (simp add: power_add)
      moreover have "?m + 128 * ?d = n" by simp
      ultimately have "?m * 2 ^ (7 * j) + ?d * 2 ^ (7 * Suc j) = n * 2 ^ (7 * j)" by (simp only:)
      then show ?thesis unfolding add.assoc of_nat_add [symmetric] by (simp only:)
    qed
    finally show ?thesis by (simp add: uleb.simps [of n] False)
  qed
qed

lemma readULEB_uleb:
  "n < 2 ^ 32 \<Longrightarrow> readULEB (pre @ uleb n @ post) (length pre) = Inr (of_nat n, length pre + length (uleb n))"
  using readULEB_uleb_loop [of 0 0 n pre post] by (simp add: readULEB_def upt_rec)

text \<open>Modules as sequences of sections.\<close>

definition encode_section :: "u8 \<times> u8 list \<Rightarrow> u8 list" where
  "encode_section sec = (case sec of (i, payload) \<Rightarrow> i # uleb (length payload) @ payload)"

definition custom :: "u8 list \<Rightarrow> u8 list \<Rightarrow> u8 \<times> u8 list" where
  "custom name content = (0, uleb (length name) @ name @ content)"

definition small_section :: "u8 \<times> u8 list \<Rightarrow> bool" where
  "small_section sec \<longleftrightarrow> length (snd sec) < 2 ^ 32"

lemma unat_length: "length xs < 2 ^ 32 \<Longrightarrow> unat (of_nat (length xs) :: u32) = length xs"
  by (simp add: unsigned_of_nat take_bit_nat_eq_self)

lemma uint_length: "length xs < 2 ^ 32 \<Longrightarrow> uint (of_nat (length xs) :: u32) = int (length xs)"
  using unat_length [of xs] by (simp add: uint_nat)

lemma slice_middle: "slice (a @ b @ c) (length a) (length a + length b) = Some b"
  by (simp add: slice_def)

lemma slice_prefix: "n = length a \<Longrightarrow> slice (a @ b) 0 n = Some a"
  by (simp add: slice_def)

lemma read_size:
  assumes "length payload < 2 ^ 32"
  shows "readULEB (pre @ i # uleb (length payload) @ payload @ post) (Suc (length pre)) =
    Inr (of_nat (length payload), Suc (length pre) + length (uleb (length payload)))"
  using readULEB_uleb [OF assms, of "pre @ [i]" "payload @ post"] by simp

lemma read_section_skip:
  assumes "i \<noteq> 0" and "length payload < 2 ^ 32"
  shows "read_section (pre @ encode_section (i, payload) @ post) wanted (length pre) =
    Inr (length pre + length (encode_section (i, payload)), None)"
  using assms read_size [OF assms(2), of pre i post] uint_length [OF assms(2)] unat_length [OF assms(2)]
  by (simp add: read_section_def encode_section_def Let_def)

lemma read_section_custom:
  assumes "small_section (custom name content)"
  shows "read_section (pre @ encode_section (custom name content) @ post) wanted (length pre) =
    Inr (length pre + length (encode_section (custom name content)),
      if name = wanted then Some content else None)"
proof -
  let ?payload = "uleb (length name) @ name @ content"
  let ?front = "pre @ 0 # uleb (length ?payload) @ ?payload"
  let ?p1 = "Suc (length pre) + length (uleb (length ?payload))"
  let ?p2 = "?p1 + length (uleb (length name))"
  have len: "length ?payload < 2 ^ 32" and name: "length name < 2 ^ 32"
    using assms by (simp_all add: small_section_def custom_def)
  have wasm: "pre @ encode_section (custom name content) @ post = ?front @ post"
    by (simp add: encode_section_def custom_def)
  have size: "readULEB (?front @ post) (Suc (length pre)) = Inr (of_nat (length ?payload), ?p1)"
    using read_size [OF len, of pre 0 post] by simp
  have front: "slice (?front @ post) 0 (?p1 + length ?payload) = Some ?front"
    by (rule slice_prefix) simp
  have nm: "readULEB ?front ?p1 = Inr (of_nat (length name), ?p2)"
    using readULEB_uleb [OF name, of "pre @ 0 # uleb (length ?payload)" "name @ content"] by simp
  have s1: "slice (?front @ post) ?p2 (?p2 + length name) = Some name"
    using slice_middle [of "pre @ 0 # uleb (length ?payload) @ uleb (length name)" name "content @ post"]
    by (simp add: add.assoc)
  have s2: "slice (?front @ post) (?p2 + length name) (?p1 + length ?payload) = Some content"
    using slice_middle [of "pre @ 0 # uleb (length ?payload) @ uleb (length name) @ name" content post]
    by (simp add: algebra_simps)
  have id: "(?front @ post) ! length pre = 0" by simp
  have c1: "\<not> int (length (?front @ post)) - int ?p1 < uint (of_nat (length ?payload) :: u32)"
    unfolding uint_length [OF len] by simp
  have c2: "\<not> int (?p1 + length ?payload) - int ?p2 < uint (of_nat (length name) :: u32)"
    unfolding uint_length [OF name] by simp
  show ?thesis
    unfolding read_section_def Let_def wasm id size [folded Suc_eq_plus1] Suc_eq_plus1 [symmetric]
      sum.case prod.case if_not_P [OF c1] unat_length [OF len] front option.case nm
      if_not_P [OF c2] unat_length [OF name] s1 s2 simp_thms if_False
    by (simp add: encode_section_def custom_def)
qed

lemma sections_loop_step:
  assumes "read_section (pre @ encode_section sec @ post) wanted (length pre) = Inr (n, r)"
  shows "sections_loop (pre @ encode_section sec @ post) wanted (length pre) =
    (case r of Some content \<Rightarrow> Inr content | None \<Rightarrow> sections_loop (pre @ encode_section sec @ post) wanted n)"
proof -
  have "0 < length (encode_section sec)" by (simp add: encode_section_def split: prod.splits)
  then have "\<not> length (pre @ encode_section sec @ post) \<le> length pre" by simp
  then show ?thesis
    using assms by (subst sections_loop.simps) (auto split: option.splits)
qed

definition other_section :: "u8 list \<Rightarrow> u8 \<times> u8 list \<Rightarrow> bool" where
  "other_section wanted sec \<longleftrightarrow> small_section sec \<and>
     (fst sec \<noteq> 0 \<or> (\<exists>name content. sec = custom name content \<and> name \<noteq> wanted))"

lemma sections_loop_finds:
  assumes "\<forall>sec \<in> set before. other_section wanted sec" and "small_section (custom wanted content)"
  shows "sections_loop (pre @ concat (map encode_section before) @ encode_section (custom wanted content) @ rest)
    wanted (length pre) = Inr content"
  using assms(1)
proof (induction before arbitrary: pre)
  case Nil
  then show ?case
    using sections_loop_step [OF read_section_custom [OF assms(2), of pre rest wanted]] by simp
next
  case (Cons sec before)
  let ?post = "concat (map encode_section before) @ encode_section (custom wanted content) @ rest"
  have "read_section (pre @ encode_section sec @ ?post) wanted (length pre) =
      Inr (length (pre @ encode_section sec), None)"
  proof -
    have other: "other_section wanted sec" using Cons.prems by simp
    then consider "fst sec \<noteq> 0" "small_section sec"
      | name c where "sec = custom name c" "name \<noteq> wanted" "small_section sec"
      by (auto simp: other_section_def)
    then show ?thesis
    proof cases
      case 1
      then show ?thesis
        using read_section_skip [of "fst sec" "snd sec" pre ?post wanted] by (simp add: small_section_def)
    next
      case (2 name c)
      then show ?thesis using read_section_custom [of name c pre ?post wanted] by simp
    qed
  qed
  then show ?case
    using sections_loop_step [of pre sec ?post wanted] Cons.IH [of "pre @ encode_section sec"] Cons.prems by simp
qed

lemma uint_le_nat: "\<not> int a - int b < uint (w :: u32) \<Longrightarrow> b \<le> a \<Longrightarrow> b + unat w \<le> a"
  unfolding uint_nat by linarith

lemma read_section_no_panic: "read_section wasm wanted pos \<noteq> Inl IndexPanic"
proof (cases "\<exists>sz p1. readULEB wasm (pos + 1) = Inr (sz, p1) \<and> \<not> int (length wasm) - int p1 < uint sz \<and> wasm ! pos = 0")
  case False
  then show ?thesis by (auto simp: read_section_def Let_def split: sum.splits)
next
  case True
  then obtain sz p1 where p1: "readULEB wasm (pos + 1) = Inr (sz, p1)"
    and sz: "\<not> int (length wasm) - int p1 < uint sz" and id: "wasm ! pos = 0" by blast
  let ?E = "p1 + unat sz"
  have E: "?E \<le> length wasm" using uint_le_nat [OF sz] readULEB_pos [OF p1] by simp
  have front: "slice wasm 0 ?E = Some (take ?E wasm)" using E by (simp add: slice_def)
  show ?thesis
  proof (cases "\<exists>n p2. readULEB (take ?E wasm) p1 = Inr (n, p2) \<and> \<not> int ?E - int p2 < uint n")
    case False
    then show ?thesis using p1 sz id front by (auto simp: read_section_def Let_def split: sum.splits)
  next
    case True
    then obtain n p2 where p2: "readULEB (take ?E wasm) p1 = Inr (n, p2)" and n: "\<not> int ?E - int p2 < uint n"
      by blast
    have "p2 \<le> ?E" using readULEB_pos [OF p2] by simp
    then have N: "p2 + unat n \<le> ?E" using uint_le_nat [OF n] by simp
    have "slice wasm p2 (p2 + unat n) \<noteq> None" "slice wasm (p2 + unat n) ?E \<noteq> None"
      using N E by (simp_all add: slice_def)
    then show ?thesis
      using p1 sz id front p2 n by (auto simp: read_section_def Let_def split: if_split_asm)
  qed
qed

section \<open>Properties\<close>

text \<open>
  The size reader inverts LEB128: the canonical encoding of any 32-bit number, anywhere in
  the data, reads back as the number, with the position just past it.
\<close>

theorem uleb_round_trip:
  assumes "n < 2 ^ 32"
  shows "readULEB (pre @ uleb n @ post) (length pre) = Inr (of_nat n, length pre + length (uleb n))"
  using assms by (rule readULEB_uleb)

lemma uleb_round_trip_witness: "readULEB ([7] @ [0xe5, 0x8e, 0x26] @ [1]) 1 = Inr (624485, 4)"
proof -
  have "uleb 624485 = [0xe5, 0x8e, 0x26]" by (simp add: uleb.simps)
  then show ?thesis using uleb_round_trip [of 624485 "[7]" "[1]"] by simp
qed

text \<open>
  C31. The spec section is found: in a module of any sections, the content of the first custom
  section with the wanted name is what is returned, whatever precedes and follows it.
\<close>

theorem custom_section_found:
  assumes "length version = 4" and "\<forall>sec \<in> set before. other_section wanted sec"
    and "small_section (custom wanted content)"
  shows "customSection (magic @ version @ concat (map encode_section before) @
      encode_section (custom wanted content) @ rest) wanted = Inr content"
  using assms sections_loop_finds [OF assms(2,3), of "magic @ version" rest]
  by (simp add: customSection_def magic_def)

lemma custom_section_found_witness:
  "customSection (magic @ [1, 0, 0, 0] @ concat (map encode_section [(1, [5, 6])]) @
     encode_section (custom [9] [42]) @ [3]) [9] = Inr [42]"
  by (rule custom_section_found) (simp_all add: other_section_def small_section_def custom_def uleb.simps)


end
