(* ===== verification/Go_Duration.thy ===== *)
theory Go_Duration
  imports Go_Float Go_Text
begin

text \<open>
  Go's \<^verbatim>\<open>time.ParseDuration\<close>: a signed sequence of decimal numbers with units. The sums are taken
  in 64 unsigned bits, as in the library; a fraction is scaled in floating point and truncated.
\<close>

definition two63 :: int where "two63 = 9223372036854775808"

definition unit_ns :: "string \<Rightarrow> int option" where
  "unit_ns = map_of
     [(''ns'', 1), (''us'', 1000), ([CHR 0xC2, CHR 0xB5, CHR ''s''], 1000),
      ([CHR 0xCE, CHR 0xBC, CHR ''s''], 1000), (''ms'', 1000000), (''s'', 1000000000),
      (''m'', 60000000000), (''h'', 3600000000000)]"

text \<open>The digits at the front, and what is left; \<open>None\<close> when they overflow.\<close>

fun leading_int :: "int \<Rightarrow> string \<Rightarrow> (int \<times> string) option" where
  "leading_int x [] = Some (x, [])"
| "leading_int x (c # cs) =
     (if \<not> is_digit c then Some (x, c # cs)
      else if two63 div 10 < x then None
      else let y = x * 10 + int (code c) - 48 in if two63 < y then None else leading_int y cs)"

text \<open>The digits of a fraction; those past an overflow are dropped.\<close>

fun leading_fraction :: "bool \<Rightarrow> int \<Rightarrow> f64 \<Rightarrow> string \<Rightarrow> int \<times> f64 \<times> string" where
  "leading_fraction over x scale [] = (x, scale, [])"
| "leading_fraction over x scale (c # cs) =
     (if \<not> is_digit c then (x, scale, c # cs)
      else if over then leading_fraction True x scale cs
      else if (two63 - 1) div 10 < x then leading_fraction True x scale cs
      else let y = x * 10 + int (code c) - 48 in
        if two63 < y then leading_fraction True x scale cs
        else leading_fraction False y (fmul scale (Fin 10)) cs)"

definition unit_char :: "char \<Rightarrow> bool" where
  "unit_char c \<longleftrightarrow> c \<noteq> CHR ''.'' \<and> \<not> is_digit c"

fun fraction_ns :: "f64 \<Rightarrow> int" where
  "fraction_ns (Fin r) = \<lfloor>r\<rfloor>"
| "fraction_ns _ = two63"

text \<open>One number with its unit: its nanoseconds and the rest.\<close>

definition duration_part :: "string \<Rightarrow> (int \<times> string) option" where
  "duration_part s =
     (if s = [] \<or> \<not> (hd s = CHR ''.'' \<or> is_digit (hd s)) then None
      else case leading_int 0 s of
          None \<Rightarrow> None
        | Some (v, s1) \<Rightarrow>
            (let pre = length s1 \<noteq> length s;
                 (f, scale, s2, post) =
                   (case s1 of
                      CHR ''.'' # s' \<Rightarrow>
                        (case leading_fraction False 0 (Fin 1) s' of (f, scale, rest) \<Rightarrow>
                          (f, scale, rest, length rest \<noteq> length s'))
                    | _ \<Rightarrow> (0, Fin 1, s1, False))
             in if \<not> pre \<and> \<not> post then None
                else let u = takeWhile unit_char s2; rest = dropWhile unit_char s2 in
                  case unit_ns u of
                    None \<Rightarrow> None
                  | Some un \<Rightarrow>
                      if two63 div un < v then None
                      else let w = (if 0 < f
                          then v * un + fraction_ns (fmul (f_of_int f) (fdiv (f_of_int un) scale))
                          else v * un)
                        in if 0 < f \<and> two63 < w then None else Some (w, rest)))"

lemma leading_int_shorter: "leading_int x s = Some (y, r) \<Longrightarrow> length r \<le> length s"
  by (induction x s rule: leading_int.induct) (auto simp: Let_def split: if_splits)

lemma leading_fraction_shorter: "leading_fraction b x sc s = (y, sc', r) \<Longrightarrow> length r \<le> length s"
  by (induction b x sc s rule: leading_fraction.induct) (auto simp: Let_def split: if_splits)

lemma unit_ns_nonempty: "unit_ns u = Some n \<Longrightarrow> u \<noteq> []"
  by (auto simp: unit_ns_def)

lemma duration_part_shorter: "duration_part s = Some (w, r) \<Longrightarrow> length r < length s"
proof -
  assume "duration_part s = Some (w, r)"
  then obtain v s1 f sc s2 post un where s1: "leading_int 0 s = Some (v, s1)"
    and s2: "(f, sc, s2, post) = (case s1 of
          CHR ''.'' # s' \<Rightarrow> (case leading_fraction False 0 (Fin 1) s' of (f, scale, rest) \<Rightarrow>
            (f, scale, rest, length rest \<noteq> length s'))
        | _ \<Rightarrow> (0, Fin 1, s1, False))"
    and u: "unit_ns (takeWhile unit_char s2) = Some un" and r: "r = dropWhile unit_char s2"
    by (auto simp: duration_part_def Let_def split: if_splits option.splits prod.splits)
  have "length s2 \<le> length s1"
  proof (cases "\<exists>s'. s1 = CHR ''.'' # s'")
    case True
    then obtain s' where s': "s1 = CHR ''.'' # s'" by blast
    obtain y sc' r' where fr: "leading_fraction False 0 (Fin 1) s' = (y, sc', r')" by (cases "leading_fraction False 0 (Fin 1) s'") auto
    then have "s2 = r'" using s2 s' by simp
    then show ?thesis using leading_fraction_shorter [OF fr] s' by simp
  next
    case False
    then have "s2 = s1" using s2 by (auto split: list.splits char.splits bool.splits)
    then show ?thesis by simp
  qed
  moreover have "length r < length s2"
  proof -
    have "length s2 = length (takeWhile unit_char s2) + length (dropWhile unit_char s2)"
      by (metis length_append takeWhile_dropWhile_id)
    moreover have "takeWhile unit_char s2 \<noteq> []" using unit_ns_nonempty [OF u] .
    ultimately show ?thesis using r by simp
  qed
  ultimately show ?thesis using leading_int_shorter [OF s1] by simp
qed

function duration_loop :: "int \<Rightarrow> string \<Rightarrow> int option" where
  "duration_loop d s =
     (if s = [] then Some d
      else case duration_part s of
          None \<Rightarrow> None
        | Some (v, rest) \<Rightarrow>
            let d' = (d + v) mod 2 ^ 64 in if two63 < d' then None else duration_loop d' rest)"
  by pat_completeness auto

termination
  by (relation "measure (\<lambda>(_, s). length s)") (auto dest: duration_part_shorter)

declare duration_loop.simps [simp del]

definition parse_duration :: "string \<Rightarrow> duration option" where
  "parse_duration s =
     (let neg = prefix ''-'' s; body = (if prefix ''-'' s \<or> prefix ''+'' s then tl s else s)
      in if body = ''0'' then Some 0
         else if body = [] then None
         else case duration_loop 0 body of
             None \<Rightarrow> None
           | Some d \<Rightarrow>
               if neg then Some (word_of_int (- d))
               else if two63 - 1 < d then None else Some (word_of_int d))"

end
