(* ===== verification/Config.thy ===== *)
theory Config
  imports Go_Duration Health
begin

text \<open>
  The settings, \<^verbatim>\<open>internal/config/config.go\<close>: defaults, the configuration file with its profiles,
  the environment, and validation. What the code asks of its surroundings is the record
  \<open>platform\<close>: the environment, the file system, the JSON and YAML decoders and the check of a
  public key. An operation that writes settings through pointers returns the settings it leaves
  behind and the error it returns, so the writes made before an error are kept. File contents are
  passed to the decoders unread.
\<close>

section \<open>Defaults\<close>

definition DefaultRPCURL :: string where
  "DefaultRPCURL = ''https://soroban-testnet.stellar.org''"

definition DefaultNetworkPassphrase :: string where
  "DefaultNetworkPassphrase = ''Test SDF Network ; September 2015''"

definition DefaultHTTPAddr :: string where "DefaultHTTPAddr = ''127.0.0.1:8080''"

definition DefaultRateLimitPerMinute :: u32 where "DefaultRateLimitPerMinute = 60"

definition DefaultRateLimitBurst :: u32 where "DefaultRateLimitBurst = 10"

definition DefaultLogLevel :: string where "DefaultLogLevel = ''info''"

definition DefaultLogFormat :: string where "DefaultLogFormat = ''text''"

definition DefaultTimeout :: duration where "DefaultTimeout = 30 * second"

definition MinAPITokenLength :: nat where "MinAPITokenLength = 16"

definition DefaultSourceAccount :: string where
  "DefaultSourceAccount = ''GAAAAAAAAAAAAAAAAAAAAAAAAAAAAAAAAAAAAAAAAAAAAAAAAAAAAWHF''"

definition DefaultWarnLedgers :: u32 where "DefaultWarnLedgers = 120960"

definition DefaultCriticalLedgers :: u32 where "DefaultCriticalLedgers = 17280"

definition cfg_DefaultBaseFee :: i64 where "cfg_DefaultBaseFee = 100"

section \<open>Settings\<close>

record config =
  cfg_RPCURL :: string
  cfg_NetworkPassphrase :: string
  cfg_SourceAccount :: string
  cfg_HTTPAddr :: string
  cfg_CORSOrigins :: "string list"
  cfg_RateLimitPerMinute :: u32
  cfg_RateLimitBurst :: u32
  cfg_TrustForwardedFor :: bool
  cfg_TLSCert :: string
  cfg_TLSKey :: string
  cfg_LogLevel :: string
  cfg_LogFormat :: string
  cfg_Timeout :: duration
  cfg_WarnLedgers :: u32
  cfg_CriticalLedgers :: u32
  cfg_ThresholdOverrides :: threshold_overrides
  cfg_SoroVaultURL :: string
  cfg_InspectCacheTTL :: duration
  cfg_APIToken :: string
  cfg_BaseFee :: i64

definition no_overrides :: threshold_overrides where
  "no_overrides = \<lparr>ov_Instance = None, ov_Code = None, ov_Data = None\<rparr>"

definition Default :: config where
  "Default =
     \<lparr>cfg_RPCURL = DefaultRPCURL, cfg_NetworkPassphrase = DefaultNetworkPassphrase,
      cfg_SourceAccount = DefaultSourceAccount, cfg_HTTPAddr = DefaultHTTPAddr,
      cfg_CORSOrigins = [], cfg_RateLimitPerMinute = DefaultRateLimitPerMinute,
      cfg_RateLimitBurst = DefaultRateLimitBurst, cfg_TrustForwardedFor = False,
      cfg_TLSCert = [], cfg_TLSKey = [], cfg_LogLevel = DefaultLogLevel,
      cfg_LogFormat = DefaultLogFormat, cfg_Timeout = DefaultTimeout,
      cfg_WarnLedgers = DefaultWarnLedgers, cfg_CriticalLedgers = DefaultCriticalLedgers,
      cfg_ThresholdOverrides = no_overrides, cfg_SoroVaultURL = [], cfg_InspectCacheTTL = 0,
      cfg_APIToken = [], cfg_BaseFee = cfg_DefaultBaseFee\<rparr>"

text \<open>
  \<^verbatim>\<open>fileConfig\<close>: a pointer that may be nil for each key. The keys of one level are the record
  \<open>file_values\<close>; the profiles of the file are an association list, with nil for a profile
  that is present and empty.
\<close>

record file_values =
  fv_RPCURL :: "string option"
  fv_NetworkPassphrase :: "string option"
  fv_SourceAccount :: "string option"
  fv_HTTPAddr :: "string option"
  fv_LogLevel :: "string option"
  fv_LogFormat :: "string option"
  fv_Timeout :: "string option"
  fv_WarnLedgers :: "u32 option"
  fv_CriticalLedgers :: "u32 option"
  fv_ThresholdOverrides :: "threshold_overrides option"
  fv_SoroVaultURL :: "string option"
  fv_BaseFee :: "i64 option"
  fv_InspectCacheTTL :: "string option"
  fv_RateLimitPerMinute :: "u32 option"
  fv_RateLimitBurst :: "u32 option"
  fv_TrustForwardedFor :: "bool option"
  fv_TLSCert :: "string option"
  fv_TLSKey :: "string option"
  fv_APIToken :: "string option"

datatype file_config =
  FileConfig (fc_Values: file_values) (fc_Profiles: "(string \<times> file_config option) list")

definition no_values :: file_values where
  "no_values =
     \<lparr>fv_RPCURL = None, fv_NetworkPassphrase = None, fv_SourceAccount = None, fv_HTTPAddr = None,
      fv_LogLevel = None, fv_LogFormat = None, fv_Timeout = None, fv_WarnLedgers = None,
      fv_CriticalLedgers = None, fv_ThresholdOverrides = None, fv_SoroVaultURL = None,
      fv_BaseFee = None, fv_InspectCacheTTL = None, fv_RateLimitPerMinute = None,
      fv_RateLimitBurst = None, fv_TrustForwardedFor = None, fv_TLSCert = None,
      fv_TLSKey = None, fv_APIToken = None\<rparr>"

text \<open>What a decoder answers: a document, \<^verbatim>\<open>io.EOF\<close> for an empty file, or another error.\<close>

datatype decoded = Decoded file_config | AtEOF | DecodeFailed string

datatype read_error = NotExist | ReadFailed string

record platform =
  pf_env :: "string \<Rightarrow> string option"
  pf_stat :: "string \<Rightarrow> bool"
  pf_read :: "string \<Rightarrow> (read_error, string) result"
  pf_yaml :: "string \<Rightarrow> decoded"
  pf_json :: "string \<Rightarrow> decoded"

datatype config_error =
    ProfileWithoutFile string
  | ProfileFileNotFound string string
  | ReadConfigFile string string
  | ParseConfigFile string string
  | ParseFileDuration string string
  | NoProfilesDefined string string
  | UnknownProfile string string "string list"
  | ParseEnv string

section \<open>Writing settings\<close>

definition setString :: "string \<Rightarrow> string option \<Rightarrow> string" where
  "setString dst src = (case src of None \<Rightarrow> dst | Some s \<Rightarrow> s)"

definition set_value :: "'a \<Rightarrow> 'a option \<Rightarrow> 'a" where
  "set_value dst src = (case src of None \<Rightarrow> dst | Some x \<Rightarrow> x)"

definition lookup :: "platform \<Rightarrow> string \<Rightarrow> string option" where
  "lookup pf key = (case pf_env pf key of None \<Rightarrow> None | Some v \<Rightarrow> if v = [] then None else Some v)"

definition Getenv :: "platform \<Rightarrow> string \<Rightarrow> string" where
  "Getenv pf key = (case pf_env pf key of None \<Rightarrow> [] | Some v \<Rightarrow> v)"

text \<open>
  Statements that write and may fail, run until the first error: what is written and the error.
\<close>

fun chain :: "('s \<Rightarrow> 's \<times> 'e option) list \<Rightarrow> 's \<Rightarrow> 's \<times> 'e option" where
  "chain [] s = (s, None)"
| "chain (f # fs) s = (case f s of (t, None) \<Rightarrow> chain fs t | (t, Some e) \<Rightarrow> (t, Some e))"

definition always :: "('s \<Rightarrow> 's) \<Rightarrow> 's \<Rightarrow> 's \<times> 'e option" where
  "always f s = (f s, None)"

text \<open>Parsing a text that may be absent into a setting, with the error for a text that does not parse.\<close>

definition parse_into ::
    "(string \<Rightarrow> 'a option) \<Rightarrow> string option \<Rightarrow> 'e \<Rightarrow> ('a \<Rightarrow> 's \<Rightarrow> 's) \<Rightarrow> 's \<Rightarrow> 's \<times> 'e option" where
  "parse_into parse v e upd s =
     (case v of
        None \<Rightarrow> (s, None)
      | Some t \<Rightarrow> (case parse t of None \<Rightarrow> (s, Some e) | Some x \<Rightarrow> (upd x s, None)))"

section \<open>The configuration file\<close>

definition set_file_strings :: "file_values \<Rightarrow> config \<Rightarrow> config" where
  "set_file_strings fv cfg = cfg
     \<lparr>cfg_RPCURL := setString (cfg_RPCURL cfg) (fv_RPCURL fv),
      cfg_NetworkPassphrase := setString (cfg_NetworkPassphrase cfg) (fv_NetworkPassphrase fv),
      cfg_SourceAccount := setString (cfg_SourceAccount cfg) (fv_SourceAccount fv),
      cfg_HTTPAddr := setString (cfg_HTTPAddr cfg) (fv_HTTPAddr fv),
      cfg_TLSCert := setString (cfg_TLSCert cfg) (fv_TLSCert fv),
      cfg_TLSKey := setString (cfg_TLSKey cfg) (fv_TLSKey fv),
      cfg_LogLevel := setString (cfg_LogLevel cfg) (fv_LogLevel fv),
      cfg_LogFormat := setString (cfg_LogFormat cfg) (fv_LogFormat fv),
      cfg_SoroVaultURL := setString (cfg_SoroVaultURL cfg) (fv_SoroVaultURL fv)\<rparr>"

definition set_file_values :: "file_values \<Rightarrow> config \<Rightarrow> config" where
  "set_file_values fv cfg = cfg
     \<lparr>cfg_RateLimitPerMinute := set_value (cfg_RateLimitPerMinute cfg) (fv_RateLimitPerMinute fv),
      cfg_RateLimitBurst := set_value (cfg_RateLimitBurst cfg) (fv_RateLimitBurst fv),
      cfg_TrustForwardedFor := set_value (cfg_TrustForwardedFor cfg) (fv_TrustForwardedFor fv),
      cfg_WarnLedgers := set_value (cfg_WarnLedgers cfg) (fv_WarnLedgers fv),
      cfg_CriticalLedgers := set_value (cfg_CriticalLedgers cfg) (fv_CriticalLedgers fv),
      cfg_ThresholdOverrides := set_value (cfg_ThresholdOverrides cfg) (fv_ThresholdOverrides fv),
      cfg_BaseFee := set_value (cfg_BaseFee cfg) (fv_BaseFee fv)\<rparr>"

definition applyValues ::
    "string \<Rightarrow> file_config \<Rightarrow> config \<Rightarrow> config \<times> config_error option" where
  "applyValues path fc =
     (let fv = fc_Values fc in
      chain
        [always (set_file_strings fv), always (set_file_values fv),
         parse_into parse_duration (fv_Timeout fv) (ParseFileDuration path ''timeout'')
           (\<lambda>d. cfg_Timeout_update (\<lambda>_. d)),
         parse_into parse_duration (fv_InspectCacheTTL fv)
           (ParseFileDuration path ''inspect_cache_ttl'') (\<lambda>d. cfg_InspectCacheTTL_update (\<lambda>_. d))])"

text \<open>\<^verbatim>\<open>filepath.Ext\<close>: from the last dot of the last element of the path.\<close>

definition Ext :: "string \<Rightarrow> string" where
  "Ext path =
     (let base = takeWhile (\<lambda>c. c \<noteq> CHR ''/'') (rev path) in
      if CHR ''.'' \<in> set base then CHR ''.'' # rev (takeWhile (\<lambda>c. c \<noteq> CHR ''.'') base) else [])"

definition unmarshalConfigFile ::
    "platform \<Rightarrow> string \<Rightarrow> string \<Rightarrow> (string, file_config) result" where
  "unmarshalConfigFile pf path raw =
     (let ext = to_lower (Ext path);
          d = (if ext = ''.yaml'' \<or> ext = ''.yml'' then pf_yaml pf raw else pf_json pf raw)
      in case d of
          Decoded fc \<Rightarrow> Inr fc
        | AtEOF \<Rightarrow> Inr (FileConfig no_values [])
        | DecodeFailed e \<Rightarrow> Inl e)"

definition select_profile ::
    "string \<Rightarrow> file_config \<Rightarrow> string \<Rightarrow> (config_error, file_config) result" where
  "select_profile path fc profileName =
     (case map_of (fc_Profiles fc) profileName of
        Some (Some pfc) \<Rightarrow> Inr pfc
      | _ \<Rightarrow>
          (let names = sort (map fst (fc_Profiles fc)) in
           if length names = 0 then Inl (NoProfilesDefined profileName path)
           else Inl (UnknownProfile profileName path names)))"

definition applyFileWithProfile ::
    "platform \<Rightarrow> string \<Rightarrow> bool \<Rightarrow> string \<Rightarrow> config \<Rightarrow> config \<times> config_error option" where
  "applyFileWithProfile pf path required profileName cfg =
     (case pf_read pf path of
        Inl NotExist \<Rightarrow>
          (cfg, if \<not> required
                then (if profileName \<noteq> [] then Some (ProfileFileNotFound profileName path) else None)
                else Some (ReadConfigFile path ''file does not exist''))
      | Inl (ReadFailed e) \<Rightarrow> (cfg, Some (ReadConfigFile path e))
      | Inr raw \<Rightarrow>
          (case unmarshalConfigFile pf path raw of
             Inl e \<Rightarrow> (cfg, Some (ParseConfigFile path e))
           | Inr fc \<Rightarrow>
               chain
                 [applyValues path fc,
                  (\<lambda>c. if profileName = [] then (c, None)
                       else case select_profile path fc profileName of
                           Inl e \<Rightarrow> (c, Some e)
                         | Inr pfc \<Rightarrow> applyValues path pfc c)] cfg))"

section \<open>The environment\<close>

definition setUint32FromEnv ::
    "platform \<Rightarrow> string \<Rightarrow> (u32 \<Rightarrow> 's \<Rightarrow> 's) \<Rightarrow> 's \<Rightarrow> 's \<times> config_error option" where
  "setUint32FromEnv pf key =
     parse_into (\<lambda>v. map_option of_nat (parse_uint 32 v)) (lookup pf key) (ParseEnv key)"

definition setInt64FromEnv ::
    "platform \<Rightarrow> string \<Rightarrow> (i64 \<Rightarrow> 's \<Rightarrow> 's) \<Rightarrow> 's \<Rightarrow> 's \<times> config_error option" where
  "setInt64FromEnv pf key = parse_into parse_int64 (lookup pf key) (ParseEnv key)"

definition no_override :: threshold_override where
  "no_override = \<lparr>ov_Warn = None, ov_Critical = None\<rparr>"

text \<open>
  \<^verbatim>\<open>thresholdOverride\<close> returns a pointer to the override of the kind, made when there is none;
  here the write through that pointer is the argument \<open>f\<close>.
\<close>

fun thresholdOverride ::
    "entry_kind \<Rightarrow> (threshold_override \<Rightarrow> threshold_override) \<Rightarrow> threshold_overrides \<Rightarrow>
     threshold_overrides" where
  "thresholdOverride EntryKindInstance f ov =
     ov\<lparr>ov_Instance := Some (f (set_value no_override (ov_Instance ov)))\<rparr>"
| "thresholdOverride EntryKindCode f ov =
     ov\<lparr>ov_Code := Some (f (set_value no_override (ov_Code ov)))\<rparr>"
| "thresholdOverride _ f ov = ov\<lparr>ov_Data := Some (f (set_value no_override (ov_Data ov)))\<rparr>"

definition override_keys :: "(entry_kind \<times> string \<times> string) list" where
  "override_keys =
     [(EntryKindInstance, ''INSTANCE_WARN_LEDGERS'', ''INSTANCE_CRITICAL_LEDGERS''),
      (EntryKindCode, ''CODE_WARN_LEDGERS'', ''CODE_CRITICAL_LEDGERS''),
      (EntryKindData, ''DATA_WARN_LEDGERS'', ''DATA_CRITICAL_LEDGERS'')]"

definition applyThresholdOverrideEnv ::
    "platform \<Rightarrow> threshold_overrides \<Rightarrow> threshold_overrides \<times> config_error option" where
  "applyThresholdOverrideEnv pf =
     chain (concat (map (\<lambda>(kind, warn, critical).
       [setUint32FromEnv pf warn (\<lambda>n. thresholdOverride kind (ov_Warn_update (\<lambda>_. Some n))),
        setUint32FromEnv pf critical (\<lambda>n. thresholdOverride kind (ov_Critical_update (\<lambda>_. Some n)))])
       override_keys))"

definition parse_origins :: "string \<Rightarrow> string list" where
  "parse_origins v = filter (\<lambda>t. t \<noteq> []) (map trim_space (split_on (CHR '','') v))"

definition env_origins :: "platform \<Rightarrow> config \<Rightarrow> config" where
  "env_origins pf cfg = (case lookup pf ''CORS_ORIGINS'' of
     None \<Rightarrow> cfg | Some v \<Rightarrow> cfg\<lparr>cfg_CORSOrigins := parse_origins v\<rparr>)"

definition env_strings1 :: "platform \<Rightarrow> config \<Rightarrow> config" where
  "env_strings1 pf cfg = cfg
     \<lparr>cfg_RPCURL := setString (cfg_RPCURL cfg) (lookup pf ''RPC_URL''),
      cfg_NetworkPassphrase := setString (cfg_NetworkPassphrase cfg) (lookup pf ''NETWORK_PASSPHRASE''),
      cfg_SourceAccount := setString (cfg_SourceAccount cfg) (lookup pf ''SOURCE_ACCOUNT''),
      cfg_HTTPAddr := setString (cfg_HTTPAddr cfg) (lookup pf ''HTTP_ADDR'')\<rparr>"

definition env_tls :: "platform \<Rightarrow> config \<Rightarrow> config" where
  "env_tls pf cfg = cfg
     \<lparr>cfg_TLSCert := setString (cfg_TLSCert cfg) (lookup pf ''HTTP_TLS_CERT''),
      cfg_TLSKey := setString (cfg_TLSKey cfg) (lookup pf ''HTTP_TLS_KEY'')\<rparr>"

definition env_strings2 :: "platform \<Rightarrow> config \<Rightarrow> config" where
  "env_strings2 pf cfg = cfg
     \<lparr>cfg_LogLevel := setString (cfg_LogLevel cfg) (lookup pf ''LOG_LEVEL''),
      cfg_LogFormat := setString (cfg_LogFormat cfg) (lookup pf ''LOG_FORMAT''),
      cfg_SoroVaultURL := setString (cfg_SoroVaultURL cfg) (lookup pf ''SOROVAULT_URL''),
      cfg_APIToken := setString (cfg_APIToken cfg) (lookup pf ''API_TOKEN'')\<rparr>"

definition env_duration ::
    "platform \<Rightarrow> string \<Rightarrow> (duration \<Rightarrow> 's \<Rightarrow> 's) \<Rightarrow> 's \<Rightarrow> 's \<times> config_error option" where
  "env_duration pf key = parse_into parse_duration (lookup pf key) (ParseEnv key)"

definition applyEnv :: "platform \<Rightarrow> config \<Rightarrow> config \<times> config_error option" where
  "applyEnv pf =
     chain
       [always (env_strings1 pf),
        setUint32FromEnv pf ''HTTP_RATE_LIMIT_PER_MINUTE'' (\<lambda>n. cfg_RateLimitPerMinute_update (\<lambda>_. n)),
        setUint32FromEnv pf ''HTTP_RATE_LIMIT_BURST'' (\<lambda>n. cfg_RateLimitBurst_update (\<lambda>_. n)),
        parse_into parse_bool (lookup pf ''HTTP_TRUST_FORWARDED_FOR'')
          (ParseEnv ''HTTP_TRUST_FORWARDED_FOR'') (\<lambda>b. cfg_TrustForwardedFor_update (\<lambda>_. b)),
        always (env_tls pf), always (env_origins pf), always (env_strings2 pf),
        env_duration pf ''RPC_TIMEOUT'' (\<lambda>d. cfg_Timeout_update (\<lambda>_. d)),
        env_duration pf ''INSPECT_CACHE_TTL'' (\<lambda>d. cfg_InspectCacheTTL_update (\<lambda>_. d)),
        setUint32FromEnv pf ''WARN_LEDGERS'' (\<lambda>n. cfg_WarnLedgers_update (\<lambda>_. n)),
        setUint32FromEnv pf ''CRITICAL_LEDGERS'' (\<lambda>n. cfg_CriticalLedgers_update (\<lambda>_. n)),
        setInt64FromEnv pf ''BASE_FEE'' (\<lambda>n. cfg_BaseFee_update (\<lambda>_. n)),
        (\<lambda>cfg. case applyThresholdOverrideEnv pf (cfg_ThresholdOverrides cfg) of
           (ov, e) \<Rightarrow> (cfg\<lparr>cfg_ThresholdOverrides := ov\<rparr>, e))]"

section \<open>Loading\<close>

definition defaultCandidateFiles :: "string list" where
  "defaultCandidateFiles = [''soroprobe.json'', ''soroprobe.yaml'', ''soroprobe.yml'']"

definition profile_name :: "platform \<Rightarrow> string \<Rightarrow> string" where
  "profile_name pf profileName =
     (if profileName = [] then Getenv pf ''SOROPROBE_PROFILE'' else profileName)"

text \<open>The file to read and whether it was named; no path when none is named or found.\<close>

definition config_path :: "platform \<Rightarrow> string \<Rightarrow> string \<times> bool" where
  "config_path pf path =
     (let p = (if path \<noteq> [] then path else Getenv pf ''SOROPROBE_CONFIG'') in
      if p \<noteq> [] then (p, True)
      else case find (pf_stat pf) defaultCandidateFiles of
          Some candidate \<Rightarrow> (candidate, False)
        | None \<Rightarrow> ([], False))"

definition LoadWithProfile ::
    "platform \<Rightarrow> string \<Rightarrow> string \<Rightarrow> config \<times> config_error option" where
  "LoadWithProfile pf path profileName =
     (let profileName' = profile_name pf profileName in
      case config_path pf path of
        (p, explicit) \<Rightarrow>
          if p = [] then
            (if profileName' \<noteq> [] then (Default, Some (ProfileWithoutFile profileName'))
             else applyEnv pf Default)
          else chain [applyFileWithProfile pf p explicit profileName', applyEnv pf] Default)"

definition Load :: "platform \<Rightarrow> string \<Rightarrow> config \<times> config_error option" where
  "Load pf path = LoadWithProfile pf path []"

section \<open>Validation\<close>

datatype log_level = LevelDebug | LevelInfo | LevelWarn | LevelError

datatype log_format = FormatText | FormatJSON

datatype config_invalid =
    TLSPairIncomplete
  | RateLimitNotPositive
  | RPCURLRequired
  | RPCURLScheme string
  | PassphraseRequired
  | InvalidSourceAccount string
  | TimeoutNotPositive duration
  | CriticalAboveWarn u32 u32
  | NegativeCacheTTL duration
  | KindCriticalAboveWarn entry_kind u32 u32
  | UnknownLogLevel string
  | UnknownLogFormat string
  | APITokenTooShort nat
  | SoroVaultURLScheme string

definition ParseLogLevel :: "string \<Rightarrow> (config_invalid, log_level) result" where
  "ParseLogLevel name =
     (let n = to_lower (trim_space name) in
      if n = ''debug'' then Inr LevelDebug
      else if n = ''info'' \<or> n = [] then Inr LevelInfo
      else if n = ''warn'' \<or> n = ''warning'' then Inr LevelWarn
      else if n = ''error'' then Inr LevelError
      else Inl (UnknownLogLevel name))"

definition ParseLogFormat :: "string \<Rightarrow> (config_invalid, log_format) result" where
  "ParseLogFormat name =
     (let n = to_lower (trim_space name) in
      if n = ''text'' \<or> n = [] then Inr FormatText
      else if n = ''json'' then Inr FormatJSON
      else Inl (UnknownLogFormat name))"

definition Logger :: "config \<Rightarrow> log_format \<times> log_level" where
  "Logger c =
     (let level = (case ParseLogLevel (cfg_LogLevel c) of Inl _ \<Rightarrow> LevelInfo | Inr l \<Rightarrow> l) in
      if ParseLogFormat (cfg_LogFormat c) = Inr FormatJSON then (FormatJSON, level)
      else (FormatText, level))"

definition http_scheme :: "string \<Rightarrow> bool" where
  "http_scheme url \<longleftrightarrow> prefix ''http://'' url \<or> prefix ''https://'' url"

definition global_thresholds :: "config \<Rightarrow> thresholds" where
  "global_thresholds c = \<lparr>Warn = cfg_WarnLedgers c, Critical = cfg_CriticalLedgers c\<rparr>"

fun invalid_kinds :: "config \<Rightarrow> entry_kind list \<Rightarrow> config_invalid option" where
  "invalid_kinds c [] = None"
| "invalid_kinds c (kind # kinds) =
     (let t = ResolveThresholds kind (global_thresholds c) (cfg_ThresholdOverrides c) in
      if Warn t < Critical t then Some (KindCriticalAboveWarn kind (Critical t) (Warn t))
      else invalid_kinds c kinds)"

text \<open>\<open>valid_key\<close> is \<^verbatim>\<open>strkey.IsValidEd25519PublicKey\<close> of the SDK.\<close>

definition Validate :: "(string \<Rightarrow> bool) \<Rightarrow> config \<Rightarrow> config_invalid option" where
  "Validate valid_key c =
     (if (cfg_TLSCert c = []) \<noteq> (cfg_TLSKey c = []) then Some TLSPairIncomplete
      else if cfg_RateLimitPerMinute c = 0 \<or> cfg_RateLimitBurst c = 0 then Some RateLimitNotPositive
      else if cfg_RPCURL c = [] then Some RPCURLRequired
      else if \<not> http_scheme (cfg_RPCURL c) then Some (RPCURLScheme (cfg_RPCURL c))
      else if cfg_NetworkPassphrase c = [] then Some PassphraseRequired
      else if \<not> valid_key (cfg_SourceAccount c) then Some (InvalidSourceAccount (cfg_SourceAccount c))
      else if cfg_Timeout c \<le>s 0 then Some (TimeoutNotPositive (cfg_Timeout c))
      else if cfg_WarnLedgers c < cfg_CriticalLedgers c
        then Some (CriticalAboveWarn (cfg_CriticalLedgers c) (cfg_WarnLedgers c))
      else if cfg_InspectCacheTTL c <s 0 then Some (NegativeCacheTTL (cfg_InspectCacheTTL c))
      else case invalid_kinds c [EntryKindInstance, EntryKindCode, EntryKindData] of
          Some e \<Rightarrow> Some e
        | None \<Rightarrow>
            (case ParseLogLevel (cfg_LogLevel c) of
               Inl e \<Rightarrow> Some e
             | Inr _ \<Rightarrow>
                 (case ParseLogFormat (cfg_LogFormat c) of
                    Inl e \<Rightarrow> Some e
                  | Inr _ \<Rightarrow>
                      if cfg_APIToken c \<noteq> [] \<and> length (cfg_APIToken c) < MinAPITokenLength
                        then Some (APITokenTooShort (length (cfg_APIToken c)))
                      else if cfg_SoroVaultURL c \<noteq> [] \<and> \<not> http_scheme (cfg_SoroVaultURL c)
                        then Some (SoroVaultURLScheme (cfg_SoroVaultURL c))
                      else None)))"

section \<open>What validation establishes\<close>

text \<open>
  \<open>usable\<close> is what the rest of the program relies on: the thresholds of \<^emph>\<open>every\<close> kind of entry,
  those without an override of their own included, leave the warning band in order.
\<close>

definition usable :: "(string \<Rightarrow> bool) \<Rightarrow> config \<Rightarrow> bool" where
  "usable valid_key c \<longleftrightarrow>
     (cfg_TLSCert c = [] \<longleftrightarrow> cfg_TLSKey c = []) \<and>
     0 < cfg_RateLimitPerMinute c \<and> 0 < cfg_RateLimitBurst c \<and>
     http_scheme (cfg_RPCURL c) \<and> cfg_NetworkPassphrase c \<noteq> [] \<and> valid_key (cfg_SourceAccount c) \<and>
     0 < sint (cfg_Timeout c) \<and> 0 \<le> sint (cfg_InspectCacheTTL c) \<and>
     (\<forall>kind. Critical (ResolveThresholds kind (global_thresholds c) (cfg_ThresholdOverrides c))
        \<le> Warn (ResolveThresholds kind (global_thresholds c) (cfg_ThresholdOverrides c))) \<and>
     isOk (ParseLogLevel (cfg_LogLevel c)) \<and> isOk (ParseLogFormat (cfg_LogFormat c)) \<and>
     (cfg_APIToken c \<noteq> [] \<longrightarrow> MinAPITokenLength \<le> length (cfg_APIToken c)) \<and>
     (cfg_SoroVaultURL c \<noteq> [] \<longrightarrow> http_scheme (cfg_SoroVaultURL c))"

lemma invalid_kinds_None:
  "invalid_kinds c kinds = None \<longleftrightarrow>
     (\<forall>kind \<in> set kinds. Critical (ResolveThresholds kind (global_thresholds c) (cfg_ThresholdOverrides c))
        \<le> Warn (ResolveThresholds kind (global_thresholds c) (cfg_ThresholdOverrides c)))"
  by (induction kinds) (auto simp: Let_def not_less)

lemma ResolveThresholds_other: "ResolveThresholds (EntryKindOther k) g ov = g"
  by (simp add: ResolveThresholds_def)

lemma kinds_cover:
  "(\<forall>kind. P kind) \<longleftrightarrow>
     P EntryKindInstance \<and> P EntryKindCode \<and> P EntryKindData \<and> (\<forall>k. P (EntryKindOther k))"
  by (metis entry_kind.exhaust)

lemma thresholds_ordered_iff:
  "(\<forall>kind. Critical (ResolveThresholds kind g ov) \<le> Warn (ResolveThresholds kind g ov)) \<longleftrightarrow>
     Critical g \<le> Warn g \<and>
     (\<forall>kind \<in> set [EntryKindInstance, EntryKindCode, EntryKindData].
        Critical (ResolveThresholds kind g ov) \<le> Warn (ResolveThresholds kind g ov))"
  by (simp add: kinds_cover [of "\<lambda>kind. Critical (ResolveThresholds kind g ov) \<le> Warn (ResolveThresholds kind g ov)"]
      ResolveThresholds_other) blast

lemma http_scheme_nonempty: "http_scheme u \<Longrightarrow> u \<noteq> []"
  by (auto simp: http_scheme_def)

text \<open>
  Validation accepts exactly the usable settings: TLS certificate and key together, positive
  rate limits and time-out, well-formed URLs, a public source account, an API token that is long
  enough, known log settings, and for every kind of entry a critical threshold within the warning
  one.
\<close>

lemma validate_iff: "Validate valid_key c = None \<longleftrightarrow> usable valid_key c"
proof -
  have ok: "isOk r \<longleftrightarrow> (\<exists>x. r = Inr x)" for r :: "(config_invalid, 'a) result"
    by (cases r) (simp_all add: isOk_def)
  show ?thesis
    unfolding usable_def thresholds_ordered_iff invalid_kinds_None [symmetric] ok
    by (auto simp: Validate_def global_thresholds_def word_sless_alt word_sle_eq word_gt_0
        not_le not_less http_scheme_nonempty split: option.splits sum.splits if_splits)
qed

end
