(* ===== verification/Config_Layers.thy ===== *)
theory Config_Layers
  imports Config
begin

text \<open>
  What loading the settings amounts to: a choice of layer for each of them. \<open>succeeds\<close> is a small
  calculus for the statements of \<open>Config\<close> that write and may fail; with it the file and the
  environment are each one simultaneous write, and \<open>resolve\<close> is what they add up to.
\<close>

section \<open>Layers\<close>

text \<open>
  The specification of loading: the value of a setting is that of the highest layer which has
  one, else the default. Texts of durations and environment variables count by what they parse to.
\<close>

fun pick :: "'a option list \<Rightarrow> 'a \<Rightarrow> 'a" where
  "pick [] d = d"
| "pick (None # xs) d = pick xs d"
| "pick (Some x # xs) d = x"

definition env_u32 :: "platform \<Rightarrow> string \<Rightarrow> u32 option" where
  "env_u32 pf key = Option.bind (lookup pf key) (\<lambda>v. map_option of_nat (parse_uint 32 v))"

definition env_override :: "u32 option \<Rightarrow> u32 option \<Rightarrow> threshold_override option \<Rightarrow> threshold_override option"
  where
  "env_override w c ov =
     (if w = None \<and> c = None then ov
      else let o0 = set_value no_override ov in
        Some \<lparr>ov_Warn = (case w of None \<Rightarrow> ov_Warn o0 | Some n \<Rightarrow> Some n),
              ov_Critical = (case c of None \<Rightarrow> ov_Critical o0 | Some n \<Rightarrow> Some n)\<rparr>)"

definition resolve_overrides :: "platform \<Rightarrow> threshold_overrides \<Rightarrow> threshold_overrides" where
  "resolve_overrides pf ov =
     \<lparr>ov_Instance = env_override (env_u32 pf ''INSTANCE_WARN_LEDGERS'')
        (env_u32 pf ''INSTANCE_CRITICAL_LEDGERS'') (ov_Instance ov),
      ov_Code = env_override (env_u32 pf ''CODE_WARN_LEDGERS'')
        (env_u32 pf ''CODE_CRITICAL_LEDGERS'') (ov_Code ov),
      ov_Data = env_override (env_u32 pf ''DATA_WARN_LEDGERS'')
        (env_u32 pf ''DATA_CRITICAL_LEDGERS'') (ov_Data ov)\<rparr>"

text \<open>\<open>vs\<close> are the keys of the file's layers, the profile before the top level.\<close>

definition resolve :: "platform \<Rightarrow> file_values list \<Rightarrow> config" where
  "resolve pf vs =
     \<lparr>cfg_RPCURL = pick (lookup pf ''RPC_URL'' # map fv_RPCURL vs) DefaultRPCURL,
      cfg_NetworkPassphrase =
        pick (lookup pf ''NETWORK_PASSPHRASE'' # map fv_NetworkPassphrase vs) DefaultNetworkPassphrase,
      cfg_SourceAccount =
        pick (lookup pf ''SOURCE_ACCOUNT'' # map fv_SourceAccount vs) DefaultSourceAccount,
      cfg_HTTPAddr = pick (lookup pf ''HTTP_ADDR'' # map fv_HTTPAddr vs) DefaultHTTPAddr,
      cfg_CORSOrigins = pick [map_option parse_origins (lookup pf ''CORS_ORIGINS'')] [],
      cfg_RateLimitPerMinute =
        pick (env_u32 pf ''HTTP_RATE_LIMIT_PER_MINUTE'' # map fv_RateLimitPerMinute vs)
          DefaultRateLimitPerMinute,
      cfg_RateLimitBurst =
        pick (env_u32 pf ''HTTP_RATE_LIMIT_BURST'' # map fv_RateLimitBurst vs) DefaultRateLimitBurst,
      cfg_TrustForwardedFor =
        pick (Option.bind (lookup pf ''HTTP_TRUST_FORWARDED_FOR'') parse_bool # map fv_TrustForwardedFor vs)
          False,
      cfg_TLSCert = pick (lookup pf ''HTTP_TLS_CERT'' # map fv_TLSCert vs) [],
      cfg_TLSKey = pick (lookup pf ''HTTP_TLS_KEY'' # map fv_TLSKey vs) [],
      cfg_LogLevel = pick (lookup pf ''LOG_LEVEL'' # map fv_LogLevel vs) DefaultLogLevel,
      cfg_LogFormat = pick (lookup pf ''LOG_FORMAT'' # map fv_LogFormat vs) DefaultLogFormat,
      cfg_Timeout =
        pick (map (\<lambda>v. Option.bind v parse_duration) (lookup pf ''RPC_TIMEOUT'' # map fv_Timeout vs))
          DefaultTimeout,
      cfg_WarnLedgers = pick (env_u32 pf ''WARN_LEDGERS'' # map fv_WarnLedgers vs) DefaultWarnLedgers,
      cfg_CriticalLedgers =
        pick (env_u32 pf ''CRITICAL_LEDGERS'' # map fv_CriticalLedgers vs) DefaultCriticalLedgers,
      cfg_ThresholdOverrides =
        resolve_overrides pf (pick (map fv_ThresholdOverrides vs) no_overrides),
      cfg_SoroVaultURL = pick (lookup pf ''SOROVAULT_URL'' # map fv_SoroVaultURL vs) [],
      cfg_InspectCacheTTL =
        pick (map (\<lambda>v. Option.bind v parse_duration)
          (lookup pf ''INSPECT_CACHE_TTL'' # map fv_InspectCacheTTL vs)) 0,
      cfg_APIToken = pick [lookup pf ''API_TOKEN''] [],
      cfg_BaseFee =
        pick (Option.bind (lookup pf ''BASE_FEE'') parse_int64 # map fv_BaseFee vs) cfg_DefaultBaseFee\<rparr>"

text \<open>The layers of the file that is read, \<open>None\<close> where reading it is an error.\<close>

definition file_layers :: "platform \<Rightarrow> string \<Rightarrow> string \<Rightarrow> file_values list option" where
  "file_layers pf path profileName =
     (let prof = profile_name pf profileName in
      case config_path pf path of
        (p, explicit) \<Rightarrow>
          if p = [] then (if prof = [] then Some [] else None)
          else case pf_read pf p of
              Inl NotExist \<Rightarrow> if explicit \<or> prof \<noteq> [] then None else Some []
            | Inl _ \<Rightarrow> None
            | Inr raw \<Rightarrow>
                (case unmarshalConfigFile pf p raw of
                   Inl _ \<Rightarrow> None
                 | Inr fc \<Rightarrow>
                     if prof = [] then Some [fc_Values fc]
                     else case map_of (fc_Profiles fc) prof of
                         Some (Some pfc) \<Rightarrow> Some [fc_Values pfc, fc_Values fc]
                       | _ \<Rightarrow> None))"

text \<open>Every text of a layer and of the environment that is parsed does parse.\<close>

definition parses :: "(string \<Rightarrow> 'a option) \<Rightarrow> string option \<Rightarrow> bool" where
  "parses f v \<longleftrightarrow> (case v of None \<Rightarrow> True | Some t \<Rightarrow> f t \<noteq> None)"

definition durations_parse :: "file_values \<Rightarrow> bool" where
  "durations_parse fv \<longleftrightarrow>
     parses parse_duration (fv_Timeout fv) \<and> parses parse_duration (fv_InspectCacheTTL fv)"

definition u32_keys :: "string list" where
  "u32_keys =
     [''HTTP_RATE_LIMIT_PER_MINUTE'', ''HTTP_RATE_LIMIT_BURST'', ''WARN_LEDGERS'', ''CRITICAL_LEDGERS'']"

definition override_u32_keys :: "string list" where
  "override_u32_keys =
     [''INSTANCE_WARN_LEDGERS'', ''INSTANCE_CRITICAL_LEDGERS'', ''CODE_WARN_LEDGERS'',
      ''CODE_CRITICAL_LEDGERS'', ''DATA_WARN_LEDGERS'', ''DATA_CRITICAL_LEDGERS'']"

definition env_parses :: "platform \<Rightarrow> bool" where
  "env_parses pf \<longleftrightarrow>
     list_all (\<lambda>k. parses (parse_uint 32) (lookup pf k)) (u32_keys @ override_u32_keys) \<and>
     parses parse_bool (lookup pf ''HTTP_TRUST_FORWARDED_FOR'') \<and>
     parses parse_duration (lookup pf ''RPC_TIMEOUT'') \<and>
     parses parse_duration (lookup pf ''INSPECT_CACHE_TTL'') \<and>
     parses parse_int64 (lookup pf ''BASE_FEE'')"


section \<open>A calculus of writing statements\<close>

text \<open>\<open>succeeds f c g\<close>: \<open>f\<close> returns no error exactly when \<open>c\<close>, and then its writes are \<open>g\<close>.\<close>

definition succeeds :: "('s \<Rightarrow> 's \<times> 'e option) \<Rightarrow> bool \<Rightarrow> ('s \<Rightarrow> 's) \<Rightarrow> bool" where
  "succeeds f c g \<longleftrightarrow> (\<forall>s. if c then f s = (g s, None) else snd (f s) \<noteq> None)"

definition overwrite :: "('a \<Rightarrow> 's \<Rightarrow> 's) \<Rightarrow> 'a option \<Rightarrow> 's \<Rightarrow> 's" where
  "overwrite upd v s = (case v of None \<Rightarrow> s | Some x \<Rightarrow> upd x s)"

named_theorems succeeds_rules

lemma succeeds_chain_Nil [succeeds_rules]: "succeeds (chain []) True (\<lambda>s. s)"
  by (simp add: succeeds_def)

lemma succeeds_chain_Cons [succeeds_rules]:
  assumes "succeeds f c g" "succeeds (chain fs) d h"
  shows "succeeds (chain (f # fs)) (c \<and> d) (\<lambda>s. h (g s))"
  unfolding succeeds_def
proof (intro allI)
  fix s
  show "if c \<and> d then chain (f # fs) s = (h (g s), None) else snd (chain (f # fs) s) \<noteq> None"
    using assms [unfolded succeeds_def, rule_format, of s] assms(2) [unfolded succeeds_def, rule_format, of "g s"]
    by (cases "f s"; cases "snd (f s)") (auto split: if_splits)
qed

lemma succeeds_always [succeeds_rules]: "succeeds (always f) True f"
  by (simp add: succeeds_def always_def)

lemma succeeds_parse_into [succeeds_rules]:
  "succeeds (parse_into p v e upd) (parses p v) (overwrite upd (Option.bind v p))"
  by (auto simp: succeeds_def parse_into_def parses_def overwrite_def split: option.splits)

lemma succeedsD: "succeeds f c g \<Longrightarrow> if c then f s = (g s, None) else snd (f s) \<noteq> None"
  unfolding succeeds_def by blast

lemma parses_map [simp]: "parses (\<lambda>v. map_option f (p v)) x = parses p x"
  by (auto simp: parses_def split: option.splits)

lemma succeeds_u32 [succeeds_rules]:
  "succeeds (setUint32FromEnv pf key upd) (parses (parse_uint 32) (lookup pf key))
     (overwrite upd (env_u32 pf key))"
  using succeeds_parse_into [of "\<lambda>v. map_option of_nat (parse_uint 32 v)" "lookup pf key" "ParseEnv key" upd]
  by (simp add: setUint32FromEnv_def env_u32_def)

lemma succeeds_int64 [succeeds_rules]:
  "succeeds (setInt64FromEnv pf key upd) (parses parse_int64 (lookup pf key))
     (overwrite upd (Option.bind (lookup pf key) parse_int64))"
  unfolding setInt64FromEnv_def by (rule succeeds_parse_into)

lemma succeeds_duration [succeeds_rules]:
  "succeeds (env_duration pf key upd) (parses parse_duration (lookup pf key))
     (overwrite upd (Option.bind (lookup pf key) parse_duration))"
  unfolding env_duration_def by (rule succeeds_parse_into)

lemma setString_pick: "setString d v = pick [v] d"
  by (simp add: setString_def split: option.split)

lemma set_value_pick: "set_value d v = pick [v] d"
  by (simp add: set_value_def split: option.split)

lemma pick_Cons: "pick (v # vs) d = pick [v] (pick vs d)"
  by (cases v) simp_all

section \<open>What each layer writes\<close>

definition file_writes :: "file_values \<Rightarrow> config \<Rightarrow> config" where
  "file_writes fv cfg =
     overwrite (\<lambda>d. cfg_InspectCacheTTL_update (\<lambda>_. d)) (Option.bind (fv_InspectCacheTTL fv) parse_duration)
       (overwrite (\<lambda>d. cfg_Timeout_update (\<lambda>_. d)) (Option.bind (fv_Timeout fv) parse_duration)
         (set_file_values fv (set_file_strings fv cfg)))"

lemma succeeds_applyValues:
  "succeeds (applyValues path fc) (durations_parse (fc_Values fc)) (file_writes (fc_Values fc))"
proof -
  have "succeeds (applyValues path fc)
     (True \<and> True \<and> parses parse_duration (fv_Timeout (fc_Values fc)) \<and>
      parses parse_duration (fv_InspectCacheTTL (fc_Values fc)) \<and> True)
     (file_writes (fc_Values fc))"
    unfolding applyValues_def Let_def file_writes_def by (intro succeeds_rules)
  then show ?thesis by (simp add: durations_parse_def)
qed

definition override_writes :: "platform \<Rightarrow> threshold_overrides \<Rightarrow> threshold_overrides" where
  "override_writes pf ov =
     fold (\<lambda>(kind, warn, critical) ov.
       overwrite (\<lambda>n. thresholdOverride kind (ov_Critical_update (\<lambda>_. Some n))) (env_u32 pf critical)
         (overwrite (\<lambda>n. thresholdOverride kind (ov_Warn_update (\<lambda>_. Some n))) (env_u32 pf warn) ov))
       override_keys ov"

lemma override_writes_resolve: "override_writes pf ov = resolve_overrides pf ov"
  by (simp add: override_writes_def override_keys_def resolve_overrides_def overwrite_def env_override_def
      no_override_def set_value_def Let_def split: option.split)

lemma list_all_True: "list_all P [] = True"
  by simp

lemma succeeds_overrides:
  "succeeds (applyThresholdOverrideEnv pf)
     (list_all (\<lambda>k. parses (parse_uint 32) (lookup pf k)) override_u32_keys) (resolve_overrides pf)"
proof -
  have "succeeds (applyThresholdOverrideEnv pf)
     (parses (parse_uint 32) (lookup pf ''INSTANCE_WARN_LEDGERS'') \<and>
      parses (parse_uint 32) (lookup pf ''INSTANCE_CRITICAL_LEDGERS'') \<and>
      parses (parse_uint 32) (lookup pf ''CODE_WARN_LEDGERS'') \<and>
      parses (parse_uint 32) (lookup pf ''CODE_CRITICAL_LEDGERS'') \<and>
      parses (parse_uint 32) (lookup pf ''DATA_WARN_LEDGERS'') \<and>
      parses (parse_uint 32) (lookup pf ''DATA_CRITICAL_LEDGERS'') \<and> True)
     (override_writes pf)"
    unfolding applyThresholdOverrideEnv_def override_writes_def override_keys_def
      list.map concat.simps prod.case append.simps fold.simps comp_apply id_apply
    by (intro succeeds_rules)
  then show ?thesis
    unfolding override_writes_resolve [abs_def] override_u32_keys_def list.pred_inject(2) list_all_True conj_assoc .
qed

lemma succeeds_override_field [succeeds_rules]:
  "succeeds (\<lambda>cfg. case applyThresholdOverrideEnv pf (cfg_ThresholdOverrides cfg) of
       (ov, e) \<Rightarrow> (cfg\<lparr>cfg_ThresholdOverrides := ov\<rparr>, e))
     (list_all (\<lambda>k. parses (parse_uint 32) (lookup pf k)) override_u32_keys)
     (\<lambda>cfg. cfg\<lparr>cfg_ThresholdOverrides := resolve_overrides pf (cfg_ThresholdOverrides cfg)\<rparr>)"
  unfolding succeeds_def
proof (intro allI)
  fix cfg
  show "if list_all (\<lambda>k. parses (parse_uint 32) (lookup pf k)) override_u32_keys
     then (case applyThresholdOverrideEnv pf (cfg_ThresholdOverrides cfg) of
       (ov, e) \<Rightarrow> (cfg\<lparr>cfg_ThresholdOverrides := ov\<rparr>, e)) =
         (cfg\<lparr>cfg_ThresholdOverrides := resolve_overrides pf (cfg_ThresholdOverrides cfg)\<rparr>, None)
     else snd (case applyThresholdOverrideEnv pf (cfg_ThresholdOverrides cfg) of
       (ov, e) \<Rightarrow> (cfg\<lparr>cfg_ThresholdOverrides := ov\<rparr>, e)) \<noteq> None"
    using succeedsD [OF succeeds_overrides, of pf "cfg_ThresholdOverrides cfg"]
    by (auto split: prod.splits if_splits)
qed

definition env_writes :: "platform \<Rightarrow> config \<Rightarrow> config" where
  "env_writes pf cfg =
     (\<lambda>cfg. cfg\<lparr>cfg_ThresholdOverrides := resolve_overrides pf (cfg_ThresholdOverrides cfg)\<rparr>)
      (overwrite (\<lambda>n. cfg_BaseFee_update (\<lambda>_. n)) (Option.bind (lookup pf ''BASE_FEE'') parse_int64)
       (overwrite (\<lambda>n. cfg_CriticalLedgers_update (\<lambda>_. n)) (env_u32 pf ''CRITICAL_LEDGERS'')
        (overwrite (\<lambda>n. cfg_WarnLedgers_update (\<lambda>_. n)) (env_u32 pf ''WARN_LEDGERS'')
         (overwrite (\<lambda>d. cfg_InspectCacheTTL_update (\<lambda>_. d))
           (Option.bind (lookup pf ''INSPECT_CACHE_TTL'') parse_duration)
          (overwrite (\<lambda>d. cfg_Timeout_update (\<lambda>_. d))
            (Option.bind (lookup pf ''RPC_TIMEOUT'') parse_duration)
           (env_strings2 pf (env_origins pf (env_tls pf
            (overwrite (\<lambda>b. cfg_TrustForwardedFor_update (\<lambda>_. b))
              (Option.bind (lookup pf ''HTTP_TRUST_FORWARDED_FOR'') parse_bool)
             (overwrite (\<lambda>n. cfg_RateLimitBurst_update (\<lambda>_. n)) (env_u32 pf ''HTTP_RATE_LIMIT_BURST'')
              (overwrite (\<lambda>n. cfg_RateLimitPerMinute_update (\<lambda>_. n))
                (env_u32 pf ''HTTP_RATE_LIMIT_PER_MINUTE'') (env_strings1 pf cfg))))))))))))"

lemmas succeeds_env_steps =
  succeeds_chain_Cons [OF succeeds_always
       succeeds_chain_Cons [OF succeeds_u32
       succeeds_chain_Cons [OF succeeds_u32
       succeeds_chain_Cons [OF succeeds_parse_into
       succeeds_chain_Cons [OF succeeds_always
       succeeds_chain_Cons [OF succeeds_always
       succeeds_chain_Cons [OF succeeds_always
       succeeds_chain_Cons [OF succeeds_duration
       succeeds_chain_Cons [OF succeeds_duration
       succeeds_chain_Cons [OF succeeds_u32
       succeeds_chain_Cons [OF succeeds_u32
       succeeds_chain_Cons [OF succeeds_int64
       succeeds_chain_Cons [OF succeeds_override_field
       succeeds_chain_Nil]]]]]]]]]]]]]

lemma succeeds_applyEnv: "succeeds (applyEnv pf) (env_parses pf) (env_writes pf)"
proof -
  have succ: "succeeds (applyEnv pf)
     (True \<and> parses (parse_uint 32) (lookup pf ''HTTP_RATE_LIMIT_PER_MINUTE'') \<and>
      parses (parse_uint 32) (lookup pf ''HTTP_RATE_LIMIT_BURST'') \<and>
      parses parse_bool (lookup pf ''HTTP_TRUST_FORWARDED_FOR'') \<and> True \<and> True \<and> True \<and>
      parses parse_duration (lookup pf ''RPC_TIMEOUT'') \<and>
      parses parse_duration (lookup pf ''INSPECT_CACHE_TTL'') \<and>
      parses (parse_uint 32) (lookup pf ''WARN_LEDGERS'') \<and>
      parses (parse_uint 32) (lookup pf ''CRITICAL_LEDGERS'') \<and>
      parses parse_int64 (lookup pf ''BASE_FEE'') \<and>
      list_all (\<lambda>k. parses (parse_uint 32) (lookup pf k)) override_u32_keys \<and> True)
     (env_writes pf)" (is "succeeds _ ?c _")
    unfolding applyEnv_def env_writes_def
    by (rule succeeds_env_steps)
  have "?c \<longleftrightarrow> env_parses pf"
    unfolding env_parses_def list_all_append u32_keys_def list.pred_inject(2) list_all_True by blast
  then show ?thesis using succ by (rule subst)
qed

section \<open>The layers compose\<close>

text \<open>Each writing of a field is the choice of a layer.\<close>

lemma overwrite_fields:
  fixes c :: config
  shows "overwrite (\<lambda>x. cfg_Timeout_update (\<lambda>_. x)) v0 c = c\<lparr>cfg_Timeout := pick [v0] (cfg_Timeout c)\<rparr>"
    and "overwrite (\<lambda>x. cfg_InspectCacheTTL_update (\<lambda>_. x)) v1 c = c\<lparr>cfg_InspectCacheTTL := pick [v1] (cfg_InspectCacheTTL c)\<rparr>"
    and "overwrite (\<lambda>x. cfg_RateLimitPerMinute_update (\<lambda>_. x)) v2 c = c\<lparr>cfg_RateLimitPerMinute := pick [v2] (cfg_RateLimitPerMinute c)\<rparr>"
    and "overwrite (\<lambda>x. cfg_RateLimitBurst_update (\<lambda>_. x)) v3 c = c\<lparr>cfg_RateLimitBurst := pick [v3] (cfg_RateLimitBurst c)\<rparr>"
    and "overwrite (\<lambda>x. cfg_TrustForwardedFor_update (\<lambda>_. x)) v4 c = c\<lparr>cfg_TrustForwardedFor := pick [v4] (cfg_TrustForwardedFor c)\<rparr>"
    and "overwrite (\<lambda>x. cfg_WarnLedgers_update (\<lambda>_. x)) v5 c = c\<lparr>cfg_WarnLedgers := pick [v5] (cfg_WarnLedgers c)\<rparr>"
    and "overwrite (\<lambda>x. cfg_CriticalLedgers_update (\<lambda>_. x)) v6 c = c\<lparr>cfg_CriticalLedgers := pick [v6] (cfg_CriticalLedgers c)\<rparr>"
    and "overwrite (\<lambda>x. cfg_BaseFee_update (\<lambda>_. x)) v7 c = c\<lparr>cfg_BaseFee := pick [v7] (cfg_BaseFee c)\<rparr>"
  by (simp_all add: overwrite_def split: option.split)

lemma file_writes_fields:
  "file_writes fv cfg =
     \<lparr>cfg_RPCURL = pick [fv_RPCURL fv] (cfg_RPCURL cfg),
      cfg_NetworkPassphrase = pick [fv_NetworkPassphrase fv] (cfg_NetworkPassphrase cfg),
      cfg_SourceAccount = pick [fv_SourceAccount fv] (cfg_SourceAccount cfg),
      cfg_HTTPAddr = pick [fv_HTTPAddr fv] (cfg_HTTPAddr cfg),
      cfg_CORSOrigins = cfg_CORSOrigins cfg,
      cfg_RateLimitPerMinute = pick [fv_RateLimitPerMinute fv] (cfg_RateLimitPerMinute cfg),
      cfg_RateLimitBurst = pick [fv_RateLimitBurst fv] (cfg_RateLimitBurst cfg),
      cfg_TrustForwardedFor = pick [fv_TrustForwardedFor fv] (cfg_TrustForwardedFor cfg),
      cfg_TLSCert = pick [fv_TLSCert fv] (cfg_TLSCert cfg),
      cfg_TLSKey = pick [fv_TLSKey fv] (cfg_TLSKey cfg),
      cfg_LogLevel = pick [fv_LogLevel fv] (cfg_LogLevel cfg),
      cfg_LogFormat = pick [fv_LogFormat fv] (cfg_LogFormat cfg),
      cfg_Timeout = pick [Option.bind (fv_Timeout fv) parse_duration] (cfg_Timeout cfg),
      cfg_WarnLedgers = pick [fv_WarnLedgers fv] (cfg_WarnLedgers cfg),
      cfg_CriticalLedgers = pick [fv_CriticalLedgers fv] (cfg_CriticalLedgers cfg),
      cfg_ThresholdOverrides = pick [fv_ThresholdOverrides fv] (cfg_ThresholdOverrides cfg),
      cfg_SoroVaultURL = pick [fv_SoroVaultURL fv] (cfg_SoroVaultURL cfg),
      cfg_InspectCacheTTL = pick [Option.bind (fv_InspectCacheTTL fv) parse_duration] (cfg_InspectCacheTTL cfg),
      cfg_APIToken = cfg_APIToken cfg,
      cfg_BaseFee = pick [fv_BaseFee fv] (cfg_BaseFee cfg)\<rparr>"
  by (simp add: file_writes_def overwrite_fields set_file_strings_def set_file_values_def setString_pick
      set_value_pick del: pick.simps)

lemma env_writes_fields:
  "env_writes pf cfg =
     \<lparr>cfg_RPCURL = pick [lookup pf ''RPC_URL''] (cfg_RPCURL cfg),
      cfg_NetworkPassphrase = pick [lookup pf ''NETWORK_PASSPHRASE''] (cfg_NetworkPassphrase cfg),
      cfg_SourceAccount = pick [lookup pf ''SOURCE_ACCOUNT''] (cfg_SourceAccount cfg),
      cfg_HTTPAddr = pick [lookup pf ''HTTP_ADDR''] (cfg_HTTPAddr cfg),
      cfg_CORSOrigins = pick [map_option parse_origins (lookup pf ''CORS_ORIGINS'')] (cfg_CORSOrigins cfg),
      cfg_RateLimitPerMinute = pick [env_u32 pf ''HTTP_RATE_LIMIT_PER_MINUTE''] (cfg_RateLimitPerMinute cfg),
      cfg_RateLimitBurst = pick [env_u32 pf ''HTTP_RATE_LIMIT_BURST''] (cfg_RateLimitBurst cfg),
      cfg_TrustForwardedFor =
        pick [Option.bind (lookup pf ''HTTP_TRUST_FORWARDED_FOR'') parse_bool] (cfg_TrustForwardedFor cfg),
      cfg_TLSCert = pick [lookup pf ''HTTP_TLS_CERT''] (cfg_TLSCert cfg),
      cfg_TLSKey = pick [lookup pf ''HTTP_TLS_KEY''] (cfg_TLSKey cfg),
      cfg_LogLevel = pick [lookup pf ''LOG_LEVEL''] (cfg_LogLevel cfg),
      cfg_LogFormat = pick [lookup pf ''LOG_FORMAT''] (cfg_LogFormat cfg),
      cfg_Timeout = pick [Option.bind (lookup pf ''RPC_TIMEOUT'') parse_duration] (cfg_Timeout cfg),
      cfg_WarnLedgers = pick [env_u32 pf ''WARN_LEDGERS''] (cfg_WarnLedgers cfg),
      cfg_CriticalLedgers = pick [env_u32 pf ''CRITICAL_LEDGERS''] (cfg_CriticalLedgers cfg),
      cfg_ThresholdOverrides = resolve_overrides pf (cfg_ThresholdOverrides cfg),
      cfg_SoroVaultURL = pick [lookup pf ''SOROVAULT_URL''] (cfg_SoroVaultURL cfg),
      cfg_InspectCacheTTL =
        pick [Option.bind (lookup pf ''INSPECT_CACHE_TTL'') parse_duration] (cfg_InspectCacheTTL cfg),
      cfg_APIToken = pick [lookup pf ''API_TOKEN''] (cfg_APIToken cfg),
      cfg_BaseFee = pick [Option.bind (lookup pf ''BASE_FEE'') parse_int64] (cfg_BaseFee cfg)\<rparr>"
proof -
  have org: "env_origins pf c = c\<lparr>cfg_CORSOrigins :=
      pick [map_option parse_origins (lookup pf ''CORS_ORIGINS'')] (cfg_CORSOrigins c)\<rparr>" for c
    by (cases "lookup pf ''CORS_ORIGINS''") (simp_all add: env_origins_def)
  show ?thesis
    unfolding env_writes_def org env_strings1_def env_strings2_def env_tls_def setString_pick
    by (simp add: overwrite_fields del: pick.simps)
qed

text \<open>The writes of the layers, the lowest first, end at the resolved settings.\<close>

lemma writes_resolve_0: "env_writes pf Default = resolve pf []"
  by (simp add: env_writes_fields Default_def resolve_def)

lemma writes_resolve_1: "env_writes pf (file_writes v Default) = resolve pf [v]"
  unfolding env_writes_fields file_writes_fields Default_def resolve_def list.map config.simps
  by (simp add: pick_Cons [of _ "[_]"] del: pick.simps)

lemma writes_resolve_2:
  "env_writes pf (file_writes w (file_writes v Default)) = resolve pf [w, v]"
  unfolding env_writes_fields file_writes_fields Default_def resolve_def list.map config.simps
  by (simp add: pick_Cons [of _ "_ # _"] del: pick.simps)

lemma chain_single: "chain [f] s = f s"
  by (auto split: prod.split option.split)

lemma chain_pair:
  "chain [f, g] s = (case f s of (t, None) \<Rightarrow> g t | (t, Some e) \<Rightarrow> (t, Some e))"
  by (auto split: prod.split option.split)

lemma chain_pair_error: "snd (f s) \<noteq> None \<Longrightarrow> snd (chain [f, g] s) \<noteq> None"
  by (auto split: prod.split option.split)

text \<open>The layers of a file that was decoded.\<close>

definition decoded_layers :: "file_config \<Rightarrow> string \<Rightarrow> file_values list option" where
  "decoded_layers fc prof =
     (if prof = [] then Some [fc_Values fc]
      else case map_of (fc_Profiles fc) prof of
          Some (Some pfc) \<Rightarrow> Some [fc_Values pfc, fc_Values fc]
        | _ \<Rightarrow> None)"

lemma select_profile_missing:
  "prof \<noteq> [] \<Longrightarrow> decoded_layers fc prof = None \<Longrightarrow> \<exists>e. select_profile p fc prof = Inl e"
  by (auto simp: decoded_layers_def select_profile_def Let_def split: option.splits)

lemma apply_decoded:
  assumes "pf_read pf p = Inr raw" "unmarshalConfigFile pf p raw = Inr fc"
  shows "case decoded_layers fc prof of
      None \<Rightarrow> snd (applyFileWithProfile pf p explicit prof c) \<noteq> None
    | Some vs \<Rightarrow>
        if list_all durations_parse vs
        then applyFileWithProfile pf p explicit prof c = (foldr file_writes vs c, None)
        else snd (applyFileWithProfile pf p explicit prof c) \<noteq> None"
proof -
  note file_ok = succeedsD [OF succeeds_applyValues]
  let ?second = "\<lambda>c. if prof = [] then (c, None)
     else case select_profile p fc prof of Inl e \<Rightarrow> (c, Some e) | Inr pfc \<Rightarrow> applyValues p pfc c"
  have whole: "applyFileWithProfile pf p explicit prof c = chain [applyValues p fc, ?second] c"
    using assms by (simp add: applyFileWithProfile_def)
  show ?thesis
  proof (cases "durations_parse (fc_Values fc)")
    case False
    then have "snd (applyValues p fc c) \<noteq> None" using file_ok [of fc p c] by simp
    then have "snd (applyFileWithProfile pf p explicit prof c) \<noteq> None"
      unfolding whole by (rule chain_pair_error)
    then show ?thesis using False by (auto simp: decoded_layers_def split: option.split)
  next
    case True
    let ?t = "file_writes (fc_Values fc) c"
    have top: "applyFileWithProfile pf p explicit prof c = ?second ?t"
      unfolding whole chain_pair using file_ok [of fc p c] True by simp
    show ?thesis
    proof (cases "decoded_layers fc prof")
      case None
      then show ?thesis
        using select_profile_missing [of prof fc p] by (auto simp: top decoded_layers_def)
    next
      case (Some vs)
      then consider "prof = []" "vs = [fc_Values fc]"
        | pfc where "prof \<noteq> []" "map_of (fc_Profiles fc) prof = Some (Some pfc)"
            "vs = [fc_Values pfc, fc_Values fc]"
        by (auto simp: decoded_layers_def split: if_splits option.splits)
      then show ?thesis
      proof cases
        case 1
        then show ?thesis using True Some top by simp
      next
        case 2
        then show ?thesis
          using file_ok [of pfc p ?t] True Some top by (auto simp: select_profile_def)
      qed
    qed
  qed
qed

lemma writes_resolve:
  "decoded_layers fc prof = Some vs \<Longrightarrow> env_writes pf (foldr file_writes vs Default) = resolve pf vs"
  by (auto simp: decoded_layers_def writes_resolve_1 writes_resolve_2 split: if_splits option.splits)

section \<open>Properties\<close>

text \<open>
  Loading the settings succeeds exactly when the file can be read, the profile asked for
  exists, and every duration of the layers used and every number and flag of the environment
  parses; and then each setting is that of the highest layer that has it: the environment, the
  profile, the top level of the file, the default. In particular the API token and the CORS
  origins come from the environment only, whatever the file says, and a profile's table of
  thresholds replaces the file's table as a whole.
\<close>

lemma load_layers:
  "case file_layers pf path profile of
     None \<Rightarrow> snd (LoadWithProfile pf path profile) \<noteq> None
   | Some vs \<Rightarrow>
       if list_all durations_parse vs \<and> env_parses pf
       then LoadWithProfile pf path profile = (resolve pf vs, None)
       else snd (LoadWithProfile pf path profile) \<noteq> None"
proof -
  note env_ok = succeedsD [OF succeeds_applyEnv]
  obtain p explicit where p: "config_path pf path = (p, explicit)" by fastforce
  let ?prof = "profile_name pf profile"
  show ?thesis
  proof (cases "p = []")
    case True
    then show ?thesis
      using env_ok [of pf Default] by (auto simp: LoadWithProfile_def file_layers_def p Let_def writes_resolve_0)
  next
    case named: False
    have load: "LoadWithProfile pf path profile =
        chain [applyFileWithProfile pf p explicit ?prof, applyEnv pf] Default"
      using named by (simp add: LoadWithProfile_def p)
    show ?thesis
    proof (cases "\<exists>raw fc. pf_read pf p = Inr raw \<and> unmarshalConfigFile pf p raw = Inr fc")
      case False
      then show ?thesis
        using env_ok [of pf Default] named unfolding load chain_pair
        by (auto simp: file_layers_def p Let_def applyFileWithProfile_def writes_resolve_0
            split: sum.split read_error.split)
    next
      case True
      then obtain raw fc where fc: "pf_read pf p = Inr raw" "unmarshalConfigFile pf p raw = Inr fc" by blast
      have layers: "file_layers pf path profile = decoded_layers fc ?prof"
        using named fc by (simp add: file_layers_def p Let_def decoded_layers_def)
      show ?thesis
        using apply_decoded [OF fc, where prof = ?prof and explicit = explicit and c = Default]
          env_ok [of pf "foldr file_writes (the (decoded_layers fc ?prof)) Default"]
          writes_resolve [where fc = fc and prof = ?prof and pf = pf]
        unfolding layers load chain_pair
        by (auto split: option.splits prod.splits if_splits)
    qed
  qed
qed

end
