(* ===== verification/Rate_Limit.thy ===== *)
theory Rate_Limit
  imports Health "HOL-Library.AList"
begin

text \<open>
  The rate limiter of the HTTP API, \<^verbatim>\<open>takeTokens\<close> and \<^verbatim>\<open>evictOldestClient\<close> of
  \<^verbatim>\<open>internal/api/api.go\<close>: a token bucket in floating point for each client address. The table of
  clients is an association list in the order the map iteration visits it; nothing depends on
  that order. The first section bounds the error of a rounded operation, which the guarantees on
  waiting rest on.
\<close>

section \<open>Errors of rounding\<close>

lemma rne_error: "\<bar>of_int (rne y) - y\<bar> \<le> 1 / 2"
proof -
  define r where "r = y - of_int \<lfloor>y\<rfloor>"
  have r: "0 \<le> r" "r < 1" unfolding r_def by linarith+
  have y: "y = of_int \<lfloor>y\<rfloor> + r" by (simp add: r_def)
  have "rne y = \<lfloor>y\<rfloor> \<and> r \<le> 1 / 2 \<or> rne y = \<lfloor>y\<rfloor> + 1 \<and> 1 / 2 \<le> r"
    unfolding rne_def Let_def r_def [symmetric] by (simp split: if_splits)
  then show ?thesis
  proof
    assume "rne y = \<lfloor>y\<rfloor> \<and> r \<le> 1 / 2"
    then have "of_int (rne y) - y = - r" "r \<le> 1 / 2" using y by auto
    then show ?thesis using r by simp
  next
    assume "rne y = \<lfloor>y\<rfloor> + 1 \<and> 1 / 2 \<le> r"
    then have "of_int (rne y) - y = 1 - r" "1 / 2 \<le> r" using y by auto
    then show ?thesis using r by simp
  qed
qed

lemma quantum_le: "0 < a \<Longrightarrow> a \<le> 2 ^ k \<Longrightarrow> quantum a \<le> max (int k - 52) (- 1074)"
proof -
  assume a: "0 < a" "a \<le> 2 ^ k"
  then have "(2 :: rat) powi ilog2 a \<le> 2 powi int k"
    using ilog2_bounds(1) [OF a(1)] by simp
  then have "ilog2 a \<le> int k" using powi_two_less_iff [of "int k" "ilog2 a"] by linarith
  then show ?thesis by (simp add: quantum_def)
qed

lemma round_mag_error_quantum: "\<bar>round_mag a - a\<bar> \<le> 2 powi quantum a / 2"
proof -
  let ?u = "(2 :: rat) powi quantum a"
  have "round_mag a - a = (of_int (rne (a / ?u)) - a / ?u) * ?u"
    by (simp add: round_mag_def left_diff_distrib)
  then have "\<bar>round_mag a - a\<bar> = \<bar>of_int (rne (a / ?u)) - a / ?u\<bar> * ?u"
    by (simp add: abs_mult)
  also have "\<dots> \<le> 1 / 2 * ?u" by (intro mult_right_mono rne_error) (simp add: less_imp_le)
  finally show ?thesis by simp
qed

lemma round_mag_error:
  assumes "0 < a" "a \<le> 2 ^ k"
  shows "\<bar>round_mag a - a\<bar> \<le> 2 ^ k / 2 ^ 53"
proof -
  have "(2 :: rat) powi quantum a \<le> 2 powi (int k - 52)"
    using quantum_le [OF assms] by (intro powi_two_mono) simp
  also have "\<dots> = 2 ^ k / 2 ^ 52" by (simp add: power_int_diff)
  finally show ?thesis using round_mag_error_quantum [of a] by simp
qed

lemma fl_error:
  assumes "\<bar>x\<bar> \<le> 2 ^ k" "k \<le> 1000"
  obtains y where "fl x = Fin y" "\<bar>y - x\<bar> \<le> 2 ^ k / 2 ^ 53"
proof -
  have "(2 :: rat) ^ k \<le> 2 ^ 1000" using assms(2) by (intro power_increasing) simp_all
  then obtain y where y: "fl x = Fin y" using fl_finite [of x] assms(1) by auto
  have "\<bar>y - x\<bar> \<le> 2 ^ k / 2 ^ 53"
  proof (cases "x = 0")
    case False
    have err: "\<bar>round_mag \<bar>x\<bar> - \<bar>x\<bar>\<bar> \<le> 2 ^ k / 2 ^ 53" using False assms by (intro round_mag_error) simp_all
    have "y = (if 0 < x then round_mag \<bar>x\<bar> else - round_mag \<bar>x\<bar>)"
      using y False by (auto simp: fl_def Let_def split: if_splits)
    then show ?thesis using err by (cases "0 < x") (auto simp: abs_if split: if_splits)
  qed (use y in simp)
  then show ?thesis using y that by blast
qed

text \<open>A number that is not tiny keeps at least half of itself.\<close>

lemma fl_half:
  assumes "1 / 2 ^ 100 \<le> x" "x \<le> 2 ^ 1000"
  obtains y where "fl x = Fin y" "x / 2 \<le> y"
proof -
  have x: "0 < x" using assms(1) by (rule less_le_trans [rotated]) simp
  obtain y where y: "fl x = Fin y" using fl_finite [of x] assms x by auto
  have "(2 :: rat) powi (- 100) \<le> x" using assms(1) by (simp add: power_int_minus field_simps)
  then have "(2 :: rat) powi (- 100) < 2 powi (ilog2 x + 1)" using ilog2_bounds(2) [OF x] by linarith
  then have "- 100 < ilog2 x + 1" by (simp only: powi_two_less_iff)
  then have q: "quantum x = ilog2 x - 52" by (simp add: quantum_def)
  have "(2 :: rat) powi quantum x = 2 powi ilog2 x / 2 ^ 52" unfolding q by (simp add: power_int_diff)
  also have "\<dots> \<le> x / 2 ^ 52" using ilog2_bounds(1) [OF x] by (intro divide_right_mono) simp_all
  finally have "2 powi quantum x / 2 \<le> x / 2" using x by simp
  moreover have "x - round_mag x \<le> \<bar>round_mag x - x\<bar>" by simp
  ultimately have "x / 2 \<le> round_mag x" using round_mag_error_quantum [of x] by linarith
  moreover have "y = round_mag x" using y x by (auto simp: fl_def Let_def split: if_splits)
  ultimately show ?thesis using y that by simp
qed

text \<open>Below an integer a rounded number stays a visible distance away.\<close>

definition coarse :: "rat \<Rightarrow> bool" where
  "coarse t \<longleftrightarrow> t \<le> 1 / 2 \<or> (\<exists>k. t * 2 ^ 54 = of_int k)"

lemma coarse_of_int [simp]: "coarse (of_int n)"
  unfolding coarse_def by (intro disjI2 exI [of _ "n * 2 ^ 54"]) simp

lemma coarse_of_nat [simp]: "coarse (of_nat n)"
  using coarse_of_int [of "int n"] by simp

lemma fl_coarse:
  assumes "fl x = Fin t"
  shows "coarse t"
proof (cases "1 / 2 < t")
  case True
  then have x: "0 < x" and t: "t = round_mag x"
    using assms round_mag_nonneg [of "\<bar>x\<bar>"] by (auto simp: fl_def Let_def split: if_splits)
  let ?m = "rne (x / 2 powi quantum x)"
  have m: "?m \<le> 2 ^ 53" using x by (rule rne_le_pow)
  have "(1 :: rat) / 2 < of_int ?m * 2 powi quantum x" using True t by (simp add: round_mag_def)
  also have "\<dots> \<le> of_int (2 ^ 53) * 2 powi quantum x"
    using m by (intro mult_right_mono) (simp_all only: of_int_le_iff, simp add: less_imp_le)
  finally have "(2 :: rat) powi (- 54) < 2 powi quantum x" by (simp add: power_int_minus field_simps)
  then have q: "- 54 < quantum x" by (simp only: powi_two_less_iff)
  have "(2 :: rat) powi quantum x * 2 ^ 54 = 2 powi (quantum x + 54)" by (simp add: power_int_add)
  also have "\<dots> = of_int (2 ^ nat (quantum x + 54))" using q by (simp add: power_int_def)
  finally have "t * 2 ^ 54 = of_int (?m * 2 ^ nat (quantum x + 54))"
    by (simp add: t round_mag_def mult.assoc)
  then show ?thesis unfolding coarse_def by blast
qed (simp add: coarse_def)

lemma coarse_gap:
  assumes "coarse t" "t < of_nat n" "1 \<le> n"
  shows "t \<le> of_nat n - 1 / 2 ^ 54"
proof (cases "t \<le> 1 / 2")
  case True
  have "(1 :: rat) \<le> of_nat n" using assms(3) by simp
  then show ?thesis using True by (simp add: field_simps)
next
  case False
  then obtain k where k: "t * 2 ^ 54 = of_int k" using assms(1) by (auto simp: coarse_def)
  have "of_int k < (of_int (int n * 2 ^ 54) :: rat)" using assms(2) k [symmetric] by simp
  then have "k + 1 \<le> int n * 2 ^ 54" by (simp only: of_int_less_iff)
  then have "of_int (k + 1) \<le> (of_int (int n * 2 ^ 54) :: rat)" by (simp only: of_int_le_iff)
  then have "t * 2 ^ 54 + 1 \<le> of_nat n * 2 ^ 54" using k by simp
  then show ?thesis by (simp add: field_simps)
qed

section \<open>Floating point operations of the limiter\<close>

text \<open>\<^verbatim>\<open>math.Min\<close> and \<^verbatim>\<open>math.Ceil\<close>.\<close>

fun fmin :: "f64 \<Rightarrow> f64 \<Rightarrow> f64" where
  "fmin x y =
     (if x = NInf \<or> y = NInf then NInf else if x = NaN \<or> y = NaN then NaN
      else if flt x y then x else y)"

fun fceil :: "f64 \<Rightarrow> f64" where
  "fceil (Fin r) = Fin (of_int \<lceil>r\<rceil>)"
| "fceil x = x"

section \<open>The limiter\<close>

definition maxRateLimitClients :: nat where "maxRateLimitClients = 10000"

record client_bucket =
  cb_tokens :: f64
  cb_capacity :: f64
  cb_updatedAt :: instant
  cb_seenAt :: instant

record limiter =
  rl_ratePerSecond :: f64
  rl_rateBurst :: f64
  rl_clients :: "(string \<times> client_bucket) list"

text \<open>The fields of the server that \<^verbatim>\<open>api.New\<close> sets for the limiter.\<close>

definition new_limiter :: "u32 \<Rightarrow> u32 \<Rightarrow> limiter" where
  "new_limiter perMinute burst =
     \<lparr>rl_ratePerSecond = fdiv (f_of_int (uint perMinute)) (Fin 60),
      rl_rateBurst = f_of_int (uint burst), rl_clients = []\<rparr>"

fun oldest_client :: "string \<Rightarrow> instant \<Rightarrow> (string \<times> client_bucket) list \<Rightarrow> string" where
  "oldest_client k t [] = k"
| "oldest_client k t ((key, b) # bs) =
     (if k = [] \<or> cb_seenAt b < t then oldest_client key (cb_seenAt b) bs else oldest_client k t bs)"

definition evictOldestClient :: "(string \<times> client_bucket) list \<Rightarrow> (string \<times> client_bucket) list" where
  "evictOldestClient clients = AList.delete (oldest_client [] 0 clients) clients"

text \<open>The bucket of a client, made when there is none, and the table it is in.\<close>

definition find_bucket ::
    "limiter \<Rightarrow> string \<Rightarrow> instant \<Rightarrow> client_bucket \<times> (string \<times> client_bucket) list" where
  "find_bucket lm client t =
     (case map_of (rl_clients lm) client of
        Some b \<Rightarrow> (b, rl_clients lm)
      | None \<Rightarrow>
          let clients = (if maxRateLimitClients \<le> length (rl_clients lm)
                then evictOldestClient (rl_clients lm) else rl_clients lm);
              b = \<lparr>cb_tokens = rl_rateBurst lm, cb_capacity = rl_rateBurst lm,
                   cb_updatedAt = t, cb_seenAt = t\<rparr>
          in (b, AList.update client b clients))"

definition refill :: "limiter \<Rightarrow> instant \<Rightarrow> client_bucket \<Rightarrow> client_bucket" where
  "refill lm t b = b
     \<lparr>cb_tokens := fmin (cb_capacity b)
        (fadd (cb_tokens b)
          (fmul (duration_in second (time_sub t (cb_updatedAt b))) (rl_ratePerSecond lm))),
      cb_updatedAt := t, cb_seenAt := t\<rparr>"

definition takeTokens :: "string \<Rightarrow> f64 \<Rightarrow> instant \<Rightarrow> limiter \<Rightarrow> int \<times> limiter" where
  "takeTokens client cost t lm =
     (case find_bucket lm client t of
        (b0, clients) \<Rightarrow>
          let b1 = refill lm t b0;
              b2 = (if flt (cb_capacity b1) cost then b1\<lparr>cb_capacity := cost\<rparr> else b1)
          in if flt (cb_tokens b2) cost
             then (f_to_int (fceil (fdiv (fsub cost (cb_tokens b2)) (rl_ratePerSecond lm))),
                   lm\<lparr>rl_clients := AList.update client b2 clients\<rparr>)
             else (0, lm\<lparr>rl_clients := AList.update client
                     (b2\<lparr>cb_tokens := fsub (cb_tokens b2) cost\<rparr>) clients\<rparr>))"

section \<open>The invariant\<close>

text \<open>
  Tokens lie between zero and the capacity, a capacity is at least the burst, no bucket is
  from the future, and the table holds each client once and no more than it may.
\<close>

definition rate_ok :: "f64 \<Rightarrow> bool" where
  "rate_ok r \<longleftrightarrow> (case r of Fin q \<Rightarrow> 1 / 120 \<le> q \<and> q \<le> 2 ^ 28 | _ \<Rightarrow> False)"

definition bucket_ok :: "nat \<Rightarrow> instant \<Rightarrow> client_bucket \<Rightarrow> bool" where
  "bucket_ok burst t b \<longleftrightarrow>
     (case (cb_tokens b, cb_capacity b) of
        (Fin tokens, Fin capacity) \<Rightarrow>
          0 \<le> tokens \<and> tokens \<le> capacity \<and> coarse tokens \<and> of_nat burst \<le> capacity \<and>
          (\<exists>n \<le> 2 ^ 32. capacity = of_nat n)
      | _ \<Rightarrow> False) \<and> cb_updatedAt b \<le> t"

definition limiter_inv :: "nat \<Rightarrow> instant \<Rightarrow> limiter \<Rightarrow> bool" where
  "limiter_inv burst t lm \<longleftrightarrow>
     rate_ok (rl_ratePerSecond lm) \<and> rl_rateBurst lm = Fin (of_nat burst) \<and> burst \<le> 2 ^ 32 \<and>
     distinct (map fst (rl_clients lm)) \<and> length (rl_clients lm) \<le> maxRateLimitClients \<and>
     (\<forall>(k, b) \<in> set (rl_clients lm). bucket_ok burst t b)"

section \<open>Table lemmas\<close>

lemma oldest_client_in: "oldest_client k t bs \<in> insert k (fst ` set bs)"
  by (induction k t bs rule: oldest_client.induct) auto

lemma oldest_client_key:
  assumes "bs \<noteq> []"
  shows "oldest_client [] t bs \<in> fst ` set bs"
proof -
  obtain k b cs where bs: "bs = (k, b) # cs" using assms by (cases bs) auto
  then have "oldest_client [] t bs = oldest_client k (cb_seenAt b) cs" by simp
  also have "\<dots> \<in> insert k (fst ` set cs)" by (rule oldest_client_in)
  finally show ?thesis by (simp add: bs)
qed

lemma length_delete_present:
  "distinct (map fst bs) \<Longrightarrow> k \<in> fst ` set bs \<Longrightarrow> length (AList.delete k bs) = length bs - 1"
proof (induction bs)
  case (Cons p bs)
  show ?case
  proof (cases "fst p = k")
    case True
    with Cons.prems have "k \<notin> fst ` set bs" by auto
    then have "AList.delete k bs = bs"
      unfolding AList.delete_eq filter_id_conv by force
    with True show ?thesis by (simp add: AList.delete_simps)
  next
    case False
    with Cons.prems have "k \<in> fst ` set bs" "bs \<noteq> []" by auto
    then have "length (AList.delete k bs) = length bs - 1" using Cons.IH Cons.prems by simp
    then show ?thesis using False \<open>bs \<noteq> []\<close> by (cases bs) (simp_all add: AList.delete_simps)
  qed
qed simp

lemma length_update: "length (AList.update k v bs) = length bs + (if k \<in> fst ` set bs then 0 else 1)"
  by (induction bs) auto

lemma in_update: "p \<in> set (AList.update k v bs) \<Longrightarrow> p = (k, v) \<or> p \<in> set bs"
  by (induction bs) (auto split: if_splits)

lemma in_delete: "p \<in> set (AList.delete k bs) \<Longrightarrow> p \<in> set bs"
  by (simp add: AList.delete_eq)

section \<open>Steps of the limiter\<close>

lemma flt_Fin [simp]: "flt (Fin a) (Fin b) \<longleftrightarrow> a < b"
  by (auto simp: flt_def)

lemma fle_Fin_left: "fle (Fin a) x \<Longrightarrow> x = PInf \<or> (\<exists>b. x = Fin b \<and> a \<le> b)"
  by (cases x) auto

lemma bucket_okE:
  assumes "bucket_ok burst t b"
  obtains tokens n where "cb_tokens b = Fin tokens" "cb_capacity b = Fin (of_nat n)"
    "0 \<le> tokens" "tokens \<le> of_nat n" "coarse tokens" "burst \<le> n" "n \<le> 2 ^ 32" "cb_updatedAt b \<le> t"
  using assms by (auto simp: bucket_ok_def split: f64.splits)

lemma rate_okE:
  assumes "rate_ok r"
  obtains q where "r = Fin q" "1 / 120 \<le> q" "q \<le> 2 ^ 28"
  using assms by (auto simp: rate_ok_def split: f64.splits)

text \<open>The elapsed seconds are at least the whole ones.\<close>

lemma quot64_second:
  assumes "0 \<le> sint d"
  shows "sint (quot64 d second) = sint d div 1000000000"
proof -
  have s: "sint second = 1000000000" by (simp add: second_def)
  have q: "sgn (sint d) * sgn 1000000000 * (\<bar>sint d\<bar> div \<bar>1000000000\<bar>) = sint d div 1000000000"
    using assms by (cases "sint d = 0") (simp_all add: sgn_if)
  have "0 \<le> sint d div 1000000000" "sint d div 1000000000 < 9223372036854775808"
    using assms sint_64_range [of d] zdiv_mono2 [of "sint d" 1 1000000000] by simp_all
  then show ?thesis unfolding quot64_def s q by (simp add: sint_64_of_int_eq)
qed

lemma fl_between:
  assumes "of_int m \<le> x" "x \<le> of_int n" "\<bar>m\<bar> \<le> 2 ^ 53" "\<bar>n\<bar> \<le> 2 ^ 53"
  obtains y where "fl x = Fin y" "of_int m \<le> y" "y \<le> of_int n"
proof -
  have "fle (Fin (of_int m)) (fl x)" "fle (fl x) (Fin (of_int n))"
    using fl_mono [OF assms(1)] fl_mono [OF assms(2)] assms(3,4) by (simp_all add: fl_of_int)
  then show ?thesis using that by (cases "fl x") auto
qed

lemma seconds_elapsed:
  assumes "0 \<le> sint d"
  obtains s where "duration_in second d = Fin s" "of_int (sint d div 1000000000) \<le> s" "s \<le> 2 ^ 53"
proof -
  let ?w = "sint d div 1000000000" and ?m = "sint d mod 1000000000"
  have w: "0 \<le> ?w" "?w \<le> 9223372036" using assms sint_64_range [of d] by (simp_all add: pos_imp_zdiv_nonneg_iff)
  have s: "sint second = 1000000000" by (simp add: second_def)
  have rest: "sint (d - quot64 d second * second) = ?m"
  proof -
    have "quot64 d second = word_of_int ?w" by (simp flip: quot64_second [OF assms])
    then have "d - quot64 d second * second = word_of_int (sint d - ?w * 1000000000)"
      by (simp add: second_def flip: wi_hom_sub wi_hom_mult)
    also have "sint d - ?w * 1000000000 = ?m" by (simp add: minus_div_mult_eq_mod)
    finally show ?thesis by (simp add: sint_64_of_int_eq pos_mod_bound)
  qed
  have m: "0 \<le> ?m" "?m < 1000000000" by simp_all
  have whole: "f_of_int ?w = Fin (of_int ?w)" using w by (intro f_of_int_exact) simp
  have parts: "f_of_int ?m = Fin (of_int ?m)" "f_of_int 1000000000 = Fin 1000000000"
    using m f_of_int_exact [of ?m] f_of_int_exact [of 1000000000] by simp_all
  have "0 \<le> (of_int ?m :: rat) / 1000000000" "(of_int ?m :: rat) / 1000000000 \<le> 1"
    using m by (simp_all add: divide_le_eq)
  then obtain x where x: "fl (of_int ?m / 1000000000) = Fin x" "0 \<le> x" "x \<le> 1"
    using fl_between [of 0 "of_int ?m / 1000000000" 1] by auto
  have "of_int ?w \<le> of_int ?w + x" "of_int ?w + x \<le> of_int (?w + 1)" using x by simp_all
  then obtain y where "fl (of_int ?w + x) = Fin y" "of_int ?w \<le> y" "y \<le> of_int (?w + 1)"
    by (rule fl_between) (use w in simp_all)
  moreover have "(of_int (?w + 1) :: rat) \<le> of_int (2 ^ 53)" using w by (subst of_int_le_iff) simp
  ultimately show ?thesis
    using that [of y] whole parts x
    by (simp add: duration_in_def Let_def rest quot64_second [OF assms] s)
qed

lemma time_sub_elapsed: "b \<le> a \<Longrightarrow> 0 \<le> sint (time_sub a b)"
  "b \<le> a \<Longrightarrow> k \<le> a - b \<Longrightarrow> k \<le> max_i64 \<Longrightarrow> k \<le> sint (time_sub a b)"
  unfolding time_sub_def by (simp_all add: sint_64_of_int_eq max_i64_def min_i64_def)

text \<open>
  A refill adds the elapsed seconds times the rate, rounded, and stops at the capacity.
\<close>

lemma refill_tokens:
  assumes r: "rl_ratePerSecond lm = Fin q" "1 / 120 \<le> q" "q \<le> 2 ^ 28"
    and b: "cb_tokens b = Fin tokens" "0 \<le> tokens" "tokens \<le> of_nat n" "cb_capacity b = Fin (of_nat n)"
      "n \<le> 2 ^ 32"
    and t: "cb_updatedAt b \<le> t"
  obtains e p y where "duration_in second (time_sub t (cb_updatedAt b)) = Fin e" "0 \<le> e"
    "of_int (sint (time_sub t (cb_updatedAt b)) div 1000000000) \<le> e"
    "fl (e * q) = Fin p" "fl (tokens + p) = Fin y" "0 \<le> y"
    "cb_tokens (refill lm t b) = Fin (min (of_nat n) y)"
proof -
  let ?d = "time_sub t (cb_updatedAt b)"
  have d: "0 \<le> sint ?d" by (rule time_sub_elapsed(1) [OF t])
  obtain e where e: "duration_in second ?d = Fin e" "of_int (sint ?d div 1000000000) \<le> e" "e \<le> 2 ^ 53"
    by (rule seconds_elapsed [OF d])
  have "(0 :: rat) \<le> of_int (sint ?d div 1000000000)" using d by (simp add: pos_imp_zdiv_nonneg_iff)
  then have e0: "0 \<le> e" using e(2) by linarith
  have q0: "0 \<le> q" using r(2) by (rule order_trans [rotated]) simp
  have "e * q \<le> 2 ^ 53 * 2 ^ 28" using e(3) r(3) e0 q0 by (intro mult_mono) simp_all
  then have "\<bar>e * q\<bar> \<le> 2 ^ 81" using e0 q0 by simp
  then obtain p where p: "fl (e * q) = Fin p" "\<bar>p - e * q\<bar> \<le> 2 ^ 81 / 2 ^ 53"
    by (rule fl_error) simp_all
  have p0: "0 \<le> p" using fl_nonneg [of "e * q"] e0 q0 p(1) by simp
  have "(of_nat n :: rat) \<le> of_nat (2 ^ 32)" using b(5) by (subst of_nat_le_iff)
  moreover have "p \<le> e * q + 2 ^ 81 / 2 ^ 53" using p(2) by (auto simp: abs_le_iff)
  ultimately have "\<bar>tokens + p\<bar> \<le> 2 ^ 90" using b(2,3) p0 \<open>e * q \<le> 2 ^ 53 * 2 ^ 28\<close> by simp
  then obtain y where y: "fl (tokens + p) = Fin y" "\<bar>y - (tokens + p)\<bar> \<le> 2 ^ 90 / 2 ^ 53"
    by (rule fl_error) simp_all
  have y0: "0 \<le> y" using fl_nonneg [of "tokens + p"] b(2) p0 y(1) by simp
  have "cb_tokens (refill lm t b) = Fin (min (of_nat n) y)"
    by (simp add: refill_def b(1,4) e(1) r(1) p(1) y(1) min_def not_less)
  then show ?thesis using that e e0 p(1) y(1) y0 by blast
qed

lemma bucket_ok_mono: "bucket_ok burst t b \<Longrightarrow> t \<le> t' \<Longrightarrow> bucket_ok burst t' b"
  by (auto simp: bucket_ok_def)

lemma bucket_ok_fresh:
  "burst \<le> 2 ^ 32 \<Longrightarrow> bucket_ok burst t
     \<lparr>cb_tokens = Fin (of_nat burst), cb_capacity = Fin (of_nat burst), cb_updatedAt = t, cb_seenAt = t\<rparr>"
  by (auto simp: bucket_ok_def)

definition table_ok :: "nat \<Rightarrow> instant \<Rightarrow> (string \<times> client_bucket) list \<Rightarrow> bool" where
  "table_ok burst t clients \<longleftrightarrow>
     distinct (map fst clients) \<and> length clients \<le> maxRateLimitClients \<and>
     (\<forall>(k, b) \<in> set clients. bucket_ok burst t b)"

lemma table_ok_mono: "table_ok burst t cs \<Longrightarrow> t \<le> t' \<Longrightarrow> table_ok burst t' cs"
  by (auto simp: table_ok_def intro: bucket_ok_mono)

lemma table_ok_replace:
  assumes "table_ok burst t cs" "bucket_ok burst t b" "k \<in> fst ` set cs"
  shows "table_ok burst t (AList.update k b cs)"
  using assms by (auto simp: table_ok_def length_update distinct_update dest!: in_update)

lemma evict_shorter:
  assumes "table_ok burst t cs" "maxRateLimitClients \<le> length cs"
  shows "table_ok burst t (evictOldestClient cs)" "length (evictOldestClient cs) < maxRateLimitClients"
proof -
  have "0 < maxRateLimitClients" by (simp add: maxRateLimitClients_def)
  then have "cs \<noteq> []" using assms(2) by auto
  then have "length (evictOldestClient cs) = length cs - 1"
    unfolding evictOldestClient_def using assms(1)
    by (intro length_delete_present oldest_client_key) (simp_all add: table_ok_def)
  moreover have "length cs \<le> maxRateLimitClients" using assms(1) by (simp add: table_ok_def)
  ultimately show "length (evictOldestClient cs) < maxRateLimitClients"
    using \<open>0 < maxRateLimitClients\<close> by linarith
  then show "table_ok burst t (evictOldestClient cs)"
    using assms(1) by (auto simp: table_ok_def evictOldestClient_def distinct_delete dest!: in_delete)
qed

lemma find_bucket_ok:
  assumes inv: "limiter_inv burst t lm" and t: "t \<le> t'" and f: "find_bucket lm client t' = (b, clients)"
  shows "bucket_ok burst t' b" "table_ok burst t' clients" "client \<in> fst ` set clients"
proof -
  have tab: "table_ok burst t' (rl_clients lm)"
    using inv t by (auto simp: limiter_inv_def table_ok_def intro: bucket_ok_mono)
  show "bucket_ok burst t' b" "table_ok burst t' clients" "client \<in> fst ` set clients"
  proof (atomize(full), cases "map_of (rl_clients lm) client")
    case (Some b')
    then have "(client, b') \<in> set (rl_clients lm)" by (rule map_of_SomeD)
    moreover have "b = b'" "clients = rl_clients lm" using f Some by (simp_all add: find_bucket_def)
    ultimately show "bucket_ok burst t' b \<and> table_ok burst t' clients \<and> client \<in> fst ` set clients"
      using tab by (force simp: table_ok_def)
  next
    case None
    define cs where "cs = (if maxRateLimitClients \<le> length (rl_clients lm)
        then evictOldestClient (rl_clients lm) else rl_clients lm)"
    have cs: "table_ok burst t' cs" "length cs < maxRateLimitClients"
      using tab evict_shorter [OF tab] by (simp_all add: cs_def)
    have b: "bucket_ok burst t' b" "clients = AList.update client b cs"
      using f None inv by (auto simp: find_bucket_def cs_def Let_def limiter_inv_def bucket_ok_fresh)
    have "table_ok burst t' clients"
      using cs b(1) unfolding b(2) by (auto simp: table_ok_def length_update distinct_update dest!: in_update)
    then show "bucket_ok burst t' b \<and> table_ok burst t' clients \<and> client \<in> fst ` set clients"
      using b by (simp add: update_conv' flip: dom_map_of_conv_image_fst)
  qed
qed

text \<open>Costs are whole numbers of tokens, one for a single request and at most twenty for a batch.\<close>

definition cost_ok :: "nat \<Rightarrow> bool" where
  "cost_ok n \<longleftrightarrow> 1 \<le> n \<and> n \<le> 20"

text \<open>A step on a bucket in order: what \<open>takeTokens\<close> computes after the refill.\<close>

definition charged :: "limiter \<Rightarrow> instant \<Rightarrow> nat \<Rightarrow> client_bucket \<Rightarrow> client_bucket" where
  "charged lm t cost b0 =
     (let b1 = refill lm t b0;
          b2 = (if flt (cb_capacity b1) (Fin (of_nat cost)) then b1\<lparr>cb_capacity := Fin (of_nat cost)\<rparr> else b1)
      in if flt (cb_tokens b2) (Fin (of_nat cost)) then b2
         else b2\<lparr>cb_tokens := fsub (cb_tokens b2) (Fin (of_nat cost))\<rparr>)"

definition wait_for :: "limiter \<Rightarrow> nat \<Rightarrow> f64 \<Rightarrow> int" where
  "wait_for lm cost tokens =
     (if flt tokens (Fin (of_nat cost))
      then f_to_int (fceil (fdiv (fsub (Fin (of_nat cost)) tokens) (rl_ratePerSecond lm))) else 0)"

lemma takeTokens_charged:
  "takeTokens client (Fin (of_nat cost)) t lm =
     (case find_bucket lm client t of (b, clients) \<Rightarrow>
        (wait_for lm cost (cb_tokens (refill lm t b)),
         lm\<lparr>rl_clients := AList.update client (charged lm t cost b) clients\<rparr>))"
  by (simp add: takeTokens_def charged_def wait_for_def Let_def split: prod.split)

lemma refill_ok:
  assumes r: "rate_ok (rl_ratePerSecond lm)" and b: "bucket_ok burst t0 b" "t0 \<le> t"
  obtains x n where "cb_tokens (refill lm t b) = Fin x" "cb_capacity (refill lm t b) = Fin (of_nat n)"
    "0 \<le> x" "x \<le> of_nat n" "coarse x" "burst \<le> n" "n \<le> 2 ^ 32"
    "cb_updatedAt (refill lm t b) = t" "cb_seenAt (refill lm t b) = t"
proof -
  obtain q where q: "rl_ratePerSecond lm = Fin q" "1 / 120 \<le> q" "q \<le> 2 ^ 28" using r by (rule rate_okE)
  obtain tokens n where b': "cb_tokens b = Fin tokens" "cb_capacity b = Fin (of_nat n)" "0 \<le> tokens"
    "tokens \<le> of_nat n" "coarse tokens" "burst \<le> n" "n \<le> 2 ^ 32" "cb_updatedAt b \<le> t0"
    using b(1) by (rule bucket_okE)
  have "cb_updatedAt b \<le> t" using b'(8) b(2) by simp
  then obtain e p y where y: "fl (tokens + p) = Fin y" "0 \<le> y"
    "cb_tokens (refill lm t b) = Fin (min (of_nat n) y)"
    using refill_tokens [OF q b'(1,3,4,2,7)] by metis
  have "coarse (min (of_nat n) y)" using fl_coarse [OF y(1)] by (simp add: min_def)
  moreover have "cb_capacity (refill lm t b) = Fin (of_nat n)" by (simp add: refill_def b'(2))
  ultimately show ?thesis
    using that [of "min (of_nat n) y" n] y b'(6,7) by (simp add: refill_def)
qed

lemma charged_ok:
  assumes r: "rate_ok (rl_ratePerSecond lm)" and b: "bucket_ok burst t b" and c: "cost_ok cost"
  shows "bucket_ok burst t (charged lm t cost b)"
proof -
  obtain x n where x: "cb_tokens (refill lm t b) = Fin x" "cb_capacity (refill lm t b) = Fin (of_nat n)"
    "0 \<le> x" "x \<le> of_nat n" "coarse x" "burst \<le> n" "n \<le> 2 ^ 32" "cb_updatedAt (refill lm t b) = t"
    using refill_ok [OF r b order_refl] by metis
  define m where "m = max n cost"
  have m: "n \<le> m" "burst \<le> m" "m \<le> 2 ^ 32" "x \<le> of_nat m"
    using x(4,6,7) c by (auto simp: m_def cost_ok_def intro: order_trans)
  have cap: "(if (of_nat n :: rat) < of_nat cost then Fin (of_nat cost) else Fin (of_nat n)) = Fin (of_nat m)"
    by (simp add: m_def max_def)
  show ?thesis
  proof (cases "x < of_nat cost")
    case True
    then show ?thesis
      using x m cap by (auto simp: charged_def Let_def bucket_ok_def split: if_splits)
  next
    case False
    then have "(of_int 0 :: rat) \<le> x - of_nat cost" "x - of_nat cost \<le> of_int (int m)"
      using m(4) by simp_all
    then obtain z where z: "fl (x - of_nat cost) = Fin z" "of_int 0 \<le> z" "z \<le> of_int (int m)"
      by (rule fl_between) (use m(3) in simp_all)
    then show ?thesis
      using x m cap False fl_coarse [OF z(1)]
      by (auto simp: charged_def Let_def bucket_ok_def fsub_def split: if_splits)
  qed
qed

lemma wait_bounds:
  assumes r: "rl_ratePerSecond lm = Fin q" "1 / 120 \<le> q" "q \<le> 2 ^ 28"
    and x: "0 \<le> x" "coarse x" and c: "cost_ok cost" and short: "x < of_nat cost"
  obtains d v where "fl (of_nat cost - x) = Fin d" "fl (d / q) = Fin v" "0 < v" "v \<le> 2400"
    "0 \<le> d" "d \<le> 20" "wait_for lm cost (Fin x) = \<lceil>v\<rceil>"
proof -
  have cost: "1 \<le> cost" "(of_nat cost :: rat) \<le> of_nat 20"
    using c by (simp_all add: cost_ok_def del: of_nat_numeral)
  have q0: "0 < q" using r(2) by (rule less_le_trans [rotated]) simp
  have gap: "1 / 2 ^ 54 \<le> of_nat cost - x" using coarse_gap [OF x(2) short cost(1)] by simp
  have "(of_int 0 :: rat) \<le> of_nat cost - x" "of_nat cost - x \<le> of_int 20" using short x(1) cost(2) by simp_all
  then obtain d where d: "fl (of_nat cost - x) = Fin d" "of_int 0 \<le> d" "d \<le> of_int 20"
    by (rule fl_between) simp_all
  obtain d' where d': "fl (of_nat cost - x) = Fin d'" "(of_nat cost - x) / 2 \<le> d'"
  proof (rule fl_half)
    show "1 / 2 ^ 100 \<le> of_nat cost - x" using gap by (rule order_trans [rotated]) simp
    have "of_nat cost - x \<le> 20" using x(1) cost(2) by simp
    then show "of_nat cost - x \<le> 2 ^ 1000" by (rule order_trans) simp
  qed
  have "d' = d" using d(1) d'(1) by simp
  then have dpos: "1 / 2 ^ 55 \<le> d" using d'(2) gap by simp
  have "d / q \<le> 20 / (1 / 120)" using d(2,3) r(2) by (intro frac_le) simp_all
  then have hi: "d / q \<le> of_int 2400" by simp
  have "1 / 2 ^ 55 / 2 ^ 28 \<le> d / q" using dpos q0 r(3) by (intro frac_le) simp_all
  then have lo: "1 / 2 ^ 100 \<le> d / q" by (rule order_trans [rotated]) simp
  have "(of_int 0 :: rat) \<le> d / q" using d(2) q0 by simp
  then obtain v where v: "fl (d / q) = Fin v" "v \<le> of_int 2400" using hi by (rule fl_between) simp_all
  obtain v' where v': "fl (d / q) = Fin v'" "d / q / 2 \<le> v'"
    using lo by (rule fl_half) (use hi in \<open>rule order_trans, simp\<close>)
  have "0 < d / q" using lo by (rule less_le_trans [rotated]) simp
  then have vpos: "0 < v" using v(1) v' by simp
  have "wait_for lm cost (Fin x) = \<lceil>v\<rceil>"
    using short d(1) v(1) r(1) vpos q0 by (simp add: wait_for_def fsub_def)
  then show ?thesis using that [OF d(1) v(1) vpos] v(2) d(2,3) by simp
qed

section \<open>Properties\<close>

lemma limiter_inv_table:
  "limiter_inv burst t lm \<longleftrightarrow>
     rate_ok (rl_ratePerSecond lm) \<and> rl_rateBurst lm = Fin (of_nat burst) \<and> burst \<le> 2 ^ 32 \<and>
     table_ok burst t (rl_clients lm)"
  by (auto simp: limiter_inv_def table_ok_def)

lemma f_of_int_u32: "f_of_int (uint (w :: u32)) = Fin (of_nat (unat w))"
proof -
  have "uint w < 2 ^ 32" using uint_lt2p [of w] by simp
  then have "\<bar>uint w\<bar> \<le> 2 ^ 53" by simp
  then have "f_of_int (uint w) = Fin (of_int (uint w))" by (rule f_of_int_exact)
  also have "(of_int (uint w) :: rat) = of_nat (unat w)" by simp
  finally show ?thesis .
qed

lemma new_limiter_inv:
  assumes "0 < perMinute"
  shows "limiter_inv (unat burst) t (new_limiter perMinute burst)"
proof -
  define n where "n = uint perMinute"
  have n: "1 \<le> n" "n < 2 ^ 32" using assms uint_lt2p [of perMinute] by (simp_all add: word_less_alt n_def)
  have fn: "f_of_int n = Fin (of_int n)" using n by (intro f_of_int_exact) simp
  have q: "1 / 60 \<le> (of_int n / 60 :: rat)" using n by simp
  have "(of_int n :: rat) \<le> of_int (2 ^ 32)" using n by (subst of_int_le_iff) simp
  then have u: "(of_int n / 60 :: rat) \<le> of_int (2 ^ 27)" by simp
  have "(of_int 0 :: rat) \<le> of_int n / 60" using n by simp
  then obtain y where y: "fl (of_int n / 60) = Fin y" "y \<le> of_int (2 ^ 27)" using u by (rule fl_between) simp_all
  obtain z where z: "fl (of_int n / 60) = Fin z" "of_int n / 60 / 2 \<le> z"
  proof (rule fl_half)
    show "1 / 2 ^ 100 \<le> (of_int n / 60 :: rat)" using q by (rule order_trans [rotated]) simp
    show "(of_int n / 60 :: rat) \<le> 2 ^ 1000" using u by (rule order_trans) simp
  qed
  have "rate_ok (fdiv (f_of_int n) (Fin 60))" using fn y z q by (simp add: rate_ok_def)
  moreover note f_of_int_u32 [of burst]
  moreover have "unat burst \<le> 2 ^ 32" by (rule less_imp_le, rule order.strict_trans2 [OF unsigned_less]) simp
  ultimately show ?thesis by (simp add: limiter_inv_table new_limiter_def table_ok_def flip: n_def)
qed

lemma takeTokens_inv:
  assumes inv: "limiter_inv burst t lm" and t: "t \<le> t'" and c: "cost_ok cost"
  shows "limiter_inv burst t' (snd (takeTokens client (Fin (of_nat cost)) t' lm))"
proof -
  obtain b clients where f: "find_bucket lm client t' = (b, clients)" by fastforce
  note ok = find_bucket_ok [OF inv t f]
  have r: "rate_ok (rl_ratePerSecond lm)" using inv by (simp add: limiter_inv_def)
  have "table_ok burst t' (AList.update client (charged lm t' cost b) clients)"
    using ok(2) charged_ok [OF r ok(1) c] ok(3) by (rule table_ok_replace)
  then show ?thesis using inv by (simp add: takeTokens_charged f limiter_inv_table)
qed

lemma fl_mono_Fin: "fl a = Fin x \<Longrightarrow> fl b = Fin y \<Longrightarrow> a \<le> b \<Longrightarrow> x \<le> y"
  using fl_mono [of a b] by simp

text \<open>Waiting for the advertised time and one second more brings enough tokens, rounding included.\<close>

lemma wait_suffices:
  assumes q: "1 / 120 \<le> q" "q \<le> 2 ^ 28"
    and x: "0 \<le> x" "x < of_nat cost" "cost_ok cost"
    and d: "fl (of_nat cost - x) = Fin d" and v: "fl (d / q) = Fin v" "0 \<le> d" "d \<le> 20"
    and e: "v + 1 \<le> e" and p: "fl (e * q) = Fin p" and y: "fl (x + p) = Fin y"
  shows "of_nat cost \<le> y"
proof -
  have cost: "(of_nat cost :: rat) \<le> of_nat 20" "cost \<le> 20"
    using x(3) by (simp_all add: cost_ok_def del: of_nat_numeral)
  have q0: "0 < q" using q(1) by (rule less_le_trans [rotated]) simp
  have "\<bar>of_nat cost - x\<bar> \<le> 2 ^ 5" using x(1,2) cost(1) by simp
  then obtain d' where "fl (of_nat cost - x) = Fin d'" "\<bar>d' - (of_nat cost - x)\<bar> \<le> 2 ^ 5 / 2 ^ 53"
    by (rule fl_error) simp_all
  then have derr: "of_nat cost - x \<le> d + 1 / 1000" using d abs_le_D2 by fastforce
  have "d / q \<le> 20 / (1 / 120)" using v(2,3) q(1) by (intro frac_le) simp_all
  moreover have "0 \<le> d / q" using v(2) q0 by simp
  ultimately have "\<bar>d / q\<bar> \<le> 2 ^ 12" by simp
  then obtain v' where "fl (d / q) = Fin v'" "\<bar>v' - d / q\<bar> \<le> 2 ^ 12 / 2 ^ 53" by (rule fl_error) simp_all
  then have "d / q \<le> v + 1 / 1000" using v(1) abs_le_D2 by fastforce
  then have "d \<le> (v + 1 / 1000) * q" using q0 by (simp add: divide_le_eq)
  moreover have "(v + 1) * q \<le> e * q" using e q0 by (intro mult_right_mono) simp_all
  ultimately have eq: "d + (999 / 1000) * q \<le> e * q" by (simp add: algebra_simps)
  define S where "S = of_nat cost - x + q / 2"
  have "1 / 1000 \<le> (499 / 1000) * q" using q(1) by simp
  then have Se: "S \<le> e * q" using eq derr unfolding S_def by simp
  have "0 \<le> S" "S \<le> 2 ^ 28" using x(1,2) cost(1) q q0 by (simp_all add: S_def)
  then have "\<bar>S\<bar> \<le> 2 ^ 28" by simp
  then obtain z where z: "fl S = Fin z" "\<bar>z - S\<bar> \<le> 2 ^ 28 / 2 ^ 53" by (rule fl_error) simp_all
  have "z \<le> p" by (rule fl_mono_Fin [OF z(1) p Se])
  moreover have "S - 1 / 1000 \<le> z" using abs_le_D2 [OF z(2)] by simp
  ultimately have "of_nat cost \<le> x + p" using q(1) unfolding S_def by simp
  moreover have "fl (of_nat cost) = Fin (of_nat cost)" using fl_of_int [of "int cost"] cost(2) by simp
  ultimately show ?thesis using fl_mono_Fin [OF _ y] by blast
qed

lemma charged_refused:
  assumes "cb_tokens (refill lm t b) = Fin x" "cb_capacity (refill lm t b) = Fin (of_nat n)"
    "x < of_nat cost" "cb_updatedAt (refill lm t b) = t"
  shows "cb_tokens (charged lm t cost b) = Fin x"
    "cb_capacity (charged lm t cost b) = Fin (of_nat (max n cost))" "cb_updatedAt (charged lm t cost b) = t"
  using assms by (auto simp: charged_def Let_def max_def)

text \<open>
  C12. A client that was refused and told to wait a number of seconds is served if it comes back
  at least one second after that time, its bucket not having been touched in between: the wait
  advertised is never too short by more than a second, however the floating point operations
  round, and a batch larger than the configured burst gets through as well.
\<close>

theorem refused_then_served:
  assumes inv: "limiter_inv burst t lm" and t: "t \<le> t'" and c: "cost_ok cost"
    and refused: "takeTokens client (Fin (of_nat cost)) t' lm = (wait, lm1)" "wait \<noteq> 0"
    and kept: "map_of (rl_clients lm2) client = map_of (rl_clients lm1) client"
      "rl_ratePerSecond lm2 = rl_ratePerSecond lm1"
    and later: "t' + (wait + 1) * 1000000000 \<le> t2"
  shows "fst (takeTokens client (Fin (of_nat cost)) t2 lm2) = 0"
proof -
  obtain b clients where f: "find_bucket lm client t' = (b, clients)" by fastforce
  note ok = find_bucket_ok [OF inv t f]
  have r: "rate_ok (rl_ratePerSecond lm)" using inv by (simp add: limiter_inv_def)
  obtain q where q: "rl_ratePerSecond lm = Fin q" "1 / 120 \<le> q" "q \<le> 2 ^ 28" using r by (rule rate_okE)
  obtain x n where x: "cb_tokens (refill lm t' b) = Fin x" "cb_capacity (refill lm t' b) = Fin (of_nat n)"
    "0 \<le> x" "coarse x" "n \<le> 2 ^ 32" "cb_updatedAt (refill lm t' b) = t'"
    using refill_ok [OF r ok(1) order_refl] by metis
  have wait: "wait = wait_for lm cost (Fin x)"
    and lm1: "lm1 = lm\<lparr>rl_clients := AList.update client (charged lm t' cost b) clients\<rparr>"
    using refused(1) x(1) by (simp_all add: takeTokens_charged f)
  have short: "x < of_nat cost" using refused(2) wait by (simp add: wait_for_def split: if_splits)
  obtain d v where dv: "fl (of_nat cost - x) = Fin d" "fl (d / q) = Fin v" "0 < v" "v \<le> 2400"
    "0 \<le> d" "d \<le> 20" "wait = \<lceil>v\<rceil>"
    using wait_bounds [OF q x(3,4) c short] wait by metis
  let ?b = "charged lm t' cost b" and ?m = "max n cost"
  note cb = charged_refused [OF x(1,2) short x(6)]
  have m: "?m \<le> 2 ^ 32" "x \<le> of_nat ?m" using x(5) c short by (auto simp: cost_ok_def max_def)
  have q2: "rl_ratePerSecond lm2 = Fin q" using kept(2) lm1 q(1) by simp
  have w: "0 \<le> wait" "wait \<le> 2400" using dv(3,4,7) by (simp_all add: ceiling_le_iff)
  have t2: "cb_updatedAt ?b \<le> t2" using cb(3) later w by simp
  obtain e p y where e: "of_int (sint (time_sub t2 (cb_updatedAt ?b)) div 1000000000) \<le> e"
    "fl (e * q) = Fin p" "fl (x + p) = Fin y" "cb_tokens (refill lm2 t2 ?b) = Fin (min (of_nat ?m) y)"
    using refill_tokens [OF q2 q(2,3) cb(1) x(3) m(2) cb(2) m(1) t2] by metis
  have "(wait + 1) * 1000000000 \<le> sint (time_sub t2 (cb_updatedAt ?b))"
    by (rule time_sub_elapsed(2) [OF t2]) (use cb(3) later w in \<open>simp_all add: max_i64_def\<close>)
  then have "wait + 1 \<le> sint (time_sub t2 (cb_updatedAt ?b)) div 1000000000"
    using zdiv_mono1 [of "(wait + 1) * 1000000000" _ 1000000000] by simp
  then have "(of_int (wait + 1) :: rat) \<le> of_int (sint (time_sub t2 (cb_updatedAt ?b)) div 1000000000)"
    by (simp only: of_int_le_iff)
  moreover have "v \<le> of_int wait" unfolding dv(7) by (rule le_of_int_ceiling)
  ultimately have ve: "v + 1 \<le> e" using e(1) by simp
  have "of_nat cost \<le> y" by (rule wait_suffices [OF q(2,3) x(3) short c dv(1,2,5,6) ve e(2,3)])
  then have enough: "\<not> flt (cb_tokens (refill lm2 t2 ?b)) (Fin (of_nat cost))" by (simp add: e(4) not_less)
  have "map_of (rl_clients lm2) client = Some ?b" using kept(1) lm1 by (simp add: update_conv')
  then have "find_bucket lm2 client t2 = (?b, rl_clients lm2)" by (simp add: find_bucket_def)
  then show ?thesis using enough by (simp add: takeTokens_charged wait_for_def)
qed

lemma no_time_passed: "duration_in second (time_sub t t) = Fin 0"
  using fl_of_int [of 1000000000]
  by (simp add: time_sub_def min_i64_def max_i64_def duration_in_def quot64_def f_of_int_def Let_def second_def)

lemma sample_limiter: "new_limiter 60 10 = \<lparr>rl_ratePerSecond = Fin 1, rl_rateBurst = Fin 10, rl_clients = []\<rparr>"
  using f_of_int_exact [of 60] f_of_int_exact [of 10] fl_of_int [of 1] by (simp add: new_limiter_def)

lemma sample_refused:
  "takeTokens ''a'' (Fin (of_nat 20)) 0 (new_limiter 60 10) =
     (10, \<lparr>rl_ratePerSecond = Fin 1, rl_rateBurst = Fin 10,
           rl_clients = [(''a'', \<lparr>cb_tokens = Fin 10, cb_capacity = Fin 20, cb_updatedAt = 0, cb_seenAt = 0\<rparr>)]\<rparr>)"
  using fl_of_int [of 10]
  by (simp add: sample_limiter takeTokens_def find_bucket_def refill_def no_time_passed
      maxRateLimitClients_def fsub_def Let_def del: of_nat_numeral) simp

theorem refused_then_served_witness:
  "fst (takeTokens ''a'' (Fin (of_nat 20)) 11000000000 (snd (takeTokens ''a'' (Fin (of_nat 20)) 0 (new_limiter 60 10)))) = 0"
  unfolding sample_refused snd_conv
  by (rule refused_then_served [OF new_limiter_inv [of 60 10 0] _ _ sample_refused]) (simp_all add: cost_ok_def)

lemma find_bucket_others:
  assumes "find_bucket lm client t = (b, clients)" "client' \<noteq> client" "length (rl_clients lm) \<le> maxRateLimitClients"
  shows "map_of clients client' = map_of (rl_clients lm) client' \<or>
    map_of clients client' = None \<and> map_of (rl_clients lm) client = None \<and>
    length (rl_clients lm) = maxRateLimitClients"
  using assms by (auto simp: find_bucket_def Let_def update_conv' delete_conv' evictOldestClient_def
      split: option.splits if_splits)

text \<open>
  C16. A request is served exactly when its client's bucket, refilled for the time since its last
  request, holds the cost. A request that is served pays exactly its cost, one that is refused
  pays nothing and is told to wait between one and 2400 seconds. No other client's bucket is
  changed: at most one is dropped, and only when the table is full and the client is new.
\<close>

theorem tokens_accounted:
  assumes inv: "limiter_inv burst t lm" and t: "t \<le> t'" and c: "cost_ok cost"
    and step: "takeTokens client (Fin (of_nat cost)) t' lm = (wait, lm1)"
    and found: "find_bucket lm client t' = (b, clients)"
  shows "(wait = 0 \<longleftrightarrow> fle (Fin (of_nat cost)) (cb_tokens (refill lm t' b))) \<and>
    (wait = 0 \<or> 1 \<le> wait \<and> wait \<le> 2400) \<and>
    map_option cb_tokens (map_of (rl_clients lm1) client) =
      Some (if wait = 0 then fsub (cb_tokens (refill lm t' b)) (Fin (of_nat cost))
        else cb_tokens (refill lm t' b)) \<and>
    (\<forall>client'. client' \<noteq> client \<longrightarrow>
      map_of (rl_clients lm1) client' = map_of (rl_clients lm) client' \<or>
      map_of (rl_clients lm1) client' = None \<and> map_of (rl_clients lm) client = None \<and>
      length (rl_clients lm) = maxRateLimitClients)"
proof -
  have r: "rate_ok (rl_ratePerSecond lm)" and len: "length (rl_clients lm) \<le> maxRateLimitClients"
    using inv by (simp_all add: limiter_inv_def)
  obtain q where q: "rl_ratePerSecond lm = Fin q" "1 / 120 \<le> q" "q \<le> 2 ^ 28" using r by (rule rate_okE)
  obtain x where x: "cb_tokens (refill lm t' b) = Fin x" "0 \<le> x" "coarse x"
    using refill_ok [OF r find_bucket_ok(1) [OF inv t found] order_refl] by metis
  have wait: "wait = wait_for lm cost (Fin x)"
    and lm1: "lm1 = lm\<lparr>rl_clients := AList.update client (charged lm t' cost b) clients\<rparr>"
    using step x(1) by (simp_all add: takeTokens_charged found)
  have served: "wait = 0 \<longleftrightarrow> of_nat cost \<le> x" and bounds: "wait = 0 \<or> 1 \<le> wait \<and> wait \<le> 2400"
  proof -
    have "1 \<le> wait \<and> wait \<le> 2400" if short: "x < of_nat cost"
      using wait_bounds [OF q x(2,3) c short] unfolding wait
      by (metis ceiling_le_iff of_int_numeral one_le_ceiling zero_less_one)
    moreover have "wait = 0" if "of_nat cost \<le> x" using that by (simp add: wait wait_for_def)
    ultimately show "wait = 0 \<longleftrightarrow> of_nat cost \<le> x" "wait = 0 \<or> 1 \<le> wait \<and> wait \<le> 2400"
      by (cases "x < of_nat cost"; force)+
  qed
  have "cb_tokens (charged lm t' cost b) =
      (if wait = 0 then fsub (cb_tokens (refill lm t' b)) (Fin (of_nat cost)) else cb_tokens (refill lm t' b))"
    using served x(1) by (auto simp: charged_def Let_def)
  then show ?thesis
    using served bounds x(1) find_bucket_others [OF found _ len] by (simp add: lm1 update_conv')
qed

theorem tokens_accounted_witness:
  "\<not> fle (Fin 20) (cb_tokens (refill (new_limiter 60 10) 0
     (fst (find_bucket (new_limiter 60 10) ''a'' 0))))"
  using tokens_accounted [OF new_limiter_inv [of 60 10 0] order_refl _ sample_refused surjective_pairing]
  by (simp add: sample_refused cost_ok_def)

end
