(* ===== verification/Go_Net.thy ===== *)
theory Go_Net
  imports Go_Text
begin

text \<open>
  The parts of Go's \<^verbatim>\<open>net\<close> package the API uses to name its clients: \<^verbatim>\<open>net.SplitHostPort\<close> and
  whether \<^verbatim>\<open>net.ParseIP\<close> accepts a text.
\<close>

section \<open>Host and port\<close>

text \<open>\<^verbatim>\<open>strings.IndexByte\<close> and the position of the last occurrence.\<close>

fun index_byte :: "char \<Rightarrow> string \<Rightarrow> nat option" where
  "index_byte c [] = None"
| "index_byte c (d # ds) = (if c = d then Some 0 else map_option Suc (index_byte c ds))"

definition last_index :: "char \<Rightarrow> string \<Rightarrow> nat option" where
  "last_index c s = map_option (\<lambda>i. length s - Suc i) (index_byte c (rev s))"

definition SplitHostPort :: "string \<Rightarrow> (string \<times> string) option" where
  "SplitHostPort hostport =
     (case last_index (CHR '':'') hostport of
        None \<Rightarrow> None
      | Some i \<Rightarrow>
          if hd hostport = CHR ''['' then
            (case index_byte (CHR '']'') hostport of
               None \<Rightarrow> None
             | Some close \<Rightarrow>
                 if Suc close \<noteq> i then None
                 else if CHR ''['' \<in> set (drop 1 hostport) \<or> CHR '']'' \<in> set (drop (Suc close) hostport)
                 then None
                 else Some (drop 1 (take close hostport), drop (Suc i) hostport))
          else if CHR '':'' \<in> set (take i hostport) then None
          else if CHR ''['' \<in> set hostport \<or> CHR '']'' \<in> set hostport then None
          else Some (take i hostport, drop (Suc i) hostport))"

section \<open>Addresses\<close>

text \<open>Four decimal fields without leading zeros, each a byte.\<close>

definition ipv4_field :: "string \<Rightarrow> bool" where
  "ipv4_field s \<longleftrightarrow> s \<noteq> [] \<and> all_digits s \<and> (length s = 1 \<or> hd s \<noteq> CHR ''0'') \<and> digits_val s < 256"

definition is_ipv4 :: "string \<Rightarrow> bool" where
  "is_ipv4 s \<longleftrightarrow> length (split_on (CHR ''.'') s) = 4 \<and> list_all ipv4_field (split_on (CHR ''.'') s)"

definition is_hex_char :: "char \<Rightarrow> bool" where
  "is_hex_char c \<longleftrightarrow> hex_val c \<noteq> None"

text \<open>
  The fields of an IPv6 address from byte \<open>i\<close> on; \<open>ellipsis\<close> tells whether a double colon was
  seen. Each field is at most four hexadecimal digits; the last two may be an IPv4 address. The
  address ends when the text ends or sixteen bytes are filled.
\<close>

function ipv6_fields :: "nat \<Rightarrow> bool \<Rightarrow> string \<Rightarrow> bool" where
  "ipv6_fields i ellipsis s =
     (if 16 \<le> i then s = [] \<and> \<not> ellipsis
      else
        let field = takeWhile is_hex_char s; rest = dropWhile is_hex_char s in
        if 4 < length field \<or> field = [] then False
        else if prefix ''.'' rest then
          (if \<not> ellipsis \<and> i \<noteq> 12 then False
           else if 16 < i + 4 then False
           else is_ipv4 s \<and> (if i + 4 < 16 then ellipsis else \<not> ellipsis))
        else if rest = [] then (if i + 2 < 16 then ellipsis else \<not> ellipsis)
        else if hd rest \<noteq> CHR '':'' \<or> length rest = 1 then False
        else
          let s' = tl rest in
          if hd s' = CHR '':'' then
            (if ellipsis then False
             else if tl s' = [] then i + 2 < 16
             else ipv6_fields (i + 2) True (tl s'))
          else ipv6_fields (i + 2) ellipsis s')"
  by pat_completeness auto

termination
  by (relation "measure (\<lambda>(i, _, _). 16 - i)") auto

declare ipv6_fields.simps [simp del]

definition is_ipv6 :: "string \<Rightarrow> bool" where
  "is_ipv6 s \<longleftrightarrow>
     (if prefix ''::'' s then drop 2 s = [] \<or> ipv6_fields 0 True (drop 2 s) else ipv6_fields 0 False s)"

text \<open>The first separator decides the family; a zone makes \<^verbatim>\<open>net.ParseIP\<close> refuse.\<close>

definition valid_ip :: "string \<Rightarrow> bool" where
  "valid_ip s \<longleftrightarrow>
     CHR ''%'' \<notin> set s \<and>
     (case dropWhile (\<lambda>c. c \<noteq> CHR ''.'' \<and> c \<noteq> CHR '':'') s of
        [] \<Rightarrow> False
      | c # _ \<Rightarrow> if c = CHR ''.'' then is_ipv4 s else is_ipv6 s)"

section \<open>Examples\<close>

lemma split_examples:
  "SplitHostPort ''10.0.0.1:8080'' = Some (''10.0.0.1'', ''8080'')"
  "SplitHostPort ''[::1]:80'' = Some (''::1'', ''80'')"
  "SplitHostPort ''::1:80'' = None"
  "SplitHostPort ''localhost'' = None"
  by code_simp+

lemma valid_ip_examples:
  "valid_ip ''192.168.0.1''" "\<not> valid_ip ''192.168.0.01''" "\<not> valid_ip ''256.0.0.1''"
  "valid_ip ''::''" "valid_ip ''2001:db8::1''" "valid_ip ''::ffff:10.0.0.1''"
  "\<not> valid_ip ''1:2:3:4:5:6:7:8:9''" "\<not> valid_ip ''fe80::1%eth0''" "\<not> valid_ip ''''"
  by code_simp+

end
