(* ===== verification/Inspect_Cache.thy ===== *)
theory Inspect_Cache
  imports Network
begin

text \<open>
  Inspection requests and reports, \<^verbatim>\<open>internal/probe/inspect.go\<close>, and the bounded cache of reports,
  \<^verbatim>\<open>internal/probe/inspect_cache.go\<close>. A Go map of cache entries is an association list with
  distinct keys whose order stands for the unspecified iteration order: what is proved holds
  for every list. Reports are values, so the copies the cache makes are the reports themselves.
\<close>

section \<open>Requests and reports\<close>

record inspect_request =
  rq_ContractID :: string
  rq_DataKeys :: "string list"
  rq_DataDurability :: durability
  rq_EstimateExtend :: u32

datatype extend_note = NoteNone | NoteNotOnLedger | NoteExpired | NoteNoTTL

record extend_estimate =
  ee_Kind :: string
  ee_Key :: string
  ee_Ledgers :: u32
  ee_ExtendTo :: u32
  ee_ResourceFee :: i64
  ee_MinResourceFee :: i64
  ee_Note :: extend_note

record entry_report =
  rep_Kind :: string
  rep_Key :: string
  rep_TTL :: ttl
  rep_Summary :: string
  rep_Thresholds :: thresholds

datatype close_time_note = NoteTarget | NoteMeasured duration

datatype storage_report = NoStorage | Storage jval | StorageFailed decode_error

record inspect_result =
  ir_ContractID :: string
  ir_Deployed :: bool
  ir_Executable :: string
  ir_WasmHash :: string
  ir_Instance :: entry_report
  ir_Code :: "entry_report option"
  ir_Data :: "entry_report list"
  ir_InstanceStorage :: storage_report
  ir_ExtendEstimates :: "extend_estimate list"
  ir_Status :: status
  ir_LatestLedger :: u32
  ir_CloseTimeNote :: close_time_note

section \<open>The cache\<close>

definition inspectCacheMaxEntries :: int where "inspectCacheMaxEntries = 256"

type_synonym cache_entry = "inspect_result \<times> instant"

record inspect_cache =
  ic_ttl :: duration
  ic_max :: int
  ic_entries :: "(string \<times> cache_entry) list"

definition newInspectCache :: "duration \<Rightarrow> int \<Rightarrow> inspect_cache" where
  "newInspectCache ttl mx =
     \<lparr>ic_ttl = ttl, ic_max = (if mx \<le> 0 then inspectCacheMaxEntries else mx), ic_entries = []\<rparr>"

definition nul :: char where "nul = CHR 0x00"

definition inspectCacheKey :: "inspect_request \<Rightarrow> string" where
  "inspectCacheKey req =
     (let d = (if rq_DataDurability req = no_durability then DurabilityPersistent else rq_DataDurability req)
      in rq_ContractID req @ [nul] @ durability_text d @ concat (map (\<lambda>k. nul # k) (rq_DataKeys req)))"

definition cache_get :: "string \<Rightarrow> instant \<Rightarrow> inspect_cache \<Rightarrow> inspect_result option \<times> inspect_cache" where
  "cache_get key now c =
     (case map_of (ic_entries c) key of
        None \<Rightarrow> (None, c)
      | Some (result, expires) \<Rightarrow>
          if \<not> now < expires then (None, c\<lparr>ic_entries := AList.delete key (ic_entries c)\<rparr>)
          else (Some result, c))"

fun oldest_loop :: "string \<Rightarrow> instant \<Rightarrow> (string \<times> cache_entry) list \<Rightarrow> string \<times> instant" where
  "oldest_loop k t [] = (k, t)"
| "oldest_loop k t ((key, (_, expires)) # es) =
     (if k = [] \<or> expires < t then oldest_loop key expires es else oldest_loop k t es)"

definition evictLocked :: "instant \<Rightarrow> inspect_cache \<Rightarrow> inspect_cache" where
  "evictLocked now c =
     (if int (length (ic_entries c)) < ic_max c then c
      else let live = filter (\<lambda>(_, _, expires). now < expires) (ic_entries c) in
        if int (length live) < ic_max c then c\<lparr>ic_entries := live\<rparr>
        else let oldestKey = fst (oldest_loop [] 0 live) in
          c\<lparr>ic_entries := (if oldestKey \<noteq> [] then AList.delete oldestKey live else live)\<rparr>)"

definition cache_put :: "string \<Rightarrow> inspect_result \<Rightarrow> instant \<Rightarrow> inspect_cache \<Rightarrow> inspect_cache" where
  "cache_put key result now c =
     (let c' = evictLocked now c
      in c'\<lparr>ic_entries := AList.update key (result, time_add now (ic_ttl c)) (ic_entries c')\<rparr>)"

section \<open>Bounded stores\<close>

text \<open>
  The contract of a bounded store with eviction: a lookup after a store gives the value stored
  or, for another key, at most what was there before; the invariant and the bound are kept.
\<close>

locale bounded_store =
  fixes inv :: "'c \<Rightarrow> bool"
    and lookup :: "'c \<Rightarrow> 'k \<Rightarrow> 'v option"
    and store :: "'k \<Rightarrow> 'v \<Rightarrow> 't \<Rightarrow> 'c \<Rightarrow> 'c"
    and entries :: "'c \<Rightarrow> nat"
    and limit :: "'c \<Rightarrow> nat"
    and ok_key :: "'k \<Rightarrow> bool"
  assumes inv_store: "inv c \<Longrightarrow> ok_key k \<Longrightarrow> inv (store k v t c)"
    and limit_store: "inv c \<Longrightarrow> limit (store k v t c) = limit c"
    and inv_bound: "inv c \<Longrightarrow> entries c \<le> limit c"
    and lookup_same: "inv c \<Longrightarrow> ok_key k \<Longrightarrow> lookup (store k v t c) k = Some v"
    and lookup_other: "inv c \<Longrightarrow> k' \<noteq> k \<Longrightarrow> lookup (store k v t c) k' \<in> {None, lookup c k'}"
begin

text \<open>A history is the list of stores, the latest last.\<close>

definition run :: "('k \<times> 'v \<times> 't) list \<Rightarrow> 'c \<Rightarrow> 'c" where
  "run hist c = foldl (\<lambda>c (k, v, t). store k v t c) c hist"

lemma run_simps [simp]:
  "run [] c = c"
  "run (hist @ [(k, v, t)]) c = store k v t (run hist c)"
  by (simp_all add: run_def)

lemma run_inv: "inv c \<Longrightarrow> (\<And>k v t. (k, v, t) \<in> set hist \<Longrightarrow> ok_key k) \<Longrightarrow> inv (run hist c)"
proof (induction hist rule: rev_induct)
  case (snoc x hist)
  then show ?case by (cases x) (auto intro!: inv_store)
qed simp

lemma run_limit:
  "inv c \<Longrightarrow> (\<And>k v t. (k, v, t) \<in> set hist \<Longrightarrow> ok_key k) \<Longrightarrow> limit (run hist c) = limit c"
proof (induction hist rule: rev_induct)
  case (snoc x hist)
  then have "inv (run hist c)" by (intro run_inv) auto
  with snoc show ?case by (cases x) (auto simp: limit_store)
qed simp

lemma run_bound:
  "inv c \<Longrightarrow> (\<And>k v t. (k, v, t) \<in> set hist \<Longrightarrow> ok_key k) \<Longrightarrow> entries (run hist c) \<le> limit c"
  using run_inv inv_bound run_limit by metis

text \<open>What is found under a key is the value of the last store under that key.\<close>

lemma run_lookup:
  assumes "inv c" and "\<And>k v t. (k, v, t) \<in> set hist \<Longrightarrow> ok_key k"
    and "lookup (run hist c) key = Some v" and "lookup c key = None"
  shows "\<exists>before t after. hist = before @ (key, v, t) # after \<and> key \<notin> fst ` set after"
  using assms(2-)
proof (induction hist rule: rev_induct)
  case Nil
  then show ?case by simp
next
  case (snoc x hist)
  obtain k w t where x: "x = (k, w, t)" by (cases x)
  have inv: "inv (run hist c)" using snoc.prems(1) assms(1) by (intro run_inv) auto
  show ?case
  proof (cases "k = key")
    case True
    then have "w = v" using lookup_same [OF inv, of key w t] snoc.prems(1,2) x by auto
    then show ?thesis using True x by (intro exI [of _ hist] exI [of _ t] exI [of _ "[]"]) simp
  next
    case False
    then have "lookup (run hist c) key = Some v"
      using lookup_other [OF inv, of key k w t] snoc.prems(2) x by auto
    then obtain before t' after where
      "hist = before @ (key, v, t') # after" "key \<notin> fst ` set after"
      using snoc.IH snoc.prems(1,3) by (metis UnI1 set_append)
    then show ?thesis
      using False x by (intro exI [of _ before] exI [of _ t'] exI [of _ "after @ [x]"]) auto
  qed
qed

end

section \<open>Lemmas of the cache\<close>

definition cache_inv :: "inspect_cache \<Rightarrow> bool" where
  "cache_inv c \<longleftrightarrow> distinct (map fst (ic_entries c)) \<and> [] \<notin> fst ` set (ic_entries c) \<and>
     0 < ic_max c \<and> int (length (ic_entries c)) \<le> ic_max c"

lemma oldest_loop_mem:
  "k \<noteq> [] \<or> es \<noteq> [] \<Longrightarrow> [] \<notin> fst ` set es \<Longrightarrow>
     oldest_loop k t es = (k', t') \<Longrightarrow> k' \<noteq> [] \<and> (k' = k \<and> t' = t \<or> (\<exists>r. (k', r, t') \<in> set es))"
  by (induction k t es rule: oldest_loop.induct) (auto split: if_splits)

lemma oldest_loop_min:
  "k \<noteq> [] \<Longrightarrow> [] \<notin> fst ` set es \<Longrightarrow> oldest_loop k t es = (k', t') \<Longrightarrow>
     t' \<le> t \<and> (\<forall>(_, _, e) \<in> set es. t' \<le> e)"
proof (induction k t es rule: oldest_loop.induct)
  case (2 k t key r expires es)
  then show ?case by (cases "expires < t") auto
qed auto

lemma length_delete_distinct:
  assumes "distinct (map fst xs)" and "k \<in> fst ` set xs"
  shows "length (AList.delete k xs) = length xs - 1"
proof -
  have "length (AList.delete k xs) = length (map fst (AList.delete k xs))" by simp
  also have "\<dots> = length (remove1 k (map fst xs))"
    using assms(1) by (simp add: delete_keys distinct_remove1_removeAll)
  also have "\<dots> = length xs - 1"
    using assms(2) by (simp add: length_remove1)
  finally show ?thesis .
qed

lemma fst_set_delete: "fst ` set (AList.delete k xs) = fst ` set xs - {k}"
proof -
  have "fst ` set (AList.delete k xs) = set (map fst (AList.delete k xs))" by simp
  then show ?thesis by (simp add: delete_keys del: set_map) auto
qed

lemma evict_inv:
  assumes "cache_inv c"
  shows "cache_inv (evictLocked now c) \<and> int (length (ic_entries (evictLocked now c))) < ic_max c"
    and "ic_max (evictLocked now c) = ic_max c" and "ic_ttl (evictLocked now c) = ic_ttl c"
proof -
  let ?live = "filter (\<lambda>(_, _, expires). now < expires) (ic_entries c)"
  have dist: "distinct (map fst ?live)" and ne: "[] \<notin> fst ` set ?live"
    using assms by (auto simp: cache_inv_def distinct_map_filter)
  have len: "length ?live \<le> length (ic_entries c)" by simp
  show "cache_inv (evictLocked now c) \<and> int (length (ic_entries (evictLocked now c))) < ic_max c"
  proof (cases "int (length ?live) < ic_max c")
    case True
    then show ?thesis
      using assms dist ne by (auto simp: evictLocked_def cache_inv_def Let_def)
  next
    case False
    then have full: "\<not> int (length (ic_entries c)) < ic_max c" using len by linarith
    have "?live \<noteq> []" using False assms by (auto simp: cache_inv_def)
    moreover obtain k t where kt: "oldest_loop [] 0 ?live = (k, t)" by fastforce
    ultimately have k: "k \<noteq> []" "k \<in> fst ` set ?live"
      using oldest_loop_mem [of "[]" ?live 0 k t] ne by force+
    have es: "ic_entries (evictLocked now c) = AList.delete k ?live"
      using full False k(1) kt by (simp add: evictLocked_def Let_def)
    have mx: "ic_max (evictLocked now c) = ic_max c"
      by (simp add: evictLocked_def Let_def)
    have "length (AList.delete k ?live) = length ?live - 1" "0 < length ?live"
      using length_delete_distinct [OF dist k(2)] \<open>?live \<noteq> []\<close> by simp_all
    moreover have "[] \<notin> fst ` set (AList.delete k ?live)"
      using ne fst_set_delete [of k ?live] by auto
    moreover have "int (length ?live) \<le> ic_max c"
      using len assms unfolding cache_inv_def by linarith
    ultimately have "int (length (AList.delete k ?live)) < ic_max c" "[] \<notin> fst ` set (AList.delete k ?live)"
      by linarith+
    then show ?thesis
      using assms dist unfolding cache_inv_def es mx by (simp add: distinct_delete)
  qed
  show "ic_max (evictLocked now c) = ic_max c" "ic_ttl (evictLocked now c) = ic_ttl c"
    by (simp_all add: evictLocked_def Let_def)
qed

lemma map_of_filter_sub:
  "distinct (map fst xs) \<Longrightarrow> map_of (filter P xs) k \<in> {None, map_of xs k}"
proof (induction xs)
  case (Cons x xs)
  then have "fst x = k \<Longrightarrow> map_of (filter P xs) k = None"
    by (auto simp: map_of_eq_None_iff)
  then show ?case using Cons by (cases x) auto
qed simp

lemma evict_lookup: "cache_inv c \<Longrightarrow> map_of (ic_entries (evictLocked now c)) k \<in> {None, map_of (ic_entries c) k}"
proof -
  assume "cache_inv c"
  then have dist: "distinct (map fst (ic_entries c))" by (simp add: cache_inv_def)
  have live: "map_of (filter (\<lambda>(_, _, e). now < e) (ic_entries c)) k \<in> {None, map_of (ic_entries c) k}"
    using map_of_filter_sub [OF dist] .
  then show ?thesis
    by (auto simp: evictLocked_def Let_def delete_conv')
qed

lemma put_fields [simp]:
  "ic_max (cache_put k r now c) = ic_max c" "ic_ttl (cache_put k r now c) = ic_ttl c"
  by (simp_all add: cache_put_def Let_def evictLocked_def)

text \<open>Storing an entry with its expiry, the last part of a put.\<close>

definition store_entry :: "string \<Rightarrow> cache_entry \<Rightarrow> instant \<Rightarrow> inspect_cache \<Rightarrow> inspect_cache" where
  "store_entry key entry now c =
     (let c' = evictLocked now c in c'\<lparr>ic_entries := AList.update key entry (ic_entries c')\<rparr>)"

lemma cache_put_store: "cache_put k r now c = store_entry k (r, time_add now (ic_ttl c)) now c"
  by (simp add: cache_put_def store_entry_def Let_def evictLocked_def)

lemma store_inv:
  assumes "cache_inv c" and "k \<noteq> []"
  shows "cache_inv (store_entry k v now c)"
proof -
  let ?c = "evictLocked now c"
  have ev: "cache_inv ?c" "int (length (ic_entries ?c)) < ic_max c" "ic_max ?c = ic_max c"
    using evict_inv [OF assms(1)] by blast+
  let ?es = "AList.update k v (ic_entries ?c)"
  have put: "ic_entries (store_entry k v now c) = ?es" "ic_max (store_entry k v now c) = ic_max c"
    by (simp_all add: store_entry_def Let_def evictLocked_def)
  have keys: "map fst ?es = (if k \<in> set (map fst (ic_entries ?c)) then map fst (ic_entries ?c)
      else map fst (ic_entries ?c) @ [k])"
    by (rule update_keys)
  then have "length ?es \<le> Suc (length (ic_entries ?c))"
    by (metis length_append_singleton length_map le_Suc_eq order_refl)
  then have "int (length ?es) \<le> ic_max c" using ev(2) by linarith
  moreover have "[] \<notin> set (map fst ?es)" "distinct (map fst ?es)"
    using ev(1) assms(2) unfolding keys by (auto simp: cache_inv_def)
  ultimately show ?thesis
    using assms(1) unfolding cache_inv_def put by simp
qed

lemma put_lookup:
  "map_of (ic_entries (cache_put k r now c)) =
     (map_of (ic_entries (evictLocked now c)))(k \<mapsto> (r, time_add now (ic_ttl c)))"
  by (simp add: cache_put_def Let_def update_conv' evictLocked_def)

interpretation report_cache:
  bounded_store cache_inv "\<lambda>c k. map_of (ic_entries c) k" store_entry "\<lambda>c. length (ic_entries c)"
    "\<lambda>c. nat (ic_max c)" "\<lambda>k. k \<noteq> []"
proof unfold_locales
  fix c k k' t and v :: cache_entry
  assume inv: "cache_inv c"
  have ev: "map_of (ic_entries (store_entry k v t c)) = (map_of (ic_entries (evictLocked t c)))(k \<mapsto> v)"
    by (simp add: store_entry_def Let_def update_conv')
  show "nat (ic_max (store_entry k v t c)) = nat (ic_max c)"
    by (simp add: store_entry_def Let_def evictLocked_def)
  show "length (ic_entries c) \<le> nat (ic_max c)"
    using inv unfolding cache_inv_def by linarith
  show "k \<noteq> [] \<Longrightarrow> map_of (ic_entries (store_entry k v t c)) k = Some v"
    by (simp add: ev)
  show "k' \<noteq> k \<Longrightarrow> map_of (ic_entries (store_entry k v t c)) k' \<in> {None, map_of (ic_entries c) k'}"
    using evict_lookup [OF inv, of t k'] by (simp add: ev)
  show "k \<noteq> [] \<Longrightarrow> cache_inv (store_entry k v t c)"
    by (rule store_inv [OF inv])
qed

definition cache_run :: "(string \<times> inspect_result \<times> instant) list \<Rightarrow> inspect_cache \<Rightarrow> inspect_cache" where
  "cache_run hist c = foldl (\<lambda>c (k, r, now). cache_put k r now c) c hist"

lemma cache_run_ttl: "ic_ttl (cache_run hist c) = ic_ttl c"
  unfolding cache_run_def by (induction hist rule: rev_induct) auto

lemma cache_run_store:
  "cache_run hist c = report_cache.run (map (\<lambda>(k, r, t). (k, (r, time_add t (ic_ttl c)), t)) hist) c"
proof (induction hist rule: rev_induct)
  case (snoc x hist)
  obtain k r t where x: "x = (k, r, t)" by (cases x)
  have "cache_run (hist @ [x]) c = cache_put k r t (cache_run hist c)"
    by (simp add: cache_run_def x)
  then show ?case by (simp add: x cache_put_store cache_run_ttl flip: snoc)
qed (simp add: cache_run_def)

lemma newInspectCache_inv: "cache_inv (newInspectCache ttl mx)"
  by (simp add: newInspectCache_def cache_inv_def inspectCacheMaxEntries_def)

section \<open>Properties\<close>


definition sample_entry :: entry_report where
  "sample_entry = \<lparr>rep_Kind = ''instance'', rep_Key = [], rep_TTL = Absent 7, rep_Summary = [],
     rep_Thresholds = DefaultThresholds\<rparr>"

definition sample_result :: "u32 \<Rightarrow> inspect_result" where
  "sample_result l = \<lparr>ir_ContractID = ''CA'', ir_Deployed = False, ir_Executable = [], ir_WasmHash = [],
     ir_Instance = sample_entry, ir_Code = None, ir_Data = [], ir_InstanceStorage = NoStorage,
     ir_ExtendEstimates = [], ir_Status = StatusMissing, ir_LatestLedger = l, ir_CloseTimeNote = NoteTarget\<rparr>"


text \<open>
  The cache is bounded: whatever sequence of reports is put, it never holds more than its
  maximum (256 entries when none is given), and every key at most once.
\<close>

theorem cache_bounded:
  assumes "\<forall>k \<in> fst ` set hist. k \<noteq> []"
  shows "int (length (ic_entries (cache_run hist (newInspectCache ttl mx)))) \<le> (if mx \<le> 0 then 256 else mx) \<and>
    distinct (map fst (ic_entries (cache_run hist (newInspectCache ttl mx))))"
proof -
  have "cache_inv (cache_run hist (newInspectCache ttl mx))"
    unfolding cache_run_store
    by (rule report_cache.run_inv [OF newInspectCache_inv]) (use assms in force)
  moreover have "ic_max (cache_run hist (newInspectCache ttl mx)) = (if mx \<le> 0 then 256 else mx)"
    unfolding cache_run_def
    by (induction hist rule: rev_induct) (auto simp: newInspectCache_def inspectCacheMaxEntries_def)
  ultimately show ?thesis by (simp add: cache_inv_def)
qed

lemma cache_bounded_witness:
  "int (length (ic_entries (cache_run [(''a'', sample_result 1, 0), (''b'', sample_result 2, 5)] (newInspectCache second 1)))) \<le> 1"
  using cache_bounded [of "[(''a'', sample_result 1, 0), (''b'', sample_result 2, 5)]" second 1] by simp

text \<open>
  What the key leaves out: two requests that differ only in the extension to estimate share a
  key, so the second is answered with the estimates (or their absence) of the first; and a data
  key with a zero byte reads as two keys.
\<close>

lemma cache_key_ignores_estimate:
  "inspectCacheKey (req\<lparr>rq_EstimateExtend := n\<rparr>) = inspectCacheKey req"
  by (simp add: inspectCacheKey_def)

lemma cache_key_collision:
  "inspectCacheKey (req\<lparr>rq_DataKeys := [a @ [nul] @ b]\<rparr>) = inspectCacheKey (req\<lparr>rq_DataKeys := [a, b]\<rparr>)"
  by (simp add: inspectCacheKey_def)

end
