(* ===== verification/Prober.thy ===== *)
theory Prober
  imports Inspect_Cache Contract_Abi
begin

text \<open>
  The prober and its state, \<^verbatim>\<open>internal/probe/probe.go\<close>; the measured ledger close time with its
  cache, \<^verbatim>\<open>ledger_time.go\<close>; and the readiness of the endpoint, \<^verbatim>\<open>ready.go\<close>.

  The fields a prober is built with are the record \<open>prober\<close>; what changes while it runs (the
  world behind the client, the two caches) is the record \<open>pstate\<close> that operations pass on.
\<close>

section \<open>The prober\<close>

record ledger_time_cache =
  lt_duration :: duration
  lt_measuredAt :: instant

record 'w pstate =
  world :: 'w
  ledgerTime :: "ledger_time_cache option"
  reportCache :: "inspect_cache option"

type_synonym 'w abi_source = "string \<Rightarrow> string \<Rightarrow> 'w \<Rightarrow> (abi_error, abi_interface) result \<times> 'w"

record 'w prober =
  p_client :: "'w client"
  p_sdk :: sdk_lib
  p_codec :: codec_impl
  p_source :: string
  p_thresholds :: thresholds
  p_overrides :: threshold_overrides
  p_abi :: "'w abi_source option"
  p_network :: string
  p_baseFee :: i64

record 'w options =
  o_Client :: "'w client option"
  o_Codec :: "codec_impl option"
  o_SourceAccount :: string
  o_Thresholds :: thresholds
  o_ThresholdOverrides :: threshold_overrides
  o_ABI :: "'w abi_source option"
  o_Network :: string
  o_InspectCacheTTL :: duration
  o_BaseFee :: i64

text \<open>\<^verbatim>\<open>New\<close>: the prober and its initial state in a world.\<close>

definition New :: "sdk_lib \<Rightarrow> 'w options \<Rightarrow> 'w \<Rightarrow> (error, 'w prober \<times> 'w pstate) result" where
  "New S opts w =
     (case o_Client opts of
        None \<Rightarrow> Inl ClientRequired
      | Some client \<Rightarrow>
          if o_SourceAccount opts = [] then Inl EmptySource
          else
            let codec = (case o_Codec opts of
                  None \<Rightarrow> registry_codec (strkeys S) (NewRegistry (strkeys S)) | Some c \<Rightarrow> c);
                thresholds = (if o_Thresholds opts = \<lparr>Warn = 0, Critical = 0\<rparr> then DefaultThresholds
                  else o_Thresholds opts);
                cache = (if 0 <s o_InspectCacheTTL opts
                  then Some (newInspectCache (o_InspectCacheTTL opts) inspectCacheMaxEntries) else None);
                baseFee = (if o_BaseFee opts \<le>s 0 then DefaultBaseFee else o_BaseFee opts)
            in Inr (\<lparr>p_client = client, p_sdk = S, p_codec = codec, p_source = o_SourceAccount opts,
                     p_thresholds = thresholds, p_overrides = o_ThresholdOverrides opts,
                     p_abi = o_ABI opts, p_network = o_Network opts, p_baseFee = baseFee\<rparr>,
                   \<lparr>world = w, ledgerTime = Some \<lparr>lt_duration = 0, lt_measuredAt = 0\<rparr>,
                    reportCache = cache\<rparr>))"

section \<open>Calls\<close>

type_synonym ('w, 'a) pop = "('w pstate, error, 'a) op"

definition rpc :: "('w, 'a) call \<Rightarrow> ('w, 'a) pop" where
  "rpc c = (\<lambda>s. case c (world s) of (r, w) \<Rightarrow> (rmap_err RpcError r, s\<lparr>world := w\<rparr>))"

definition ctx_err :: "'w client \<Rightarrow> ('w, string option) pop" where
  "ctx_err C = (\<lambda>s. case CtxErr C (world s) of (e, w) \<Rightarrow> (Inr e, s\<lparr>world := w\<rparr>))"

definition now :: "'w client \<Rightarrow> ('w, instant) pop" where
  "now C = (\<lambda>s. case Now C (world s) of (t, w) \<Rightarrow> (Inr t, s\<lparr>world := w\<rparr>))"

text \<open>An invariant of the world that the calls keep is kept by the lifted calls.\<close>

definition call_keeps :: "('w \<Rightarrow> bool) \<Rightarrow> ('w \<Rightarrow> 'r \<times> 'w) \<Rightarrow> bool" where
  "call_keeps I c \<longleftrightarrow> (\<forall>w. I w \<longrightarrow> I (snd (c w)))"

lemma keeps_rpc [keeps_rules]: "call_keeps I c \<Longrightarrow> keeps (\<lambda>s. I (world s)) (rpc c)"
  by (auto simp: keeps_def rpc_def call_keeps_def split: prod.splits)

lemma keeps_ctx_err [keeps_rules]: "call_keeps I (CtxErr C) \<Longrightarrow> keeps (\<lambda>s. I (world s)) (ctx_err C)"
  by (auto simp: keeps_def ctx_err_def call_keeps_def split: prod.splits)

lemma keeps_now [keeps_rules]: "call_keeps I (Now C) \<Longrightarrow> keeps (\<lambda>s. I (world s)) (now C)"
  by (auto simp: keeps_def now_def call_keeps_def split: prod.splits)

text \<open>What does not look at the world is kept by every call.\<close>

lemma keeps_calls:
  assumes "\<And>s w. I s \<Longrightarrow> I (s\<lparr>world := w\<rparr>)"
  shows "keeps I (rpc c)" "keeps I (ctx_err C)" "keeps I (now C)"
  using assms by (auto simp: keeps_def rpc_def ctx_err_def now_def split: prod.splits)

section \<open>Measured ledger close time\<close>

definition ledgerTimeWindow :: nat where "ledgerTimeWindow = 20"

definition ledgerTimeCacheTTL :: duration where "ledgerTimeCacheTTL = 5 * minute"

definition fallback :: "('w, duration \<times> close_time_note) pop" where
  "fallback = eret (LedgerCloseTime, NoteTarget)"

definition ctx_or_fallback :: "'w client \<Rightarrow> ('w, duration \<times> close_time_note) pop" where
  "ctx_or_fallback C =
     ebind (ctx_err C) (\<lambda>e. case e of Some msg \<Rightarrow> ethrow (CtxError msg) | None \<Rightarrow> fallback)"

text \<open>The average over a window of ledgers; \<open>None\<close> is the fallback.\<close>

definition measured_close_time :: "ledger_info list \<Rightarrow> duration option" where
  "measured_close_time resp =
     (if length resp < 2 then None
      else
        let ledgers = sort_key li_Sequence resp;
            first = hd ledgers; final = last ledgers;
            sequenceDelta = ucast (li_Sequence final) - ucast (li_Sequence first) :: i64;
            closeTimeDelta = li_LedgerCloseTime final - li_LedgerCloseTime first
        in if sequenceDelta \<le>s 0 \<or> closeTimeDelta \<le>s 0 then None
           else let measured = quot64 (closeTimeDelta * second) sequenceDelta
                in if measured \<le>s 0 then None else Some measured)"

definition window_start :: "u32 \<Rightarrow> u32" where
  "window_start latest =
     (if of_nat ledgerTimeWindow \<le> latest then latest - (of_nat ledgerTimeWindow - 1) else 1)"

definition cache_fresh :: "'w client \<Rightarrow> ledger_time_cache \<Rightarrow> ('w, bool) pop" where
  "cache_fresh C cache =
     (if 0 <s lt_duration cache
      then ebind (now C) (\<lambda>t. eret (time_sub t (lt_measuredAt cache) <s ledgerTimeCacheTTL))
      else eret False)"

definition ledgerCloseTime :: "'w client \<Rightarrow> ('w, duration \<times> close_time_note) pop" where
  "ledgerCloseTime C =
     ebind (eget ledgerTime) (\<lambda>lt.
     case lt of
       None \<Rightarrow> fallback
     | Some cache \<Rightarrow>
         ebind (cache_fresh C cache) (\<lambda>fresh.
         if fresh then eret (lt_duration cache, NoteMeasured (lt_duration cache))
         else
           ebind (etry (rpc (GetLatestLedger C))) (\<lambda>r.
           case r of
             Inl _ \<Rightarrow> ctx_or_fallback C
           | Inr latest \<Rightarrow>
               ebind (etry (rpc (GetLedgers C (window_start latest) ledgerTimeWindow))) (\<lambda>r.
               case r of
                 Inl _ \<Rightarrow> ctx_or_fallback C
               | Inr ledgers \<Rightarrow>
                   (case measured_close_time ledgers of
                      None \<Rightarrow> fallback
                    | Some measured \<Rightarrow>
                        ebind (now C) (\<lambda>t.
                        ebind (emodify (ledgerTime_update (\<lambda>_. Some \<lparr>lt_duration = measured, lt_measuredAt = t\<rparr>))) (\<lambda>_.
                        eret (measured, NoteMeasured measured))))))))"

section \<open>Readiness\<close>

definition Ready :: "'w client \<Rightarrow> string \<Rightarrow> ('w, unit) pop" where
  "Ready C wantPassphrase =
     ebind (etry (rpc (GetHealth C))) (\<lambda>h.
     case h of
       Inl e \<Rightarrow> ethrow (RpcUnreachable ''getHealth'')
     | Inr status \<Rightarrow>
         if status \<noteq> ''healthy'' then ethrow (RpcUnhealthy status)
         else ebind (etry (rpc (GetNetwork C))) (\<lambda>n.
              case n of
                Inl e \<Rightarrow> ethrow (RpcUnreachable ''getNetwork'')
              | Inr passphrase \<Rightarrow>
                  if passphrase \<noteq> wantPassphrase then ethrow (WrongNetwork passphrase wantPassphrase)
                  else eret ()))"

section \<open>Lemmas\<close>

lemma measured_positive: "measured_close_time resp = Some d \<Longrightarrow> 0 < sint d"
  by (auto simp: measured_close_time_def Let_def word_sle_eq split: if_splits)

lemma close_time_yields:
  "yields (\<lambda>(d, note). 0 < sint d \<and> (note = NoteTarget \<and> d = LedgerCloseTime \<or> note = NoteMeasured d))
     (ledgerCloseTime C)"
proof -
  let ?Q = "\<lambda>(d, note). 0 < sint d \<and> (note = NoteTarget \<and> d = LedgerCloseTime \<or> note = NoteMeasured d)"
  have "0 < sint LedgerCloseTime" by (simp add: LedgerCloseTime_def second_def)
  then have fb: "yields ?Q fallback" by (simp add: fallback_def yields_eret)
  have ctx: "yields ?Q (ctx_or_fallback C)"
    unfolding ctx_or_fallback_def by (intro yields_rules fb)
  have fresh: "yields (\<lambda>b. b \<longrightarrow> 0 < sint (lt_duration c)) (cache_fresh C c)" for c
    unfolding cache_fresh_def by (intro yields_rules) (simp_all add: word_sless_alt)
  show ?thesis
    unfolding ledgerCloseTime_def
    by (intro yields_rules fb ctx yields_ebind [OF fresh]) (auto dest: measured_positive)
qed

lemma keeps_close_time:
  assumes "call_keeps I (GetLatestLedger C)" and "\<And>a n. call_keeps I (GetLedgers C a n)"
    and "call_keeps I (CtxErr C)" and "call_keeps I (Now C)"
  shows "keeps (\<lambda>s. I (world s)) (ledgerCloseTime C)"
  unfolding ledgerCloseTime_def ctx_or_fallback_def fallback_def cache_fresh_def
  by (intro keeps_rules keeps_emodify assms) simp_all

lemma keeps_close_time_fields:
  assumes "\<And>s w. I s \<Longrightarrow> I (s\<lparr>world := w\<rparr>)" and "\<And>s f. I s \<Longrightarrow> I (ledgerTime_update f s)"
  shows "keeps I (ledgerCloseTime C)"
  unfolding ledgerCloseTime_def ctx_or_fallback_def fallback_def cache_fresh_def
  by (intro keeps_ebind keeps_basic keeps_etry keeps_emodify keeps_if keeps_case_option keeps_case_sum
      keeps_calls assms)

lemma sorted_hd_last:
  assumes "distinct (map k xs)" and "f \<in> set xs" and "l \<in> set xs"
    and "\<forall>x \<in> set xs. k f \<le> k x \<and> k x \<le> k l"
  shows "hd (sort_key k xs) = f" and "last (sort_key k xs) = l"
proof -
  let ?s = "sort_key k xs"
  have inj: "x = y" if "x \<in> set xs" "y \<in> set xs" "k x = k y" for x y
    using assms(1) that by (auto simp: distinct_map inj_on_def)
  have ne: "?s \<noteq> []" using assms(2) by (metis length_pos_if_in_set length_sort less_numeral_extra(3) list.size(3))
  have "hd ?s \<in> set xs" "last ?s \<in> set xs"
    using ne hd_in_set [OF ne] last_in_set [OF ne] by simp_all
  moreover have "k (hd ?s) \<le> k f" "k l \<le> k (last ?s)"
  proof -
    have srt: "sorted (map k ?s)" by simp
    obtain h t where s: "?s = h # t" using ne by (cases ?s) auto
    have "f \<in> set (h # t)" using assms(2) unfolding s [symmetric] by simp
    then show "k (hd ?s) \<le> k f" using srt unfolding s by auto
    obtain j where j: "j < length ?s" "?s ! j = l" using assms(3) by (metis in_set_conv_nth set_sort)
    have "map k ?s ! j \<le> map k ?s ! (length ?s - 1)"
      using sorted_nth_mono [OF srt, of j "length ?s - 1"] j(1) by simp
    then show "k l \<le> k (last ?s)"
      using j ne by (simp add: last_conv_nth nth_map)
  qed
  ultimately show "hd ?s = f" "last ?s = l"
    using assms(2-4) inj by (meson order.antisym)+
qed

section \<open>Properties\<close>


text \<open>A world that counts calls, for examples.\<close>

definition sample_client :: "(string list \<Rightarrow> entries_response) \<Rightarrow> (string \<Rightarrow> simulate_response) \<Rightarrow> nat client" where
  "sample_client es sim =
     \<lparr>SimulateTransaction = (\<lambda>tx w. (Inr (sim tx), w + 1)),
      GetLedgerEntries = (\<lambda>ks w. (Inr (es ks), w + 1)),
      GetLatestLedger = (\<lambda>w. (Inr 100, w + 1)),
      GetLedgers = (\<lambda>start n w. (Inr [], w + 1)),
      GetNetwork = (\<lambda>w. (Inr ''net'', w + 1)),
      GetHealth = (\<lambda>w. (Inr ''healthy'', w + 1)),
      CtxErr = (\<lambda>w. (None, w)),
      Now = (\<lambda>w. (int w, w))\<rparr>"

definition sample_state :: "nat pstate" where
  "sample_state = \<lparr>world = 0, ledgerTime = Some \<lparr>lt_duration = 6 * second, lt_measuredAt = 0\<rparr>, reportCache = None\<rparr>"


text \<open>
  The measured close time is the average over the window: for ledgers of distinct
  sequences, in whatever order they arrive, it is the time between the first and the last,
  in nanoseconds, divided by the number of ledgers between them, rounded down.
\<close>

theorem measured_average:
  assumes "distinct (map li_Sequence resp)" and "f \<in> set resp" and "l \<in> set resp"
    and "\<forall>x \<in> set resp. li_Sequence f \<le> li_Sequence x \<and> li_Sequence x \<le> li_Sequence l"
    and seq: "uint (li_Sequence f) < uint (li_Sequence l)"
    and time: "0 < sint (li_LedgerCloseTime l) - sint (li_LedgerCloseTime f)"
    and small: "sint (li_LedgerCloseTime l) - sint (li_LedgerCloseTime f) < 2 ^ 33"
    and pos: "uint (li_Sequence l) - uint (li_Sequence f) \<le> 10 ^ 9"
  shows "measured_close_time resp = Some (word_of_int
    ((sint (li_LedgerCloseTime l) - sint (li_LedgerCloseTime f)) * 10 ^ 9 div
     (uint (li_Sequence l) - uint (li_Sequence f))))"
proof -
  let ?T = "sint (li_LedgerCloseTime l) - sint (li_LedgerCloseTime f)"
  let ?S = "uint (li_Sequence l) - uint (li_Sequence f)"
  have hd: "hd (sort_key li_Sequence resp) = f" and last: "last (sort_key li_Sequence resp) = l"
    using sorted_hd_last [OF assms(1-4)] by simp_all
  have ne: "f \<noteq> l" using seq by auto
  have len: "\<not> length resp < 2"
  proof
    assume "length resp < 2"
    then have "length resp = 0 \<or> length resp = 1" by linarith
    then show False using assms(2,3) ne by (auto simp: length_Suc_conv)
  qed
  have sS: "sint (ucast (li_Sequence l) - ucast (li_Sequence f) :: i64) = ?S"
    by (rule sint_minus_ucast_32)
  have sT: "sint (li_LedgerCloseTime l - li_LedgerCloseTime f) = ?T"
  proof -
    have "li_LedgerCloseTime l - li_LedgerCloseTime f = word_of_int ?T"
      by (simp add: wi_hom_sub [symmetric])
    then show ?thesis using sint_64_of_int_eq [of ?T] time small by simp
  qed
  have TN: "?T * 10 ^ 9 < 9223372036854775808" using small by simp
  have prod: "sint ((li_LedgerCloseTime l - li_LedgerCloseTime f) * second) = ?T * 10 ^ 9"
  proof -
    have "(li_LedgerCloseTime l - li_LedgerCloseTime f) * second = word_of_int (?T * 10 ^ 9)"
      by (simp add: second_def wi_hom_sub [symmetric] wi_hom_mult [symmetric])
    then show ?thesis using sint_64_of_int_eq [of "?T * 10 ^ 9"] time TN by simp
  qed
  have S: "0 < ?S" using seq by simp
  have q: "0 < ?T * 10 ^ 9 div ?S"
  proof -
    have "1 * 10 ^ 9 \<le> ?T * 10 ^ 9" using time by (intro mult_right_mono) auto
    then have "?S \<le> ?T * 10 ^ 9" using pos by linarith
    then show ?thesis using S by (simp add: pos_imp_zdiv_pos_iff)
  qed
  have qs: "?T * 10 ^ 9 div ?S < 9223372036854775808"
    using TN S time zdiv_mono2 [of "?T * 10 ^ 9" 1 ?S] by simp
  have quot: "quot64 ((li_LedgerCloseTime l - li_LedgerCloseTime f) * second)
      (ucast (li_Sequence l) - ucast (li_Sequence f)) = word_of_int (?T * 10 ^ 9 div ?S)"
    unfolding quot64_def sS prod using time S by (simp add: sgn_mult)
  have "sint (word_of_int (?T * 10 ^ 9 div ?S) :: i64) = ?T * 10 ^ 9 div ?S"
    using q qs by (intro sint_64_of_int_eq) linarith+
  then show ?thesis
    unfolding measured_close_time_def Let_def hd last quot if_not_P [OF len] word_sle_eq sS sT
    using S time q by simp
qed

definition sample_ledger :: "u32 \<Rightarrow> i64 \<Rightarrow> ledger_info" where
  "sample_ledger s t = \<lparr>li_Sequence = s, li_LedgerCloseTime = t\<rparr>"

lemma measured_average_witness:
  "measured_close_time [sample_ledger 9 130, sample_ledger 5 100] =
     Some (word_of_int ((sint (130 :: i64) - sint (100 :: i64)) * 10 ^ 9 div (uint (9 :: u32) - uint (5 :: u32))))"
proof -
  have "li_Sequence (sample_ledger s t) = s" "li_LedgerCloseTime (sample_ledger s t) = t" for s t
    by (simp_all add: sample_ledger_def)
  then show ?thesis
    using measured_average [of "[sample_ledger 9 130, sample_ledger 5 100]" "sample_ledger 5 100" "sample_ledger 9 130"]
    by simp
qed

end
