(* ===== verification/Inspect.thy ===== *)
theory Inspect
  imports Prober
begin

text \<open>
  State-health inspection, \<^verbatim>\<open>internal/probe/inspect.go\<close>: the plan of a request, the reading of
  the instance, code and data entries, the pricing of extensions, and \<open>Inspect\<close> in front of
  the cache of reports.

  A contract's executable type is the SDK's text for it, as in the decoder of contract values.
\<close>

section \<open>Plans\<close>

record encoded_data_key =
  dk_spec :: string
  dk_encoded :: string
  dk_key :: ledger_key

record inspect_plan =
  ip_contract :: sc_address
  ip_instanceKey :: string
  ip_dataKeys :: "encoded_data_key list"
  ip_keys :: "string list"
  ip_durability :: durability

definition encodeDataKeys ::
    "'w prober \<Rightarrow> sc_address \<Rightarrow> string list \<Rightarrow> durability \<Rightarrow> (error, encoded_data_key list) result" where
  "encodeDataKeys P contract specs dur =
     rmap (\<lambda>_ spec.
       rbind (rmap_err CodecError (cd_Encode (p_codec P) spec)) (\<lambda>val.
       let xdrDurability = (if dur = DurabilityTemporary then DurabilityTemporary else DurabilityPersistent);
           key = DataKey contract val xdrDurability
       in rbind (EncodeKey (p_sdk P) key) (\<lambda>encoded.
          Inr \<lparr>dk_spec = spec, dk_encoded = encoded, dk_key = key\<rparr>))) specs"

definition planInspect :: "'w prober \<Rightarrow> inspect_request \<Rightarrow> (error, inspect_plan) result" where
  "planInspect P req =
     rbind (ParseContractID (strkeys (p_sdk P)) (rq_ContractID req)) (\<lambda>contract.
     let dur = (if rq_DataDurability req = no_durability then DurabilityPersistent else rq_DataDurability req)
     in rbind (EncodeKey (p_sdk P) (InstanceKey contract)) (\<lambda>instanceKey.
        rbind (encodeDataKeys P contract (rq_DataKeys req) dur) (\<lambda>dataKeys.
        Inr \<lparr>ip_contract = contract, ip_instanceKey = instanceKey, ip_dataKeys = dataKeys,
             ip_keys = instanceKey # map dk_encoded dataKeys, ip_durability = dur\<rparr>)))"

section \<open>Entry reports\<close>

definition thresholdsFor :: "'w prober \<Rightarrow> entry_kind \<Rightarrow> thresholds" where
  "thresholdsFor P kind = ResolveThresholds kind (p_thresholds P) (p_overrides P)"

definition entrySummary :: "string \<Rightarrow> thresholds \<Rightarrow> string" where
  "entrySummary summary t =
     summary @ '' (thresholds: warn <= '' @ itoa (uint (Warn t)) @ '', critical <= '' @
     itoa (uint (Critical t)) @ '' ledgers)''"

text \<open>A report whose summary is the TTL's own description, which may panic.\<close>

definition described :: "string \<Rightarrow> string \<Rightarrow> ttl \<Rightarrow> thresholds \<Rightarrow> (error, entry_report) result" where
  "described kind key ttl t =
     (case Describe ttl of
        None \<Rightarrow> Inl NilDereference
      | Some text \<Rightarrow> Inr \<lparr>rep_Kind = kind, rep_Key = key, rep_TTL = ttl,
          rep_Summary = entrySummary text t, rep_Thresholds = t\<rparr>)"

text \<open>A later entry under the same key overwrites an earlier one.\<close>

definition indexEntries :: "ledger_entry list \<Rightarrow> string \<Rightarrow> ledger_entry option" where
  "indexEntries entries = map_of (rev (map (\<lambda>e. (le_KeyXDR e, e)) entries))"

definition dataReport ::
    "'w prober \<Rightarrow> (string \<Rightarrow> ledger_entry option) \<Rightarrow> u32 \<Rightarrow> durability \<Rightarrow> duration \<Rightarrow>
     encoded_data_key \<Rightarrow> (error, entry_report) result" where
  "dataReport P found latest dur closeTime dk =
     (let t = thresholdsFor P EntryKindData in
      case found (dk_encoded dk) of
        Some entry \<Rightarrow> described ''data'' (dk_spec dk)
          (EvaluateWithCloseTime (le_LiveUntil entry) latest dur t closeTime) t
      | None \<Rightarrow> described ''data'' (dk_spec dk) ((Absent latest)\<lparr>Durability := dur\<rparr>) t)"

definition worstStatus :: "inspect_result \<Rightarrow> status" where
  "worstStatus r =
     Worst (Status (rep_TTL (ir_Instance r)) #
       (case ir_Code r of None \<Rightarrow> [] | Some c \<Rightarrow> [Status (rep_TTL c)]) @
       map (\<lambda>d. Status (rep_TTL d)) (ir_Data r))"

section \<open>The instance entry\<close>

definition decodeStorage :: "'w prober \<Rightarrow> (scval \<times> scval) list \<Rightarrow> storage_report" where
  "decodeStorage P storage =
     (case cd_Decode (p_codec P) (ScvMap (Some storage)) of
        Inl e \<Rightarrow> StorageFailed e | Inr v \<Rightarrow> Storage v)"

record instance_info =
  in_Executable :: string
  in_WasmHash :: string
  in_Storage :: storage_report
  in_Hash :: "u8 list option"

definition readInstanceEntry :: "'w prober \<Rightarrow> ledger_entry \<Rightarrow> (error, instance_info) result" where
  "readInstanceEntry P entry =
     rbind (DecodeEntryData (p_sdk P) (le_DataXDR entry)) (\<lambda>data.
     case data of
       EntryContractData val \<Rightarrow>
         (case val of
            ScvContractInstance None \<Rightarrow> Inl NilDereference
          | ScvContractInstance (Some (ty, hash, storage)) \<Rightarrow>
              let st = (case storage of None \<Rightarrow> NoStorage | Some m \<Rightarrow> decodeStorage P m) in
              if ty = ''ContractExecutableTypeContractExecutableWasm'' then
                Inr \<lparr>in_Executable = ''wasm'',
                     in_WasmHash = (case hash of None \<Rightarrow> [] | Some h \<Rightarrow> hex_encode h),
                     in_Storage = st, in_Hash = hash\<rparr>
              else if ty = ''ContractExecutableTypeContractExecutableStellarAsset'' then
                Inr \<lparr>in_Executable = ''stellar_asset'', in_WasmHash = [], in_Storage = st, in_Hash = None\<rparr>
              else Inr \<lparr>in_Executable = ty, in_WasmHash = [], in_Storage = st, in_Hash = None\<rparr>
          | _ \<Rightarrow> Inl NotContractInstance)
     | EntryContractCode _ \<Rightarrow> Inl (NotContractData ''LedgerEntryTypeContractCode'')
     | EntryOther ty \<Rightarrow> Inl (NotContractData ty))"

section \<open>The code entry\<close>

definition inspectCode :: "'w prober \<Rightarrow> u8 list \<Rightarrow> duration \<Rightarrow> ('w, entry_report) pop" where
  "inspectCode P hash closeTime =
     ebind (elift (EncodeKey (p_sdk P) (CodeKey hash))) (\<lambda>key.
     ebind (rpc (GetLedgerEntries (p_client P) [key])) (\<lambda>resp.
     let t = thresholdsFor P EntryKindCode in
     case er_Entries resp of
       [] \<Rightarrow> eret \<lparr>rep_Kind = ''code'', rep_Key = [], rep_TTL = Absent (er_LatestLedger resp),
              rep_Summary = entrySummary ''wasm code entry not found; it may have been archived'' t,
              rep_Thresholds = t\<rparr>
     | e # _ \<Rightarrow> elift (described ''code'' []
         (EvaluateWithCloseTime (le_LiveUntil e) (er_LatestLedger resp) DurabilityPersistent t closeTime) t)))"

section \<open>Extension estimates\<close>

record extend_target =
  et_kind :: string
  et_spec :: string
  et_key :: ledger_key
  et_ttl :: ttl

definition estimateExtendFee :: "'w prober \<Rightarrow> ledger_key \<Rightarrow> u32 \<Rightarrow> ('w, i64 \<times> i64) pop" where
  "estimateExtendFee P key extendTo =
     ebind (elift (BuildExtendFootprintTx (p_sdk P) (p_source P) key extendTo)) (\<lambda>envelope.
     ebind (rpc (SimulateTransaction (p_client P) envelope)) (\<lambda>resp.
     if sr_Error resp \<noteq> [] then ethrow (ExtensionFailed (sr_Error resp))
     else if sr_TransactionDataXDR resp = [] then ethrow ExtensionNoData
     else case unmarshal_transaction (p_sdk P) (sr_TransactionDataXDR resp) of
            None \<Rightarrow> ethrow TransactionDataError
          | Some data \<Rightarrow> eret (td_ResourceFee data, sr_MinResourceFee resp)))"

definition extend_targets ::
    "sc_address \<Rightarrow> u8 list option \<Rightarrow> encoded_data_key list \<Rightarrow> inspect_result \<Rightarrow> extend_target list" where
  "extend_targets contract wasmHash dataKeys result =
     [\<lparr>et_kind = ''instance'', et_spec = [], et_key = InstanceKey contract,
       et_ttl = rep_TTL (ir_Instance result)\<rparr>] @
     (case (wasmHash, ir_Code result) of
        (Some h, Some c) \<Rightarrow> [\<lparr>et_kind = ''code'', et_spec = [], et_key = CodeKey h, et_ttl = rep_TTL c\<rparr>]
      | _ \<Rightarrow> []) @
     map (\<lambda>(dk, d). \<lparr>et_kind = ''data'', et_spec = dk_spec dk, et_key = dk_key dk, et_ttl = rep_TTL d\<rparr>)
       (zip dataKeys (ir_Data result))"

definition estimate_one :: "'w prober \<Rightarrow> u32 \<Rightarrow> u32 \<Rightarrow> extend_target \<Rightarrow> ('w, extend_estimate) pop" where
  "estimate_one P latest ledgers t =
     (let estimate = \<lparr>ee_Kind = et_kind t, ee_Key = et_spec t, ee_Ledgers = ledgers,
            ee_ExtendTo = latest + ledgers, ee_ResourceFee = 0, ee_MinResourceFee = 0, ee_Note = NoteNone\<rparr>
      in if \<not> Present (et_ttl t) then eret (estimate\<lparr>ee_Note := NoteNotOnLedger\<rparr>)
         else if Status (et_ttl t) = StatusExpired then eret (estimate\<lparr>ee_Note := NoteExpired\<rparr>)
         else if LiveUntilLedger (et_ttl t) = None then eret (estimate\<lparr>ee_Note := NoteNoTTL\<rparr>)
         else ebind (estimateExtendFee P (et_key t) (ee_ExtendTo estimate)) (\<lambda>(fee, minFee).
              eret (estimate\<lparr>ee_ResourceFee := fee, ee_MinResourceFee := minFee\<rparr>)))"

definition estimateExtends ::
    "'w prober \<Rightarrow> sc_address \<Rightarrow> u8 list option \<Rightarrow> encoded_data_key list \<Rightarrow> inspect_result \<Rightarrow> u32 \<Rightarrow>
     ('w, extend_estimate list) pop" where
  "estimateExtends P contract wasmHash dataKeys result ledgers =
     emap (estimate_one P (ir_LatestLedger result) ledgers)
       (extend_targets contract wasmHash dataKeys result)"

section \<open>Inspecting\<close>

definition undeployed_report ::
    "'w prober \<Rightarrow> inspect_request \<Rightarrow> u32 \<Rightarrow> close_time_note \<Rightarrow> inspect_result" where
  "undeployed_report P req latest note =
     (let t = thresholdsFor P EntryKindInstance in
      \<lparr>ir_ContractID = rq_ContractID req, ir_Deployed = False, ir_Executable = [], ir_WasmHash = [],
       ir_Instance = \<lparr>rep_Kind = ''instance'', rep_Key = [], rep_TTL = Absent latest,
         rep_Summary = entrySummary ''contract is not deployed on this network'' t, rep_Thresholds = t\<rparr>,
       ir_Code = None, ir_Data = [], ir_InstanceStorage = NoStorage, ir_ExtendEstimates = [],
       ir_Status = StatusMissing, ir_LatestLedger = latest, ir_CloseTimeNote = note\<rparr>)"

definition inspect_deployed ::
    "'w prober \<Rightarrow> inspect_request \<Rightarrow> inspect_plan \<Rightarrow> (string \<Rightarrow> ledger_entry option) \<Rightarrow> u32 \<Rightarrow>
     duration \<Rightarrow> close_time_note \<Rightarrow> ledger_entry \<Rightarrow> ('w, inspect_result) pop" where
  "inspect_deployed P req plan found latest closeTime note inst =
     (let t = thresholdsFor P EntryKindInstance in
      ebind (elift (described ''instance'' []
        (EvaluateWithCloseTime (le_LiveUntil inst) latest DurabilityPersistent t closeTime) t)) (\<lambda>report.
      ebind (elift (readInstanceEntry P inst)) (\<lambda>info.
      ebind (elift (rmap (\<lambda>_. dataReport P found latest (ip_durability plan) closeTime) (ip_dataKeys plan))) (\<lambda>data.
      ebind (case in_Hash info of
               None \<Rightarrow> eret None
             | Some hash \<Rightarrow> ebind (inspectCode P hash closeTime) (\<lambda>c. eret (Some c))) (\<lambda>code.
      let result = \<lparr>ir_ContractID = rq_ContractID req, ir_Deployed = True,
            ir_Executable = in_Executable info, ir_WasmHash = in_WasmHash info, ir_Instance = report,
            ir_Code = code, ir_Data = data, ir_InstanceStorage = in_Storage info,
            ir_ExtendEstimates = [], ir_Status = StatusOther [], ir_LatestLedger = latest,
            ir_CloseTimeNote = note\<rparr>
      in ebind (if 0 < rq_EstimateExtend req
                then estimateExtends P (ip_contract plan) (in_Hash info) (ip_dataKeys plan) result
                       (rq_EstimateExtend req)
                else eret []) (\<lambda>estimates.
         eret (result\<lparr>ir_ExtendEstimates := estimates, ir_Status := worstStatus result\<rparr>)))))))"

definition inspectUncached :: "'w prober \<Rightarrow> inspect_request \<Rightarrow> ('w, inspect_result) pop" where
  "inspectUncached P req =
     ebind (elift (planInspect P req)) (\<lambda>plan.
     ebind (rpc (GetLedgerEntries (p_client P) (ip_keys plan))) (\<lambda>resp.
     ebind (ledgerCloseTime (p_client P)) (\<lambda>(closeTime, note).
     let found = indexEntries (er_Entries resp) in
     case found (ip_instanceKey plan) of
       None \<Rightarrow> eret (undeployed_report P req (er_LatestLedger resp) note)
     | Some inst \<Rightarrow> inspect_deployed P req plan found (er_LatestLedger resp) closeTime note inst)))"

definition cache_read :: "'w client \<Rightarrow> string \<Rightarrow> ('w, inspect_result option) pop" where
  "cache_read C key =
     ebind (eget reportCache) (\<lambda>rc.
     case rc of
       None \<Rightarrow> eret None
     | Some c \<Rightarrow>
         if map_of (ic_entries c) key = None then eret None
         else ebind (now C) (\<lambda>t.
              case cache_get key t c of (hit, c') \<Rightarrow>
                ebind (emodify (reportCache_update (\<lambda>_. Some c'))) (\<lambda>_. eret hit)))"

definition cache_write :: "'w client \<Rightarrow> string \<Rightarrow> inspect_result \<Rightarrow> ('w, unit) pop" where
  "cache_write C key result =
     ebind (now C) (\<lambda>t. emodify (reportCache_update (map_option (cache_put key result t))))"

definition Inspect :: "'w prober \<Rightarrow> inspect_request \<Rightarrow> ('w, inspect_result) pop" where
  "Inspect P req =
     ebind (eget reportCache) (\<lambda>rc.
     case rc of
       None \<Rightarrow> inspectUncached P req
     | Some _ \<Rightarrow>
         let key = inspectCacheKey req in
         ebind (cache_read (p_client P) key) (\<lambda>hit.
         case hit of
           Some result \<Rightarrow> eret result
         | None \<Rightarrow>
             ebind (inspectUncached P req) (\<lambda>result.
             ebind (cache_write (p_client P) key result) (\<lambda>_. eret result))))"

section \<open>Lemmas\<close>

definition report_entries :: "inspect_result \<Rightarrow> entry_report list" where
  "report_entries r =
     ir_Instance r # (case ir_Code r of None \<Rightarrow> [] | Some c \<Rightarrow> [c]) @ ir_Data r"

abbreviation rep_Status :: "entry_report \<Rightarrow> status" where
  "rep_Status e \<equiv> Status (rep_TTL e)"

lemma worstStatus_entries: "worstStatus r = Worst (map rep_Status (report_entries r))"
  by (simp add: worstStatus_def report_entries_def split: option.splits)

lemma worstStatus_severity:
  "severity (worstStatus r) = Max (severity ` set (map rep_Status (report_entries r)))"
proof -
  have "set (map rep_Status (report_entries r)) \<noteq> {}" by (simp add: report_entries_def)
  then show ?thesis
    unfolding worstStatus_entries Worst_def worst_loop_severity by (simp del: set_map)
qed

lemma evaluate_ttl_fields [simp]:
  "CurrentLedger (EvaluateWithCloseTime lu c d t ct) = c"
  "Durability (EvaluateWithCloseTime lu c d t ct) = d"
  "Present (EvaluateWithCloseTime lu c d t ct)"
  "LiveUntilLedger (EvaluateWithCloseTime lu c d t ct) = lu"
  by (simp_all add: EvaluateWithCloseTime_def Let_def split: option.splits)

lemma absent_fields [simp]:
  "CurrentLedger (Absent c) = c" "Status (Absent c) = StatusMissing" "\<not> Present (Absent c)"
  by (simp_all add: Absent_def)

lemma described_Inr:
  "described kind key ttl t = Inr rep \<Longrightarrow>
     rep_Kind rep = kind \<and> rep_Key rep = key \<and> rep_TTL rep = ttl \<and> rep_Thresholds rep = t"
  by (auto simp: described_def split: option.splits)

lemma dataReport_Inr:
  assumes "dataReport P found latest dur ct dk = Inr rep"
  shows "rep_Kind rep = ''data'' \<and> rep_Key rep = dk_spec dk \<and> Durability (rep_TTL rep) = dur \<and>
    CurrentLedger (rep_TTL rep) = latest \<and> (Present (rep_TTL rep) \<longleftrightarrow> found (dk_encoded dk) \<noteq> None)"
  using assms by (auto simp: dataReport_def Let_def split: option.splits dest!: described_Inr)

lemma plan_Inr:
  assumes "planInspect P req = Inr plan"
  shows "map dk_spec (ip_dataKeys plan) = rq_DataKeys req"
    and "ip_keys plan = ip_instanceKey plan # map dk_encoded (ip_dataKeys plan)"
    and "ip_durability plan = (if rq_DataDurability req = no_durability then DurabilityPersistent
           else rq_DataDurability req)"
proof -
  show "map dk_spec (ip_dataKeys plan) = rq_DataKeys req"
  proof -
    obtain c dur where "encodeDataKeys P c (rq_DataKeys req) dur = Inr (ip_dataKeys plan)"
      using assms by (auto simp: planInspect_def Let_def result_simps)
    then have "length (ip_dataKeys plan) = length (rq_DataKeys req)"
      and "\<forall>i < length (rq_DataKeys req). dk_spec (ip_dataKeys plan ! i) = rq_DataKeys req ! i"
      by (auto simp: encodeDataKeys_def rmap_from_Inr_iff Let_def result_simps) (metis encoded_data_key.select_convs(1))
    then show ?thesis by (intro nth_equalityI) simp_all
  qed
qed (use assms in \<open>auto simp: planInspect_def Let_def result_simps\<close>)

lemma inspectCode_yields:
  "yields (\<lambda>c. rep_Kind c = ''code'' \<and> rep_Key c = []) (inspectCode P hash ct)"
  unfolding inspectCode_def Let_def
  by (intro yields_ebind' yields_case_list yields_eret yields_elift) (auto dest: described_Inr)

definition sound_report :: "inspect_request \<Rightarrow> durability \<Rightarrow> inspect_result \<Rightarrow> bool" where
  "sound_report req dur r \<longleftrightarrow>
     ir_ContractID r = rq_ContractID req \<and> CurrentLedger (rep_TTL (ir_Instance r)) = ir_LatestLedger r \<and>
     (if ir_Deployed r
      then ir_Status r = worstStatus r \<and> Present (rep_TTL (ir_Instance r)) \<and>
        map rep_Key (ir_Data r) = rq_DataKeys req \<and>
        (\<forall>d \<in> set (ir_Data r). rep_Kind d = ''data'' \<and> Durability (rep_TTL d) = dur \<and>
           CurrentLedger (rep_TTL d) = ir_LatestLedger r)
      else ir_Status r = StatusMissing \<and> ir_Code r = None \<and> ir_Data r = [] \<and> ir_ExtendEstimates r = [] \<and>
        rep_Status (ir_Instance r) = StatusMissing)"

lemma worstStatus_update [simp]:
  "worstStatus (r\<lparr>ir_ExtendEstimates := es\<rparr>) = worstStatus r"
  "worstStatus (r\<lparr>ir_Status := st\<rparr>) = worstStatus r"
  by (simp_all add: worstStatus_def)

lemma data_reports:
  assumes "rmap (\<lambda>_. dataReport P found latest dur ct) dks = Inr data"
  shows "map rep_Key data = map dk_spec dks \<and> (\<forall>d \<in> set data. rep_Kind d = ''data'' \<and>
    Durability (rep_TTL d) = dur \<and> CurrentLedger (rep_TTL d) = latest)"
proof -
  have len: "length data = length dks" and
    nth: "dataReport P found latest dur ct (dks ! k) = Inr (data ! k)" if "k < length dks" for k
    using assms that by (simp_all add: rmap_from_Inr_iff)
  have len: "length data = length dks" using rmap_from_length [OF assms] .
  have keys: "map rep_Key data = map dk_spec dks"
    by (rule nth_equalityI) (use len dataReport_Inr [OF nth] in auto)
  have "rep_Kind d = ''data'' \<and> Durability (rep_TTL d) = dur \<and> CurrentLedger (rep_TTL d) = latest"
    if "d \<in> set data" for d
    using that len dataReport_Inr [OF nth] by (metis in_set_conv_nth)
  with keys show ?thesis by blast
qed

lemma deployed_yields:
  assumes specs: "map dk_spec (ip_dataKeys plan) = rq_DataKeys req"
  shows "yields (\<lambda>r. ir_Deployed r \<and> sound_report req (ip_durability plan) r)
    (inspect_deployed P req plan found latest ct note inst)"
proof -
  let ?D = "\<lambda>data. map rep_Key data = rq_DataKeys req \<and> (\<forall>d \<in> set data. rep_Kind d = ''data'' \<and>
    Durability (rep_TTL d) = ip_durability plan \<and> CurrentLedger (rep_TTL d) = latest)"
  let ?I = "\<lambda>rep. Present (rep_TTL rep) \<and> CurrentLedger (rep_TTL rep) = latest"
  have inst: "yields ?I (elift (described ''instance'' []
      (EvaluateWithCloseTime (le_LiveUntil inst) latest DurabilityPersistent t ct) t))" for t
    by (rule yields_elift) (auto dest: described_Inr)
  have data: "yields ?D (elift (rmap (\<lambda>_. dataReport P found latest (ip_durability plan) ct) (ip_dataKeys plan)))"
    by (rule yields_elift) (use data_reports specs in force)
  show ?thesis
    unfolding inspect_deployed_def Let_def
    by (rule yields_ebind [OF inst], rule yields_ebind', rule yields_ebind [OF data],
        rule yields_ebind', rule yields_ebind', rule yields_eret)
      (auto simp: sound_report_def worstStatus_def)
qed

lemma uncached_yields:
  "yields (sound_report req (if rq_DataDurability req = no_durability then DurabilityPersistent
       else rq_DataDurability req)) (inspectUncached P req)"
proof -
  let ?dur = "if rq_DataDurability req = no_durability then DurabilityPersistent else rq_DataDurability req"
  have plan: "yields (\<lambda>plan. map dk_spec (ip_dataKeys plan) = rq_DataKeys req \<and> ip_durability plan = ?dur)
      (elift (planInspect P req))"
    by (rule yields_elift) (use plan_Inr in blast)
  have und: "sound_report req ?dur (undeployed_report P req latest nt)" for latest nt
    by (simp add: sound_report_def undeployed_report_def Let_def)
  have dep: "yields (sound_report req ?dur) (inspect_deployed P req plan found latest ct nt inst)"
    if "map dk_spec (ip_dataKeys plan) = rq_DataKeys req \<and> ip_durability plan = ?dur" for plan found latest ct nt inst
    by (rule yields_mono [OF deployed_yields]) (use that in simp_all)
  have rest: "yields (sound_report req ?dur)
      (ebind (rpc (GetLedgerEntries (p_client P) (ip_keys plan))) (\<lambda>resp.
       ebind (ledgerCloseTime (p_client P)) (\<lambda>(closeTime, note).
       case indexEntries (er_Entries resp) (ip_instanceKey plan) of
         None \<Rightarrow> eret (undeployed_report P req (er_LatestLedger resp) note)
       | Some inst \<Rightarrow> inspect_deployed P req plan (indexEntries (er_Entries resp)) (er_LatestLedger resp)
           closeTime note inst)))"
    if "map dk_spec (ip_dataKeys plan) = rq_DataKeys req \<and> ip_durability plan = ?dur" for plan
    by (intro yields_ebind' yields_case_prod yields_case_option yields_eret und dep that)
  show ?thesis
    unfolding inspectUncached_def Let_def by (rule yields_ebind [OF plan rest])
qed


section \<open>Only reading\<close>

definition reads_keep :: "('w \<Rightarrow> bool) \<Rightarrow> 'w client \<Rightarrow> bool" where
  "reads_keep I C \<longleftrightarrow> (\<forall>ks. call_keeps I (GetLedgerEntries C ks)) \<and> call_keeps I (GetLatestLedger C) \<and>
     (\<forall>a n. call_keeps I (GetLedgers C a n)) \<and> call_keeps I (CtxErr C) \<and> call_keeps I (Now C)"

lemma keeps_inspectCode:
  "reads_keep I (p_client P) \<Longrightarrow> keeps (\<lambda>s. I (world s)) (inspectCode P hash ct)"
  unfolding inspectCode_def Let_def by (intro keeps_rules) (simp add: reads_keep_def)

lemma keeps_close:
  "reads_keep I C \<Longrightarrow> keeps (\<lambda>s. I (world s)) (ledgerCloseTime C)"
  by (rule keeps_close_time) (simp_all add: reads_keep_def)

lemma keeps_deployed:
  assumes "reads_keep I (p_client P)" and "rq_EstimateExtend req = 0"
  shows "keeps (\<lambda>s. I (world s)) (inspect_deployed P req plan found latest ct nt inst)"
  unfolding inspect_deployed_def Let_def assms(2)
  by (intro keeps_rules keeps_inspectCode assms(1)) simp

lemma keeps_uncached:
  assumes "reads_keep I (p_client P)" and "rq_EstimateExtend req = 0"
  shows "keeps (\<lambda>s. I (world s)) (inspectUncached P req)"
proof -
  have "call_keeps I (GetLedgerEntries (p_client P) ks)" for ks
    using assms(1) by (simp add: reads_keep_def)
  then show ?thesis
    unfolding inspectUncached_def Let_def
    by (intro keeps_ebind keeps_basic keeps_rpc keeps_close [OF assms(1)] keeps_case_prod keeps_case_option
        keeps_deployed [OF assms])
qed

lemma keeps_inspect:
  assumes "reads_keep I (p_client P)" and "rq_EstimateExtend req = 0"
  shows "keeps (\<lambda>s. I (world s)) (Inspect P req)"
proof -
  have now: "call_keeps I (Now (p_client P))" using assms(1) by (simp add: reads_keep_def)
  show ?thesis
    unfolding Inspect_def cache_read_def cache_write_def Let_def
    by (intro keeps_ebind keeps_basic keeps_now keeps_emodify keeps_case_prod keeps_case_option keeps_if
        keeps_uncached [OF assms] now) simp_all
qed

section \<open>The cache in front\<close>

text \<open>
  Requests without zero bytes, of the durabilities the program knows: those the key tells
  apart, up to the estimate.
\<close>

definition plain_request :: "inspect_request \<Rightarrow> bool" where
  "plain_request req \<longleftrightarrow> nul \<notin> set (rq_ContractID req) \<and> list_all (\<lambda>k. nul \<notin> set k) (rq_DataKeys req) \<and>
     rq_DataDurability req \<in> {no_durability, DurabilityPersistent, DurabilityTemporary}"

definition effective_durability :: "inspect_request \<Rightarrow> durability" where
  "effective_durability req =
     (if rq_DataDurability req = no_durability then DurabilityPersistent else rq_DataDurability req)"

lemma append_nul_eq:
  assumes "nul \<notin> set a" and "nul \<notin> set b"
    and "r = [] \<or> hd r = nul" and "s = [] \<or> hd s = nul" and "a @ r = b @ s"
  shows "a = b \<and> r = s"
proof -
  have split: "takeWhile (\<lambda>c. c \<noteq> nul) (x @ y) = x" if "nul \<notin> set x" "y = [] \<or> hd y = nul" for x y
  proof -
    have "takeWhile (\<lambda>c. c \<noteq> nul) (x @ y) = x @ takeWhile (\<lambda>c. c \<noteq> nul) y"
      using that(1) by (intro takeWhile_append2) auto
    moreover have "takeWhile (\<lambda>c. c \<noteq> nul) y = []" using that(2) by (cases y) auto
    ultimately show ?thesis by simp
  qed
  have "a = b" using split [OF assms(1,3)] split [OF assms(2,4)] assms(5) by simp
  with assms(5) show ?thesis by simp
qed

lemma keys_tail_inj:
  assumes "list_all (\<lambda>k. nul \<notin> set k) ks" and "list_all (\<lambda>k. nul \<notin> set k) ls"
    and "concat (map (\<lambda>k. nul # k) ks) = concat (map (\<lambda>k. nul # k) ls)"
  shows "ks = ls"
  using assms
proof (induction ks arbitrary: ls)
  case Nil
  then show ?case by (cases ls) simp_all
next
  case (Cons k ks)
  then obtain l ls' where ls: "ls = l # ls'" by (cases ls) auto
  have tail: "concat (map (\<lambda>k. nul # k) xs) = [] \<or> hd (concat (map (\<lambda>k. nul # k) xs)) = nul" for xs
    by (cases xs) simp_all
  have "k @ concat (map (\<lambda>k. nul # k) ks) = l @ concat (map (\<lambda>k. nul # k) ls')"
    using Cons.prems(3) ls by simp
  then have "k = l \<and> concat (map (\<lambda>k. nul # k) ks) = concat (map (\<lambda>k. nul # k) ls')"
    using Cons.prems(1,2) ls by (intro append_nul_eq [OF _ _ tail tail]) simp_all
  with Cons ls show ?case by simp
qed

lemma cache_key_eq:
  assumes "plain_request a" and "plain_request b" and "inspectCacheKey a = inspectCacheKey b"
  shows "rq_ContractID a = rq_ContractID b \<and> rq_DataKeys a = rq_DataKeys b \<and>
    effective_durability a = effective_durability b"
proof -
  let ?t = "\<lambda>r. concat (map (\<lambda>k. nul # k) (rq_DataKeys r))"
  let ?d = "\<lambda>r. durability_text (effective_durability r)"
  have key: "inspectCacheKey r = rq_ContractID r @ (nul # ?d r @ ?t r)" for r
    by (simp add: inspectCacheKey_def effective_durability_def)
  have dur: "effective_durability r \<in> {DurabilityPersistent, DurabilityTemporary}" if "plain_request r" for r
    using that by (auto simp: plain_request_def effective_durability_def)
  have dnul: "nul \<notin> set (?d r)" if "plain_request r" for r
    using dur [OF that] by (auto simp: nul_def)
  have "rq_ContractID a = rq_ContractID b \<and> nul # ?d a @ ?t a = nul # ?d b @ ?t b"
    using assms unfolding key by (intro append_nul_eq) (simp_all add: plain_request_def)
  moreover have tail: "?t r = [] \<or> hd (?t r) = nul" for r
    by (cases "rq_DataKeys r") simp_all
  ultimately have "?d a = ?d b \<and> ?t a = ?t b"
    by (intro append_nul_eq [OF dnul [OF assms(1)] dnul [OF assms(2)] tail tail]) simp
  moreover have "rq_DataKeys a = rq_DataKeys b" if "?t a = ?t b"
    using keys_tail_inj [OF _ _ that] assms(1,2) by (simp add: plain_request_def)
  moreover have "effective_durability a = effective_durability b" if "?d a = ?d b"
    using that dur [OF assms(1)] dur [OF assms(2)] by auto
  ultimately show ?thesis
    using \<open>rq_ContractID a = rq_ContractID b \<and> _\<close> by blast
qed

definition cached_sound :: "inspect_cache \<Rightarrow> bool" where
  "cached_sound c \<longleftrightarrow> cache_inv c \<and>
     (\<forall>k r e. map_of (ic_entries c) k = Some (r, e) \<longrightarrow>
        (\<exists>req. plain_request req \<and> k = inspectCacheKey req \<and> sound_report req (effective_durability req) r))"

definition cache_ok :: "'w pstate \<Rightarrow> bool" where
  "cache_ok s \<longleftrightarrow> (\<forall>c. reportCache s = Some c \<longrightarrow> cached_sound c)"

lemma cache_ok_updates [simp]:
  "cache_ok (s\<lparr>world := w\<rparr>) = cache_ok s" "cache_ok (ledgerTime_update f s) = cache_ok s"
  by (simp_all add: cache_ok_def)

lemma key_nonempty [simp]: "inspectCacheKey req \<noteq> []"
  by (simp add: inspectCacheKey_def)

lemma cached_sound_put:
  assumes "cached_sound c" and "plain_request req" and "sound_report req (effective_durability req) r"
  shows "cached_sound (cache_put (inspectCacheKey req) r t c)"
proof -
  have inv: "cache_inv c" using assms(1) by (simp add: cached_sound_def)
  have "cache_inv (cache_put (inspectCacheKey req) r t c)"
    unfolding cache_put_store by (rule store_inv [OF inv]) simp
  moreover have "\<exists>req'. plain_request req' \<and> k = inspectCacheKey req' \<and> sound_report req' (effective_durability req') r'"
    if hit: "map_of (ic_entries (cache_put (inspectCacheKey req) r t c)) k = Some (r', e)" for k r' e
  proof (cases "k = inspectCacheKey req")
    case True
    then have "r' = r" using hit by (simp add: put_lookup)
    with True assms(2,3) show ?thesis by blast
  next
    case False
    then have "map_of (ic_entries (evictLocked t c)) k = Some (r', e)" using hit by (simp add: put_lookup)
    then have "map_of (ic_entries c) k = Some (r', e)"
      using evict_lookup [OF inv, of t k] by auto
    with assms(1) show ?thesis by (auto simp: cached_sound_def)
  qed
  ultimately show ?thesis unfolding cached_sound_def by blast
qed

lemma cached_sound_get:
  assumes "cached_sound c" and "cache_get key t c = (hit, c')"
  shows "cached_sound c'"
proof (cases "c' = c")
  case False
  then have c': "c' = c\<lparr>ic_entries := AList.delete key (ic_entries c)\<rparr>"
    using assms(2) by (auto simp: cache_get_def split: option.splits if_splits)
  have inv: "cache_inv c" using assms(1) by (simp add: cached_sound_def)
  have "length (AList.delete key (ic_entries c)) \<le> length (ic_entries c)"
    by (rule length_delete_le)
  then have "int (length (AList.delete key (ic_entries c))) \<le> ic_max c"
    using inv unfolding cache_inv_def by linarith
  moreover have "[] \<notin> fst ` set (AList.delete key (ic_entries c))"
    using inv unfolding fst_set_delete cache_inv_def by blast
  ultimately have "cache_inv c'"
    using inv unfolding c' cache_inv_def by (simp add: distinct_delete)
  moreover have "map_of (ic_entries c) k = Some v" if "map_of (ic_entries c') k = Some v" for k v
    using that by (auto simp: c' delete_conv' split: if_splits)
  ultimately show ?thesis using assms(1) unfolding cached_sound_def by blast
qed (use assms(1) in simp)

lemma cached_sound_hit:
  assumes "cached_sound c" and "plain_request req"
    and "fst (cache_get (inspectCacheKey req) t c) = Some r"
  shows "sound_report req (effective_durability req) r"
proof -
  obtain e where "map_of (ic_entries c) (inspectCacheKey req) = Some (r, e)"
    using assms(3) by (auto simp: cache_get_def split: option.splits if_splits)
  then obtain req' where req': "plain_request req'" "inspectCacheKey req = inspectCacheKey req'"
      "sound_report req' (effective_durability req') r"
    using assms(1) by (auto simp: cached_sound_def)
  have "rq_ContractID req = rq_ContractID req' \<and> rq_DataKeys req = rq_DataKeys req' \<and>
      effective_durability req = effective_durability req'"
    using cache_key_eq [OF assms(2) req'(1,2)] .
  with req'(3) show ?thesis by (simp add: sound_report_def)
qed

lemma ensures_cache_read:
  assumes "plain_request req"
  shows "ensures cache_ok (\<lambda>hit. \<forall>r. hit = Some r \<longrightarrow> sound_report req (effective_durability req) r)
    (cache_read C (inspectCacheKey req))"
proof -
  let ?Q = "\<lambda>hit. \<forall>r. hit = Some r \<longrightarrow> sound_report req (effective_durability req) r"
  have now: "ensures cache_ok (\<lambda>_. True) (now C)"
    by (intro ensures_keeps keeps_calls) simp
  have got: "ensures cache_ok ?Q (case cache_get (inspectCacheKey req) t c of (hit, c') \<Rightarrow>
      ebind (emodify (reportCache_update (\<lambda>_. Some c'))) (\<lambda>_. eret hit))" if "cached_sound c" for t c
  proof (cases "cache_get (inspectCacheKey req) t c")
    case (Pair hit c')
    have "cached_sound c'" using cached_sound_get [OF that Pair] .
    then have "ensures cache_ok (\<lambda>_. True) (emodify (reportCache_update (\<lambda>_. Some c')))"
      by (intro ensures_emodify) (simp add: cache_ok_def)
    moreover have "?Q hit" using cached_sound_hit [OF that assms, of t] Pair by simp
    ultimately show ?thesis
      unfolding Pair prod.case by (rule ensures_ebind [OF _ ensures_eret])
  qed
  have state: "ensures cache_ok (\<lambda>rc. \<forall>c. rc = Some c \<longrightarrow> cached_sound c) (eget reportCache)"
    by (rule ensures_eget) (simp add: cache_ok_def)
  show ?thesis
    unfolding cache_read_def
    by (rule ensures_ebind [OF state], intro ensures_case_option ensures_if ensures_eret ensures_ebind [OF now] got)
      simp_all
qed

lemma keeps_inspect_fields:
  assumes "\<And>s w. I s \<Longrightarrow> I (s\<lparr>world := w\<rparr>)" and "\<And>s f. I s \<Longrightarrow> I (ledgerTime_update f s)"
  shows "keeps I (inspectUncached P req)"
  unfolding inspectUncached_def inspect_deployed_def inspectCode_def estimateExtends_def estimate_one_def
    estimateExtendFee_def Let_def
  by (intro keeps_ebind keeps_basic keeps_close_time_fields keeps_emap keeps_if keeps_case_option
      keeps_case_prod keeps_case_list keeps_calls assms)

lemma ensures_inspect:
  assumes "plain_request req"
  shows "ensures cache_ok (sound_report req (effective_durability req)) (Inspect P req)"
proof -
  let ?Q = "sound_report req (effective_durability req)"
  have uncached: "ensures cache_ok ?Q (inspectUncached P req)"
    using uncached_yields [of req P]
    by (intro ensures_keeps_yields keeps_inspect_fields) (simp_all add: effective_durability_def)
  have now: "ensures cache_ok (\<lambda>_. True) (now C)" for C :: "'a client"
    by (intro ensures_keeps keeps_calls) simp
  have put: "ensures cache_ok (\<lambda>_. True) (cache_write C (inspectCacheKey req) r)" if "?Q r" for r and C :: "'a client"
    unfolding cache_write_def
    by (rule ensures_ebind [OF now], rule ensures_emodify)
      (auto simp: cache_ok_def intro: cached_sound_put [OF _ assms that])
  have state: "ensures cache_ok (\<lambda>_. True) (eget reportCache)"
    by (rule ensures_eget) simp
  show ?thesis
    unfolding Inspect_def Let_def
    by (rule ensures_ebind [OF state], rule ensures_case_option, rule uncached,
        rule ensures_ebind [OF ensures_cache_read [OF assms]], rule ensures_case_option,
        rule ensures_ebind [OF uncached], rule ensures_ebind [OF put], assumption,
        rule ensures_eret, assumption, rule ensures_eret, simp)
qed

text \<open>
  The states of a running service: from its initial state, any number of inspections, failed or
  not, with anything happening in between to the world and the measured close time.
\<close>

inductive serving :: "'w prober \<Rightarrow> 'w pstate \<Rightarrow> 'w pstate \<Rightarrow> bool" for P s0 where
  start: "serving P s0 s0"
| inspected: "serving P s0 s \<Longrightarrow> plain_request req \<Longrightarrow> Inspect P req s = (r, t) \<Longrightarrow> serving P s0 t"
| elapsed: "serving P s0 s \<Longrightarrow> serving P s0 (s\<lparr>world := w, ledgerTime := lt\<rparr>)"

lemma serving_cache_ok: "serving P s0 s \<Longrightarrow> cache_ok s0 \<Longrightarrow> cache_ok s"
proof (induction rule: serving.induct)
  case (inspected s req r t)
  then show ?case using ensuresD(1) [OF ensures_inspect] by blast
next
  case (elapsed s w lt)
  then show ?case unfolding cache_ok_def by simp
qed

lemma New_cache_ok: "New S opts w = Inr (P, s) \<Longrightarrow> cache_ok s"
  by (auto simp: New_def cache_ok_def cached_sound_def newInspectCache_inv Let_def split: option.splits if_splits)
    (auto simp: newInspectCache_def)

section \<open>Examples\<close>

text \<open>
  A codec, an SDK and a prober for examples: every key has a one-letter encoding, the entry
  \<open>''inst''\<close> holds a built-in contract and \<open>''wasm''\<close> one with code.
\<close>

definition sample_codec :: codec_impl where
  "sample_codec = \<lparr>cd_Encode = (\<lambda>s. Inr (ScvSymbol (Some s))),
     cd_EncodeAll = (\<lambda>ss. Inr (map (\<lambda>s. ScvSymbol (Some s)) ss)),
     cd_Decode = (\<lambda>v. Inr JNull), cd_HasType = None\<rparr>"

definition sample_sdk :: sdk_lib where
  "sample_sdk = \<lparr>strkeys = sample_lib,
     marshal_key = (\<lambda>k. Some (case k of
        KeyContractData _ v _ \<Rightarrow> (if v = ScvLedgerKeyContractInstance then ''I'' else ''D'')
      | KeyContractCode _ \<Rightarrow> ''W'' | _ \<Rightarrow> ''O'')),
     unmarshal_entry = (\<lambda>x. if x = ''inst'' then Some (EntryContractData (ScvContractInstance
        (Some (''ContractExecutableTypeContractExecutableStellarAsset'', None, None)))) else
        if x = ''wasm'' then Some (EntryContractData (ScvContractInstance
        (Some (''ContractExecutableTypeContractExecutableWasm'', Some [7], None)))) else None),
     unmarshal_transaction = (\<lambda>x. Some \<lparr>td_Instructions = 10, td_DiskReadBytes = 0, td_WriteBytes = 0,
        td_ResourceFee = 5, td_Footprint = \<lparr>lf_ReadOnly = [], lf_ReadWrite = []\<rparr>\<rparr>),
     unmarshal_scval = (\<lambda>x. Some (ScvU32 (Some 3))), marshal_scval = (\<lambda>v. None),
     unmarshal_auth = (\<lambda>x. None), unmarshal_event = (\<lambda>x. None), build_tx = (\<lambda>_ _. Some ''tx'')\<rparr>"

definition sample_prober :: "'w client \<Rightarrow> 'w prober" where
  "sample_prober C = \<lparr>p_client = C, p_sdk = sample_sdk, p_codec = sample_codec, p_source = ''GA'',
     p_thresholds = DefaultThresholds,
     p_overrides = \<lparr>ov_Instance = None, ov_Code = None, ov_Data = None\<rparr>, p_abi = None,
     p_network = ''net'', p_baseFee = 100\<rparr>"

text \<open>A ledger holding the instance entry \<open>data\<close> and nothing else; only simulations count.\<close>

definition instance_ledger :: "string \<Rightarrow> string list \<Rightarrow> entries_response" where
  "instance_ledger data keys = \<lparr>er_Entries = (if ''I'' \<in> set keys
     then [\<lparr>le_KeyXDR = ''I'', le_DataXDR = data, le_LiveUntil = None\<rparr>] else []), er_LatestLedger = 100\<rparr>"

definition quiet_client :: "(string list \<Rightarrow> entries_response) \<Rightarrow> (string \<Rightarrow> simulate_response) \<Rightarrow> nat client" where
  "quiet_client es sim = (sample_client es sim)
     \<lparr>GetLedgerEntries := \<lambda>ks w. (Inr (es ks), w), GetLatestLedger := \<lambda>w. (Inr 100, w),
      GetLedgers := \<lambda>a n w. (Inr [], w)\<rparr>"

definition sample_request :: inspect_request where
  "sample_request = \<lparr>rq_ContractID = ''CA'', rq_DataKeys = [''k''], rq_DataDurability = no_durability,
     rq_EstimateExtend = 0\<rparr>"

definition quiet_response :: "string \<Rightarrow> simulate_response" where
  "quiet_response tx = \<lparr>sr_Error = [], sr_TransactionDataXDR = ''data'', sr_MinResourceFee = 6,
     sr_RestorePreamble = None, sr_Results = [], sr_EventsXDR = [], sr_LatestLedger = 100\<rparr>"

abbreviation quiet_prober :: "nat prober" where
  "quiet_prober \<equiv> sample_prober (quiet_client (instance_ledger ''inst'') quiet_response)"

lemmas sample_simps = sample_prober_def sample_sdk_def sample_codec_def sample_lib_def sample_request_def
  quiet_client_def sample_client_def sample_state_def instance_ledger_def

lemma sample_parse: "ParseContractID sample_lib ''CA'' = Inr (AddrContract (replicate 32 2))"
  by (simp add: ParseContractID_def sample_lib_def copy32_def)

lemma sample_plan:
  "planInspect (sample_prober C) sample_request = Inr
     \<lparr>ip_contract = AddrContract (replicate 32 2), ip_instanceKey = ''I'',
      ip_dataKeys = [\<lparr>dk_spec = ''k'', dk_encoded = ''D'',
        dk_key = DataKey (AddrContract (replicate 32 2)) (ScvSymbol (Some ''k'')) DurabilityPersistent\<rparr>],
      ip_keys = [''I'', ''D''], ip_durability = DurabilityPersistent\<rparr>"
  using sample_parse
  by (simp add: planInspect_def sample_prober_def sample_request_def sample_sdk_def sample_codec_def
      encodeDataKeys_def EncodeKey_def InstanceKey_def DataKey_def Let_def)

lemma sample_entries:
  "rpc (GetLedgerEntries (p_client quiet_prober) ks) s = (Inr (instance_ledger ''inst'' ks), s)"
  by (simp add: rpc_def sample_prober_def quiet_client_def)

text \<open>The report of the sample request, given the close time.\<close>

definition sample_inspected :: "duration \<Rightarrow> close_time_note \<Rightarrow> inspect_result" where
  "sample_inspected d nt =
     \<lparr>ir_ContractID = ''CA'', ir_Deployed = True, ir_Executable = ''stellar_asset'', ir_WasmHash = [],
      ir_Instance = \<lparr>rep_Kind = ''instance'', rep_Key = [],
        rep_TTL = EvaluateWithCloseTime None 100 DurabilityPersistent DefaultThresholds d,
        rep_Summary = entrySummary ''present, but no TTL was reported'' DefaultThresholds,
        rep_Thresholds = DefaultThresholds\<rparr>,
      ir_Code = None,
      ir_Data = [\<lparr>rep_Kind = ''data'', rep_Key = ''k'', rep_TTL = (Absent 100)\<lparr>Durability := DurabilityPersistent\<rparr>,
        rep_Summary = entrySummary ''not found on ledger'' DefaultThresholds,
        rep_Thresholds = DefaultThresholds\<rparr>],
      ir_InstanceStorage = NoStorage, ir_ExtendEstimates = [], ir_Status = StatusMissing,
      ir_LatestLedger = 100, ir_CloseTimeNote = nt\<rparr>"

lemma sample_thresholds [simp]: "thresholdsFor (sample_prober C) k = DefaultThresholds"
  by (cases k) (simp_all add: thresholdsFor_def sample_prober_def ResolveThresholds_def)

lemma sample_deployed:
  "inspect_deployed (sample_prober C) sample_request
     \<lparr>ip_contract = c, ip_instanceKey = ''I'', ip_dataKeys = [\<lparr>dk_spec = ''k'', dk_encoded = ''D'', dk_key = dk\<rparr>],
      ip_keys = ks, ip_durability = DurabilityPersistent\<rparr> [''I'' \<mapsto> e] 100 d nt
     \<lparr>le_KeyXDR = ''I'', le_DataXDR = ''inst'', le_LiveUntil = None\<rparr> s = (Inr (sample_inspected d nt), s)"
proof -
  have info: "readInstanceEntry (sample_prober C) \<lparr>le_KeyXDR = ''I'', le_DataXDR = ''inst'', le_LiveUntil = None\<rparr>
      = Inr \<lparr>in_Executable = ''stellar_asset'', in_WasmHash = [], in_Storage = NoStorage, in_Hash = None\<rparr>"
    by (simp add: readInstanceEntry_def DecodeEntryData_def sample_prober_def sample_sdk_def)
  have inst: "described ''instance'' [] (EvaluateWithCloseTime None 100 DurabilityPersistent DefaultThresholds d)
      DefaultThresholds = Inr (ir_Instance (sample_inspected d nt))"
    by (simp add: described_def sample_inspected_def Describe_def EvaluateWithCloseTime_def Let_def)
  have data: "dataReport (sample_prober C) [''I'' \<mapsto> e] 100 DurabilityPersistent d
      \<lparr>dk_spec = ''k'', dk_encoded = ''D'', dk_key = dk\<rparr> = Inr (hd (ir_Data (sample_inspected d nt)))"
    by (simp add: dataReport_def described_def sample_inspected_def Describe_def Let_def)
  have status: "severity (Status (EvaluateWithCloseTime None 100 DurabilityPersistent DefaultThresholds d)) = 1"
    by (simp add: EvaluateWithCloseTime_def Let_def)
  show ?thesis
    by (simp add: inspect_deployed_def info inst data ebind_apply sample_request_def sample_inspected_def
        worstStatus_def Worst_def status Let_def)
qed

lemma sample_uncached:
  assumes "ledgerCloseTime (p_client quiet_prober) s = (Inr (d, nt), s)"
  shows "inspectUncached quiet_prober sample_request s = (Inr (sample_inspected d nt), s)"
  unfolding inspectUncached_def sample_plan
  by (simp add: ebind_apply sample_entries assms instance_ledger_def indexEntries_def sample_deployed)

lemma sample_close_time:
  "ledgerCloseTime (p_client quiet_prober) sample_state = (Inr (6 * second, NoteMeasured (6 * second)), sample_state)"
  by (simp add: ledgerCloseTime_def ebind_apply cache_fresh_def now_def second_def minute_def
      sample_prober_def quiet_client_def sample_client_def sample_state_def
      ledgerTimeCacheTTL_def time_sub_def min_i64_def max_i64_def word_sless_alt)

lemma isOk_obtain:
  assumes "isOk (fst (m s))"
  obtains x t where "m s = (Inr x, t)"
  using assms by (cases "m s") (auto simp: isOk_def split: sum.splits)

section \<open>Properties\<close>



text \<open>
  An inspection that asks for no estimate only reads: whatever invariant of the world the
  reading calls keep is kept by the whole inspection, cached or not, failed or not, however the
  client's simulation call behaves.
\<close>

theorem inspect_only_reads:
  assumes "reads_keep I (p_client P)" and "rq_EstimateExtend req = 0"
    and "I (world s)" and "Inspect P req s = (r, t)"
  shows "I (world t)"
  using keepsD [OF keeps_inspect [OF assms(1,2)] assms(3,4)] .

lemma inspect_only_reads_witness:
  "world (snd (Inspect quiet_prober sample_request sample_state)) = 0"
proof (rule inspect_only_reads [where I = "\<lambda>w. w = 0"])
  show "reads_keep (\<lambda>w. w = 0) (p_client quiet_prober)"
    by (simp add: reads_keep_def call_keeps_def sample_prober_def quiet_client_def sample_client_def)
  show "Inspect quiet_prober sample_request sample_state = (fst (Inspect quiet_prober sample_request sample_state),
      snd (Inspect quiet_prober sample_request sample_state))" by simp
qed (simp_all add: sample_request_def sample_state_def)


definition sample_options :: "'w client \<Rightarrow> duration \<Rightarrow> 'w options" where
  "sample_options C ttl = \<lparr>o_Client = Some C, o_Codec = Some sample_codec, o_SourceAccount = ''GA'',
     o_Thresholds = DefaultThresholds, o_ThresholdOverrides = \<lparr>ov_Instance = None, ov_Code = None, ov_Data = None\<rparr>,
     o_ABI = None, o_Network = ''net'', o_InspectCacheTTL = ttl, o_BaseFee = 100\<rparr>"


text \<open>
  The ledger an extension would reach is added in 32 bits: near the top it wraps to a ledger
  that is already past.
\<close>

lemma extend_to_wraps:
  assumes "2 ^ 32 \<le> uint latest + uint ledgers"
    and "estimate_one P latest ledgers t s = (Inr e, u)"
  shows "ee_ExtendTo e < latest"
proof -
  have "ee_ExtendTo e = latest + ledgers"
    using assms(2) by (auto simp: estimate_one_def Let_def ebind_eq_Inr split: if_splits)
  moreover have "uint (latest + ledgers) = uint latest + uint ledgers - 2 ^ 32"
    using assms(1) uint_32_range [of latest] uint_32_range [of ledgers]
    by (simp add: uint_plus_if')
  ultimately show ?thesis
    using uint_32_range [of ledgers] by (simp add: word_less_def)
qed

end
