(* ===== verification/Simulate.thy ===== *)
theory Simulate
  imports Inspect
begin

text \<open>
  Simulating an invocation, \<^verbatim>\<open>internal/probe/simulate.go\<close>: typing the arguments from the contract's
  interface, the repeated simulation, and the decoding of a response into a report with its
  footprint, authorizations and events.

  A value of Go's type \<^verbatim>\<open>any\<close> is a \<open>jval\<close> whose \<open>JNull\<close> is nil; \<^verbatim>\<open>Repeat\<close> is an \<open>int\<close>.
\<close>

section \<open>Requests and results\<close>

record simulate_request =
  sq_ContractID :: string
  sq_Function :: string
  sq_Args :: "string list"
  sq_Baseline :: "baseline option"
  sq_MaxIncreasePercent :: "f64 option"
  sq_Repeat :: int
  sq_MaxSpreadPercent :: "f64 option"

record restore_info =
  ri_MinResourceFee :: i64
  ri_ArchivedEntries :: "string list"
  ri_TransactionDataXDR :: string

record event =
  ev_Type :: string
  ev_ContractID :: string
  ev_Topics :: "jval list"
  ev_Data :: jval
  ev_InSuccessfulContractCall :: bool

datatype authorized_invocation = AuthorizedInvocation
  (ai_ContractID: string)
  (ai_Function: string)
  (ai_Args: "jval list")
  (ai_SubInvocations: "authorized_invocation list")

record auth_entry =
  ae_Address :: string
  ae_IsSourceAccount :: bool
  ae_RootInvocation :: "authorized_invocation option"
  ae_RawXDR :: string

datatype abi_note = NoAbiNote | AbiNoteUnknown | AbiNoteNoWasm | AbiNoteUnavailable abi_error

record simulate_result =
  sm_ContractID :: string
  sm_Function :: string
  sm_Args :: "string list"
  sm_Signature :: string
  sm_EncodedArgs :: "string list"
  sm_ABINote :: abi_note
  sm_Success :: bool
  sm_Error :: string
  sm_ReturnValue :: jval
  sm_ReturnValueXDR :: string
  sm_Cost :: cost
  sm_Footprint :: footprint
  sm_Comparison :: "cost_comparison option"
  sm_Spread :: "spread_report option"
  sm_RestoreRequired :: "restore_info option"
  sm_Events :: "event list"
  sm_Auth :: "auth_entry list"
  sm_LatestLedger :: u32

section \<open>Labels of ledger keys\<close>

definition durabilityName :: "durability \<Rightarrow> string" where
  "durabilityName d = (if d = DurabilityTemporary then ''temporary'' else ''persistent'')"

fun describeLedgerKey :: "strkey_lib \<Rightarrow> ledger_key \<Rightarrow> string" where
  "describeLedgerKey L (KeyContractData contract key d) =
     ''contract '' @ (if key = ScvLedgerKeyContractInstance then ''instance'' else ''data'') @ '' '' @
     (case address_string L contract of None \<Rightarrow> ''<unknown contract>'' | Some a \<Rightarrow> a) @
     '' ('' @ durabilityName d @ '')''"
| "describeLedgerKey L (KeyContractCode hash) = ''contract code '' @ hex_encode (take 8 hash)"
| "describeLedgerKey L (KeyAccount a) = ''account '' @ a"
| "describeLedgerKey L KeyTrustline = ''trustline''"
| "describeLedgerKey L KeyTtl = ''ttl entry''"
| "describeLedgerKey L (KeyOther ty) = ty"

definition describeFootprint :: "strkey_lib \<Rightarrow> ledger_footprint \<Rightarrow> footprint" where
  "describeFootprint L fp =
     \<lparr>ReadOnly = map (describeLedgerKey L) (lf_ReadOnly fp),
      ReadWrite = map (describeLedgerKey L) (lf_ReadWrite fp)\<rparr>"

section \<open>Events\<close>

datatype event_error =
    EventXdr nat
  | EventTopic nat decode_error
  | EventData nat decode_error
  | EventPanic

definition decode_event :: "'w prober \<Rightarrow> nat \<Rightarrow> string \<Rightarrow> (event_error, event) result" where
  "decode_event P i b64 =
     (case unmarshal_event (p_sdk P) b64 of
        None \<Rightarrow> Inl (EventXdr i)
      | Some de \<Rightarrow>
          (case de_Body de of
             None \<Rightarrow> Inl EventPanic
           | Some (topics, data) \<Rightarrow>
               rbind (rmap_err (EventTopic i) (rmap (\<lambda>_. cd_Decode (p_codec P)) topics)) (\<lambda>ts.
               rbind (rmap_err (EventData i) (cd_Decode (p_codec P) data)) (\<lambda>d.
               Inr \<lparr>ev_Type = de_Type de,
                    ev_ContractID = (case de_ContractId de of None \<Rightarrow> []
                      | Some h \<Rightarrow> (case address_string (strkeys (p_sdk P)) (AddrContract h) of
                          None \<Rightarrow> [] | Some a \<Rightarrow> a)),
                    ev_Topics = ts, ev_Data = d,
                    ev_InSuccessfulContractCall = de_InSuccessfulContractCall de\<rparr>))))"

definition decodeEvents :: "'w prober \<Rightarrow> string list \<Rightarrow> (event_error, event list) result" where
  "decodeEvents P raw = rmap (decode_event P) raw"

section \<open>Authorizations\<close>

datatype auth_error = AuthArgument decode_error | UnknownAuthFunction string

fun decodeAuthorizedInvocation ::
    "'w prober \<Rightarrow> auth_invocation \<Rightarrow> (auth_error, authorized_invocation) result" where
  "decodeAuthorizedInvocation P (AuthInvocation f subs) =
     rbind (case f of
         AuthContractFn None \<Rightarrow> Inr ([], [], [])
       | AuthContractFn (Some (contract, name, args)) \<Rightarrow>
           rbind (rmap_err AuthArgument (rmap (\<lambda>_. cd_Decode (p_codec P)) args)) (\<lambda>as.
             Inr (case address_string (strkeys (p_sdk P)) contract of None \<Rightarrow> [] | Some a \<Rightarrow> a, name, as))
       | AuthCreateContract \<Rightarrow> Inr ([], ''create_contract'', [])
       | AuthCreateContractV2 \<Rightarrow> Inr ([], ''create_contract_v2'', [])
       | AuthFunctionOther ty \<Rightarrow> Inl (UnknownAuthFunction ty))
     (\<lambda>(contract, name, args).
     rbind (rmap (\<lambda>_. decodeAuthorizedInvocation P) subs) (\<lambda>ss.
     Inr (AuthorizedInvocation contract name args ss)))"

definition credentials_address :: "'w prober \<Rightarrow> auth_credentials \<Rightarrow> string \<times> bool" where
  "credentials_address P c =
     (let text = (\<lambda>a. case a of None \<Rightarrow> []
            | Some addr \<Rightarrow> (case address_string (strkeys (p_sdk P)) addr of None \<Rightarrow> [] | Some t \<Rightarrow> t));
          named = (\<lambda>a. (text a, text a \<noteq> [] \<and> text a = p_source P))
      in case c of
           CredentialsSourceAccount \<Rightarrow> (p_source P, True)
         | CredentialsAddress a \<Rightarrow> named a
         | CredentialsAddressV2 a \<Rightarrow> named a
         | CredentialsWithDelegates a \<Rightarrow> named a
         | CredentialsOther \<Rightarrow> ([], False))"

definition raw_auth :: "string \<Rightarrow> auth_entry" where
  "raw_auth b64 = \<lparr>ae_Address = [], ae_IsSourceAccount = False, ae_RootInvocation = None, ae_RawXDR = b64\<rparr>"

definition decode_auth :: "'w prober \<Rightarrow> string \<Rightarrow> auth_entry" where
  "decode_auth P b64 =
     (case unmarshal_auth (p_sdk P) b64 of
        None \<Rightarrow> raw_auth b64
      | Some entry \<Rightarrow>
          (case credentials_address P (ax_Credentials entry) of (addr, own) \<Rightarrow>
            (case decodeAuthorizedInvocation P (ax_RootInvocation entry) of
               Inl _ \<Rightarrow> raw_auth b64
             | Inr tree \<Rightarrow> \<lparr>ae_Address = addr, ae_IsSourceAccount = own,
                 ae_RootInvocation = Some tree, ae_RawXDR = []\<rparr>)))"

definition decodeAuthEntries :: "'w prober \<Rightarrow> string list \<Rightarrow> auth_entry list" where
  "decodeAuthEntries P raw = map (decode_auth P) raw"

section \<open>A response\<close>

definition restore_of :: "'w prober \<Rightarrow> simulate_response \<Rightarrow> (error, restore_info option) result" where
  "restore_of P resp =
     (case sr_RestorePreamble resp of
        None \<Rightarrow> Inr None
      | Some pre \<Rightarrow>
          (case unmarshal_transaction (p_sdk P) (rp_TransactionDataXDR pre) of
             None \<Rightarrow> Inl RestoreDataError
           | Some data \<Rightarrow> Inr (Some \<lparr>ri_MinResourceFee = rp_MinResourceFee pre,
               ri_ArchivedEntries =
                 map (describeLedgerKey (strkeys (p_sdk P))) (lf_ReadWrite (td_Footprint data)),
               ri_TransactionDataXDR = rp_TransactionDataXDR pre\<rparr>)))"

definition cost_of :: "'w prober \<Rightarrow> simulate_response \<Rightarrow> (error, cost \<times> footprint) result" where
  "cost_of P resp =
     (let c0 = zero_cost\<lparr>MinResourceFee := sr_MinResourceFee resp\<rparr>
      in if sr_TransactionDataXDR resp = [] then Inr (c0, \<lparr>ReadOnly = [], ReadWrite = []\<rparr>)
         else case unmarshal_transaction (p_sdk P) (sr_TransactionDataXDR resp) of
                None \<Rightarrow> Inl TransactionDataError
              | Some data \<Rightarrow> Inr (c0\<lparr>Instructions := td_Instructions data,
                  DiskReadBytes := td_DiskReadBytes data, WriteBytes := td_WriteBytes data,
                  ResourceFee := td_ResourceFee data\<rparr>,
                  describeFootprint (strkeys (p_sdk P)) (td_Footprint data)))"

definition return_value_of :: "'w prober \<Rightarrow> simulate_response \<Rightarrow> (error, string \<times> jval) result" where
  "return_value_of P resp =
     (case sr_Results resp of
        [] \<Rightarrow> Inr ([], JNull)
      | r # _ \<Rightarrow>
          (case hr_ReturnValueXDR r of
             None \<Rightarrow> Inr ([], JNull)
           | Some raw \<Rightarrow>
               (case unmarshal_scval (p_sdk P) raw of
                  None \<Rightarrow> Inl ReturnValueXdrError
                | Some val \<Rightarrow> rbind (rmap_err ReturnValueError (cd_Decode (p_codec P) val)) (\<lambda>d. Inr (raw, d)))))"

definition auth_of :: "'w prober \<Rightarrow> simulate_response \<Rightarrow> auth_entry list" where
  "auth_of P resp =
     (case sr_Results resp of
        [] \<Rightarrow> []
      | r # _ \<Rightarrow> (case hr_AuthXDR r of None \<Rightarrow> [] | Some raw \<Rightarrow> decodeAuthEntries P raw))"

text \<open>Events are advisory: an event that does not decode loses them all, and nothing else.\<close>

definition advisory_events :: "(event_error, event list) result \<Rightarrow> (error, event list) result" where
  "advisory_events r =
     (case r of Inr events \<Rightarrow> Inr events | Inl e \<Rightarrow> if e = EventPanic then Inl NilDereference else Inr [])"

definition buildSimulateResult ::
    "'w prober \<Rightarrow> simulate_request \<Rightarrow> simulate_response \<Rightarrow> (error, simulate_result) result" where
  "buildSimulateResult P req resp =
     rbind (restore_of P resp) (\<lambda>restore.
     rbind (cost_of P resp) (\<lambda>(cost, fp).
     rbind (return_value_of P resp) (\<lambda>(raw, val).
     rbind (advisory_events (decodeEvents P (sr_EventsXDR resp))) (\<lambda>events.
     Inr \<lparr>sm_ContractID = sq_ContractID req, sm_Function = sq_Function req, sm_Args = sq_Args req,
        sm_Signature = [], sm_EncodedArgs = [], sm_ABINote = NoAbiNote,
        sm_Success = (sr_Error resp = []), sm_Error = sr_Error resp, sm_ReturnValue = val,
        sm_ReturnValueXDR = raw,
        sm_Cost = cost\<lparr>EstimatedTotalFee := EstimateTotalFee (ResourceFee cost) (p_baseFee P)\<rparr>,
        sm_Footprint = fp, sm_Comparison = None, sm_Spread = None, sm_RestoreRequired = restore,
        sm_Events = events, sm_Auth = auth_of P resp, sm_LatestLedger = sr_LatestLedger resp\<rparr>))))"

section \<open>Typing arguments\<close>

record typed_args =
  ta_args :: "string list"
  ta_signature :: string
  ta_note :: abi_note
  ta_changed :: bool

definition typeArgs :: "'w prober \<Rightarrow> simulate_request \<Rightarrow> ('w, typed_args) pop" where
  "typeArgs P req =
     (let out = \<lparr>ta_args = sq_Args req, ta_signature = [], ta_note = NoAbiNote, ta_changed = False\<rparr>
      in case (p_abi P, cd_HasType (p_codec P)) of
           (Some source, Some hasType) \<Rightarrow>
             ebind (\<lambda>s. case source (p_network P) (sq_ContractID req) (world s) of
                      (r, w) \<Rightarrow> (Inr r, s\<lparr>world := w\<rparr>)) (\<lambda>iface.
             case iface of
               Inl err \<Rightarrow>
                 ebind (ctx_err (p_client P)) (\<lambda>e.
                 case e of
                   Some msg \<Rightarrow> ethrow (CtxError msg)
                 | None \<Rightarrow> eret (out\<lparr>ta_note :=
                     (if err = UnknownContract then AbiNoteUnknown
                      else if err = NoWasm then AbiNoteNoWasm else AbiNoteUnavailable err)\<rparr>))
             | Inr i \<Rightarrow>
                 ebind (elift (rmap_err AbiError (Lookup i (sq_Function req)))) (\<lambda>fn.
                 ebind (elift (rmap_err AbiError (Annotate fn (sq_Args req) hasType))) (\<lambda>args.
                 eret (out\<lparr>ta_args := args, ta_signature := Signature fn,
                   ta_changed := list_ex (\<lambda>(a, b). a \<noteq> b) (zip args (sq_Args req))\<rparr>))))
         | _ \<Rightarrow> eret out)"

section \<open>Simulating\<close>

definition simulate_once :: "'w prober \<Rightarrow> simulate_request \<Rightarrow> string \<Rightarrow> ('w, simulate_result) pop" where
  "simulate_once P req envelope =
     ebind (rpc (SimulateTransaction (p_client P) envelope)) (\<lambda>resp.
     elift (buildSimulateResult P req resp))"

text \<open>The report of the runs: the last one in full, the spread of all, the worst case compared.\<close>

definition simulate_report :: "simulate_request \<Rightarrow> typed_args \<Rightarrow> simulate_result list \<Rightarrow> simulate_result" where
  "simulate_report req typed built =
     (let result = (last built)\<lparr>sm_Signature := ta_signature typed, sm_ABINote := ta_note typed,
            sm_EncodedArgs := (if ta_changed typed then ta_args typed else sm_EncodedArgs (last built))\<rparr>;
          spread = (if 1 < sq_Repeat req
            then Some (SpreadCost (map sm_Cost built) (map sm_Footprint built) (sq_MaxSpreadPercent req))
            else None);
          current = (case spread of None \<Rightarrow> sm_Cost result | Some sp \<Rightarrow> sp_Max sp)
      in result\<lparr>sm_Spread := spread,
           sm_Comparison := map_option (\<lambda>b. CompareCost (bl_Cost b) current (sq_MaxIncreasePercent req))
             (sq_Baseline req)\<rparr>)"

definition Simulate :: "'w prober \<Rightarrow> simulate_request \<Rightarrow> ('w, simulate_result) pop" where
  "Simulate P req =
     ebind (elift (ParseContractID (strkeys (p_sdk P)) (sq_ContractID req))) (\<lambda>contract.
     if sq_Function req = [] then ethrow FunctionRequired
     else
       ebind (elift (rmap_err BaselineMismatch
         (checkBaseline (sq_Baseline req) (sq_ContractID req) (sq_Function req)))) (\<lambda>_.
       ebind (typeArgs P req) (\<lambda>typed.
       ebind (elift (rmap_err CodecError (cd_EncodeAll (p_codec P) (ta_args typed)))) (\<lambda>args.
       let runs = (if sq_Repeat req < 1 then 1 else sq_Repeat req) in
       ebind (elift (BuildInvocationTx (p_sdk P) (p_source P) contract (sq_Function req) args)) (\<lambda>envelope.
       ebind (emap (\<lambda>_. simulate_once P req envelope) [0..<nat runs]) (\<lambda>built.
       eret (simulate_report req typed built)))))))"

section \<open>Batches\<close>

record named_simulation =
  ns_Name :: string
  ns_Request :: simulate_request

datatype simulate_outcome = Simulated simulate_result | SimulationError error

record simulate_item =
  si_Name :: string
  si_Outcome :: simulate_outcome

definition simulate_name :: "named_simulation \<Rightarrow> string" where
  "simulate_name c = (if ns_Name c = [] then sq_ContractID (ns_Request c) else ns_Name c)"

definition simulate_call :: "'w prober \<Rightarrow> named_simulation \<Rightarrow> ('w, simulate_item) pop" where
  "simulate_call P c =
     ebind (ctx_err (p_client P)) (\<lambda>e.
     case e of
       Some msg \<Rightarrow> ethrow (CtxError msg)
     | None \<Rightarrow>
         ebind (etry (Simulate P (ns_Request c))) (\<lambda>r.
         case r of
           Inr result \<Rightarrow> eret \<lparr>si_Name = simulate_name c, si_Outcome = Simulated result\<rparr>
         | Inl err \<Rightarrow>
             if err = NilDereference then ethrow err
             else ebind (ctx_err (p_client P)) (\<lambda>e.
             case e of
               Some msg \<Rightarrow> ethrow (CtxError msg)
             | None \<Rightarrow> eret \<lparr>si_Name = simulate_name c, si_Outcome = SimulationError err\<rparr>)))"

definition SimulateBatch :: "'w prober \<Rightarrow> named_simulation list \<Rightarrow> ('w, simulate_item list) pop" where
  "SimulateBatch P calls =
     (if calls = [] then ethrow EmptyBatch else emap (simulate_call P) calls)"

section \<open>Lemmas\<close>

text \<open>\<open>responses c w rs w'\<close>: repeating the call \<open>c\<close> from \<open>w\<close> gives exactly the responses \<open>rs\<close>.\<close>

fun responses :: "('w, 'a) call \<Rightarrow> 'w \<Rightarrow> 'a list \<Rightarrow> 'w \<Rightarrow> bool" where
  "responses c w [] w' \<longleftrightarrow> w' = w"
| "responses c w (r # rs) w' \<longleftrightarrow> (case c w of (Inr x, u) \<Rightarrow> x = r \<and> responses c u rs w' | _ \<Rightarrow> False)"

lemma rpc_Inr: "rpc c s = (Inr x, t) \<longleftrightarrow> c (world s) = (Inr x, world t) \<and> t = s\<lparr>world := world t\<rparr>"
  by (cases "c (world s)") (auto simp: rpc_def rmap_err_eq_Inr)

lemma simulate_runs:
  assumes "emap (\<lambda>_. simulate_once P req envelope) ks s = (Inr built, t)"
  shows "\<exists>resps. responses (SimulateTransaction (p_client P) envelope) (world s) resps (world t) \<and>
    list_all2 (\<lambda>resp b. buildSimulateResult P req resp = Inr b) resps built"
  using assms
proof (induction ks arbitrary: s built)
  case Nil
  then show ?case by (intro exI [of _ "[]"]) simp
next
  case (Cons k ks)
  then obtain resp b u bs where call: "rpc (SimulateTransaction (p_client P) envelope) s = (Inr resp, u)"
    and b: "buildSimulateResult P req resp = Inr b"
    and rest: "emap (\<lambda>_. simulate_once P req envelope) ks u = (Inr bs, t)" and built: "built = b # bs"
    by (auto simp: simulate_once_def ebind_eq_Inr)
  obtain resps where "responses (SimulateTransaction (p_client P) envelope) (world u) resps (world t)"
    "list_all2 (\<lambda>resp b. buildSimulateResult P req resp = Inr b) resps bs"
    using Cons.IH [OF rest] by blast
  then show ?case
    using call b built by (intro exI [of _ "resp # resps"]) (simp add: rpc_Inr)
qed

lemma build_fields:
  assumes "buildSimulateResult P req resp = Inr r"
  shows "sm_ContractID r = sq_ContractID req" and "sm_Function r = sq_Function req"
    and "sm_Success r \<longleftrightarrow> sr_Error resp = []" and "sm_Error r = sr_Error resp"
    and "sm_LatestLedger r = sr_LatestLedger resp"
  using assms by (auto simp: buildSimulateResult_def Let_def result_simps)

lemma report_fields [simp]:
  "sm_ContractID (simulate_report req typed built) = sm_ContractID (last built)"
  "sm_Function (simulate_report req typed built) = sm_Function (last built)"
  "sm_Success (simulate_report req typed built) = sm_Success (last built)"
  "sm_Error (simulate_report req typed built) = sm_Error (last built)"
  "sm_Cost (simulate_report req typed built) = sm_Cost (last built)"
  by (simp_all add: simulate_report_def Let_def)

lemma Simulate_runs:
  assumes "Simulate P req s = (Inr r, t)"
  obtains typed u envelope built where
    "typeArgs P req s = (Inr typed, u)"
    "emap (\<lambda>_. simulate_once P req envelope) [0..<nat (max 1 (sq_Repeat req))] u = (Inr built, t)"
    "r = simulate_report req typed built"
proof -
  have runs: "(if sq_Repeat req < 1 then 1 else sq_Repeat req) = max 1 (sq_Repeat req)" by simp
  show thesis
    using assms unfolding Simulate_def Let_def runs
    by (auto simp: ebind_eq_Inr simp del: upt_conv_Nil split: if_split_asm intro: that)
qed

lemma typeArgs_none: "p_abi P = None \<Longrightarrow> typeArgs P req s = (r, u) \<Longrightarrow> u = s"
  by (simp add: typeArgs_def Let_def)

lemma worst_case_exceeded:
  assumes "nonneg_cost (bl_Cost b)" and "sq_Baseline req = Some b" and "sq_MaxIncreasePercent req = Some th"
    and "length built = nat (max 1 (sq_Repeat req))" and "\<forall>x \<in> set built. nonneg_cost (sm_Cost x)"
    and "x \<in> set built" and "Exceeded (CompareCost (bl_Cost b) (sm_Cost x) (Some th))"
  shows "map_option Exceeded (sm_Comparison (simulate_report req typed built)) = Some True"
proof (cases "1 < sq_Repeat req")
  case True
  let ?sp = "SpreadCost (map sm_Cost built) (map sm_Footprint built) (sq_MaxSpreadPercent req)"
  have "cost_le (sm_Cost x) (sp_Max ?sp)"
  proof (cases built)
    case (Cons c rest)
    then show ?thesis
      using assms(6) cost_le_spread_max [of "sm_Cost x" "sm_Cost c" "map sm_Cost rest"]
      by (auto simp: spread_max)
  qed (use assms(6) in simp)
  then have "Exceeded (CompareCost (bl_Cost b) (sp_Max ?sp) (Some th))"
    using Exceeded_mono assms(1,5,6,7) by blast
  with True assms(2,3) show ?thesis by (simp add: simulate_report_def Let_def)
next
  case False
  then have "length built = 1" using assms(4) by simp
  then obtain y where "built = [y]" by (auto simp: length_Suc_conv)
  with False assms(2,3,6,7) show ?thesis by (simp add: simulate_report_def Let_def)
qed

section \<open>Properties\<close>

text \<open>
  C6. Repeated simulation. A successful \<open>Simulate\<close> made exactly as many calls as asked (at least
  one), one after the other; the report is the last run's, and a run the network rejected is a
  report without success, not an error. When the cost of any run exceeds the baseline by more
  than the tolerance, the comparison reported says so.
\<close>

theorem simulate_worst_case:
  assumes "Simulate P req s = (Inr r, t)"
  shows "\<exists>envelope w resps built.
     responses (SimulateTransaction (p_client P) envelope) w resps (world t) \<and>
     (p_abi P = None \<longrightarrow> w = world s) \<and> length resps = nat (max 1 (sq_Repeat req)) \<and>
     list_all2 (\<lambda>resp b. buildSimulateResult P req resp = Inr b) resps built \<and>
     sm_ContractID r = sq_ContractID req \<and> sm_Cost r = sm_Cost (last built) \<and>
     (sm_Success r \<longleftrightarrow> sr_Error (last resps) = []) \<and>
     (\<forall>b th x. sq_Baseline req = Some b \<longrightarrow> sq_MaxIncreasePercent req = Some th \<longrightarrow>
        nonneg_cost (bl_Cost b) \<longrightarrow> (\<forall>y \<in> set built. nonneg_cost (sm_Cost y)) \<longrightarrow> x \<in> set built \<longrightarrow>
        Exceeded (CompareCost (bl_Cost b) (sm_Cost x) (Some th)) \<longrightarrow>
        map_option Exceeded (sm_Comparison r) = Some True)"
proof -
  obtain typed u envelope built where typed: "typeArgs P req s = (Inr typed, u)"
    and runs: "emap (\<lambda>_. simulate_once P req envelope) [0..<nat (max 1 (sq_Repeat req))] u = (Inr built, t)"
    and r: "r = simulate_report req typed built"
    using Simulate_runs [OF assms] by blast
  obtain resps where resps: "responses (SimulateTransaction (p_client P) envelope) (world u) resps (world t)"
    "list_all2 (\<lambda>resp b. buildSimulateResult P req resp = Inr b) resps built"
    using simulate_runs [OF runs] by blast
  have len: "length built = nat (max 1 (sq_Repeat req))" using emap_length [OF runs] by simp
  moreover have "length resps = length built" using resps(2) by (rule list_all2_lengthD)
  ultimately have ne: "resps \<noteq> []" "built \<noteq> []" by auto
  then have last: "buildSimulateResult P req (last resps) = Inr (last built)"
    using list_all2_nthD [OF resps(2), of "length resps - 1"] \<open>length resps = length built\<close>
    by (simp add: last_conv_nth)
  show ?thesis
    using resps len \<open>length resps = length built\<close> build_fields [OF last] typeArgs_none [OF _ typed]
    by (intro exI [of _ envelope] exI [of _ "world u"] exI [of _ resps] exI [of _ built])
      (auto simp: r worst_case_exceeded)
qed

definition sample_simulation :: "int \<Rightarrow> simulate_request" where
  "sample_simulation n = \<lparr>sq_ContractID = ''CA'', sq_Function = ''f'', sq_Args = [], sq_Baseline = None,
     sq_MaxIncreasePercent = None, sq_Repeat = n, sq_MaxSpreadPercent = None\<rparr>"

lemma sample_once: "\<exists>r. simulate_once quiet_prober req ''tx'' s = (Inr r, s\<lparr>world := Suc (world s)\<rparr>)"
  by (simp add: simulate_once_def ebind_apply rpc_def sample_prober_def quiet_client_def sample_client_def
      quiet_response_def sample_sdk_def buildSimulateResult_def restore_of_def cost_of_def
      return_value_of_def decodeEvents_def advisory_events_def Let_def)

lemma sample_typed: "typeArgs (sample_prober C) req s =
    (Inr \<lparr>ta_args = sq_Args req, ta_signature = [], ta_note = NoAbiNote, ta_changed = False\<rparr>, s)"
  by (simp add: typeArgs_def sample_prober_def Let_def)

lemma sample_simulated:
  "\<exists>r. Simulate quiet_prober (sample_simulation 2) s = (Inr r, s\<lparr>world := Suc (Suc (world s))\<rparr>)"
proof -
  let ?req = "sample_simulation 2"
  obtain a where a: "simulate_once quiet_prober ?req ''tx'' s = (Inr a, s\<lparr>world := Suc (world s)\<rparr>)"
    using sample_once by blast
  obtain b where b: "simulate_once quiet_prober ?req ''tx'' (s\<lparr>world := Suc (world s)\<rparr>) =
      (Inr b, s\<lparr>world := Suc (Suc (world s))\<rparr>)"
    using sample_once [of ?req "s\<lparr>world := Suc (world s)\<rparr>"] by auto
  have parse: "ParseContractID (strkeys (p_sdk quiet_prober)) ''CA'' = Inr (AddrContract (replicate 32 2))"
    using sample_parse by (simp add: sample_prober_def sample_sdk_def)
  have tx: "BuildInvocationTx (p_sdk quiet_prober) (p_source quiet_prober) c ''f'' args = Inr ''tx''" for c args
    by (simp add: BuildInvocationTx_def sample_prober_def sample_sdk_def)
  have enc: "cd_EncodeAll (p_codec quiet_prober) [] = Inr []"
    by (simp add: sample_prober_def sample_codec_def)
  have fields: "sq_ContractID ?req = ''CA''" "sq_Function ?req = ''f''" "sq_Args ?req = []"
    "sq_Baseline ?req = None" "sq_Repeat ?req = 2"
    by (simp_all add: sample_simulation_def)
  show ?thesis
    unfolding Simulate_def Let_def fields parse sample_typed
    by (simp add: checkBaseline_def ebind_apply sample_typed tx enc fields a b numeral_2_eq_2 upt_rec)
qed

lemma simulate_worst_case_witness:
  "\<exists>r t envelope w resps. Simulate quiet_prober (sample_simulation 2) sample_state = (Inr r, t) \<and>
     length resps = 2 \<and> responses (SimulateTransaction (p_client quiet_prober) envelope) w resps (world t)"
proof -
  obtain r t where run: "Simulate quiet_prober (sample_simulation 2) sample_state = (Inr r, t)"
    using sample_simulated [of sample_state] by blast
  from simulate_worst_case [OF this] run show ?thesis
    by (auto simp: sample_simulation_def)
qed



definition outcome_result :: "simulate_outcome \<Rightarrow> (error, simulate_result) result" where
  "outcome_result o' = (case o' of Simulated r \<Rightarrow> Inr r | SimulationError e \<Rightarrow> Inl e)"

lemma simulate_call_yields:
  "yields (\<lambda>item. si_Name item = simulate_name c \<and>
     (\<exists>u v. Simulate P (ns_Request c) u = (outcome_result (si_Outcome item), v))) (simulate_call P c)"
proof -
  have run: "yields (\<lambda>r. \<exists>u v. Simulate P (ns_Request c) u = (r, v)) (etry (Simulate P (ns_Request c)))"
    by (auto simp: yields_def etry_eq_iff)
  show ?thesis
    unfolding simulate_call_def
    by (rule yields_ebind', rule yields_case_option, rule yields_ebind [OF run], rule yields_case_sum,
        rule yields_if, rule yields_ethrow, rule yields_ebind', rule yields_case_option,
        (rule yields_eret yields_ethrow; simp add: outcome_result_def)+)
qed

lemma emap_yields_nth:
  assumes "\<And>x. yields (Q x) (f x)" and "emap f xs s = (Inr ys, t)"
  shows "list_all2 Q xs ys"
  using assms(2)
  by (induction xs arbitrary: s ys) (auto simp: ebind_eq_Inr dest: yieldsD [OF assms(1)])

text \<open>
  A batch of simulations reports every call, in order and under its name, with the outcome
  of simulating that very call: one that fails does not keep the others from being simulated.
\<close>

theorem simulate_batch_items:
  assumes "SimulateBatch P calls s = (Inr items, t)"
  shows "list_all2 (\<lambda>c item. si_Name item = simulate_name c \<and>
     (\<exists>u v. Simulate P (ns_Request c) u = (outcome_result (si_Outcome item), v))) calls items"
  using assms emap_yields_nth [OF simulate_call_yields]
  by (auto simp: SimulateBatch_def split: if_splits)

lemma simulate_batch_items_witness:
  "\<exists>items. fst (SimulateBatch quiet_prober [\<lparr>ns_Name = ''a'', ns_Request = sample_simulation 2\<lparr>sq_Function := []\<rparr>\<rparr>,
      \<lparr>ns_Name = [], ns_Request = sample_simulation 2\<rparr>] sample_state) = Inr items \<and>
    map si_Name items = [''a'', ''CA'']"
proof -
  let ?a = "\<lparr>ns_Name = ''a'', ns_Request = sample_simulation 2\<lparr>sq_Function := []\<rparr>\<rparr>"
  let ?b = "\<lparr>ns_Name = [], ns_Request = sample_simulation 2\<rparr>"
  obtain e where e: "Simulate quiet_prober (ns_Request ?a) sample_state = (Inl e, sample_state)" "e \<noteq> NilDereference"
    using sample_parse
    by (simp add: Simulate_def sample_simulation_def sample_prober_def sample_sdk_def)
  obtain r where r: "Simulate quiet_prober (ns_Request ?b) sample_state =
      (Inr r, sample_state\<lparr>world := Suc (Suc (world sample_state))\<rparr>)"
    using sample_simulated [of sample_state] by auto
  have ctx: "ctx_err (p_client quiet_prober) s = (Inr None, s)" for s
    by (simp add: ctx_err_def sample_prober_def quiet_client_def sample_client_def)
  have "simulate_call quiet_prober ?a sample_state =
      (Inr \<lparr>si_Name = ''a'', si_Outcome = SimulationError e\<rparr>, sample_state)"
    unfolding simulate_call_def using e
    by (simp add: ebind_apply ctx etry_apply simulate_name_def)
  moreover have "simulate_call quiet_prober ?b sample_state =
      (Inr \<lparr>si_Name = ''CA'', si_Outcome = Simulated r\<rparr>, sample_state\<lparr>world := Suc (Suc (world sample_state))\<rparr>)"
    unfolding simulate_call_def using r
    by (simp add: ebind_apply ctx etry_apply simulate_name_def sample_simulation_def)
  ultimately obtain items t where "SimulateBatch quiet_prober [?a, ?b] sample_state = (Inr items, t)"
    by (simp add: SimulateBatch_def ebind_apply)
  with simulate_batch_items [OF this] show ?thesis
    by (auto simp: list_all2_Cons1 simulate_name_def sample_simulation_def)
qed

end
