(* ===== verification/Check.thy ===== *)
theory Check
  imports Simulate
begin

text \<open>
  The combined health check, \<^verbatim>\<open>internal/probe/check.go\<close>: the ordered steps, the comparison with an
  expected return value and \<open>Check\<close> itself. The text of an error shown in a detail is the error.
\<close>

section \<open>Requests and results\<close>

record check_request =
  ch_ContractID :: string
  ch_Function :: string
  ch_Args :: "string list"
  ch_Expect :: string
  ch_DataKeys :: "string list"
  ch_DataDurability :: durability

datatype check_outcome = OutcomePass | OutcomeWarn | OutcomeFail | OutcomeSkip

datatype check_detail = Detail string | InvalidExpected string encode_error | BadReturnValue

record check_item =
  ck_Name :: string
  ck_Outcome :: check_outcome
  ck_Detail :: check_detail

record check_result =
  cr_ContractID :: string
  cr_OK :: bool
  cr_Status :: status
  cr_Checks :: "check_item list"
  cr_Inspect :: inspect_result
  cr_Simulate :: "simulate_result option"
  cr_LatestLedger :: u32
  cr_CloseTimeNote :: close_time_note

abbreviation check_of :: "string \<Rightarrow> check_outcome \<Rightarrow> string \<Rightarrow> check_item" where
  "check_of name outcome text \<equiv> \<lparr>ck_Name = name, ck_Outcome = outcome, ck_Detail = Detail text\<rparr>"

text \<open>What a step returns: its checks, and perhaps \<^verbatim>\<open>errStop\<close> or another error.\<close>

datatype step_error = errStop | StepError error

record check_step =
  st_Name :: string
  st_Run :: "check_request \<Rightarrow> inspect_result \<Rightarrow> simulate_result option \<Rightarrow> check_item list \<times> step_error option"

section \<open>Values\<close>

text \<open>The type tag of a contract value; a type without a name carries the SDK's.\<close>

fun scv_type :: "scval \<Rightarrow> string" where
  "scv_type ScvVoid = ''void''"
| "scv_type (ScvBool _) = ''bool''"
| "scv_type (ScvU32 _) = ''u32''"
| "scv_type (ScvI32 _) = ''i32''"
| "scv_type (ScvU64 _) = ''u64''"
| "scv_type (ScvI64 _) = ''i64''"
| "scv_type (ScvTimepoint _) = ''timepoint''"
| "scv_type (ScvDuration _) = ''duration''"
| "scv_type (ScvU128 _) = ''u128''"
| "scv_type (ScvI128 _) = ''i128''"
| "scv_type (ScvU256 _) = ''u256''"
| "scv_type (ScvI256 _) = ''i256''"
| "scv_type (ScvBytes _) = ''bytes''"
| "scv_type (ScvString _) = ''string''"
| "scv_type (ScvSymbol _) = ''symbol''"
| "scv_type (ScvAddress _) = ''address''"
| "scv_type (ScvVec _) = ''vec''"
| "scv_type (ScvMap _) = ''map''"
| "scv_type (ScvError _) = ''error''"
| "scv_type ScvLedgerKeyContractInstance = ''key''"
| "scv_type (ScvLedgerKeyNonce _) = ''nonce''"
| "scv_type (ScvContractInstance _) = ''instance''"
| "scv_type (ScvUnknown ty) = ''unknown '' @ ty"

text \<open>Whether two values match, and whether they fail to for their types.\<close>

definition compareScVals :: "sdk_lib \<Rightarrow> scval \<Rightarrow> scval \<Rightarrow> bool \<times> bool" where
  "compareScVals S expected actual =
     (case (ToBigInt expected, ToBigInt actual) of
        (Some e, Some a) \<Rightarrow> (e = a, False)
      | (Some _, None) \<Rightarrow> (False, True)
      | (None, Some _) \<Rightarrow> (False, True)
      | (None, None) \<Rightarrow>
          if scv_type expected \<noteq> scv_type actual then (False, True)
          else (case (marshal_scval S expected, marshal_scval S actual) of
                  (Some e, Some a) \<Rightarrow> (e = a, False)
                | _ \<Rightarrow> (expected = actual, False)))"

text \<open>\<^verbatim>\<open>json.Marshal\<close> of a decoded value: the keys of an object are sorted.\<close>

fun json_value :: "jval \<Rightarrow> string" where
  "json_value JNull = ''null''"
| "json_value (JBool b) = (if b then ''true'' else ''false'')"
| "json_value (JUint n) = itoa (uint n)"
| "json_value (JInt n) = itoa (sint n)"
| "json_value (JString s) = json_quote s"
| "json_value (JList vs) = ''['' @ join '','' (map json_value vs) @ '']''"
| "json_value (JObject kvs) =
     ''{'' @ join '','' (map (\<lambda>(k, text). json_quote k @ '':'' @ text)
       (sort_key fst (map (\<lambda>(k, v). (k, json_value v)) kvs))) @ ''}''"

definition formatVal :: "jval \<Rightarrow> string" where
  "formatVal v = (if v = JNull then ''(void)'' else json_value v)"

section \<open>Steps\<close>

definition ttlCheck :: "string \<Rightarrow> entry_report \<Rightarrow> check_item" where
  "ttlCheck name entry =
     check_of name (case Status (rep_TTL entry) of
         StatusHealthy \<Rightarrow> OutcomePass
       | StatusUnknown \<Rightarrow> OutcomePass
       | StatusWarning \<Rightarrow> OutcomeWarn
       | _ \<Rightarrow> OutcomeFail) (rep_Summary entry)"

definition deployedStep :: check_step where
  "deployedStep = \<lparr>st_Name = ''deployed'', st_Run = (\<lambda>_ inspect _.
     if \<not> ir_Deployed inspect
     then ([check_of ''deployed'' OutcomeFail ''no contract instance entry found on this network''], Some errStop)
     else ([check_of ''deployed'' OutcomePass (''instance found, executable is '' @ ir_Executable inspect)], None))\<rparr>"

definition instanceTTLStep :: check_step where
  "instanceTTLStep = \<lparr>st_Name = ''instance_ttl'', st_Run = (\<lambda>_ inspect _.
     ([ttlCheck ''instance_ttl'' (ir_Instance inspect)], None))\<rparr>"

definition codeTTLStep :: check_step where
  "codeTTLStep = \<lparr>st_Name = ''code_ttl'', st_Run = (\<lambda>_ inspect _.
     case ir_Code inspect of
       Some c \<Rightarrow> ([ttlCheck ''code_ttl'' c], None)
     | None \<Rightarrow> ([check_of ''code_ttl'' OutcomeSkip
         ''stellar asset contracts are built into the host and have no code entry''], None))\<rparr>"

definition dataTTLStep :: check_step where
  "dataTTLStep = \<lparr>st_Name = ''data_ttl'', st_Run = (\<lambda>_ inspect _.
     (map (\<lambda>entry. ttlCheck (''data_ttl:'' @ rep_Key entry) entry) (ir_Data inspect), None))\<rparr>"

definition simulateStep :: check_step where
  "simulateStep = \<lparr>st_Name = ''simulate'', st_Run = (\<lambda>req _ simulate.
     if ch_Function req = []
     then ([check_of ''simulate'' OutcomeSkip ''no function given; pass one to probe a read-only call''], None)
     else case simulate of
         None \<Rightarrow> ([], Some (StepError NoSimulation))
       | Some m \<Rightarrow>
           if \<not> sm_Success m
           then ([check_of ''simulate'' OutcomeFail
             (''calling '' @ ch_Function req @ '' failed: '' @ sm_Error m)], None)
           else ([check_of ''simulate'' OutcomePass
             (''calling '' @ ch_Function req @ '' succeeded, '' @ itoa (uint (Instructions (sm_Cost m))) @
              '' instructions, min resource fee '' @ itoa (sint (MinResourceFee (sm_Cost m))) @ '' stroops'')], None))\<rparr>"

definition expectCheck :: "'w prober \<Rightarrow> check_request \<Rightarrow> simulate_result option \<Rightarrow> check_item" where
  "expectCheck P req simulate =
     (if ch_Function req = []
      then check_of ''expect'' OutcomeFail ''an expected value was given but no function was specified''
      else case simulate of
          None \<Rightarrow> check_of ''expect'' OutcomeFail
            ''cannot check return value because simulation failed or did not run''
        | Some m \<Rightarrow>
            if \<not> sm_Success m
            then check_of ''expect'' OutcomeFail
              ''cannot check return value because simulation failed or did not run''
            else case cd_Encode (p_codec P) (ch_Expect req) of
                Inl e \<Rightarrow> \<lparr>ck_Name = ''expect'', ck_Outcome = OutcomeFail,
                  ck_Detail = InvalidExpected (ch_Expect req) e\<rparr>
              | Inr expectedVal \<Rightarrow>
                  (case (if sm_ReturnValueXDR m \<noteq> [] then unmarshal_scval (p_sdk P) (sm_ReturnValueXDR m)
                         else Some ScvVoid) of
                     None \<Rightarrow> \<lparr>ck_Name = ''expect'', ck_Outcome = OutcomeFail, ck_Detail = BadReturnValue\<rparr>
                   | Some actualVal \<Rightarrow>
                       let (match, typeMismatch) = compareScVals (p_sdk P) expectedVal actualVal;
                           expDisp = formatVal (case cd_Decode (p_codec P) expectedVal of
                             Inl _ \<Rightarrow> JNull | Inr v \<Rightarrow> v);
                           actDisp = formatVal (sm_ReturnValue m);
                           both = ''expected '' @ expDisp @ '', got '' @ actDisp
                       in if match then check_of ''expect'' OutcomePass both
                          else if typeMismatch then check_of ''expect'' OutcomeFail (''type mismatch: '' @ both)
                          else check_of ''expect'' OutcomeFail both))"

definition expectStep :: "'w prober \<Rightarrow> check_step" where
  "expectStep P = \<lparr>st_Name = ''expect'', st_Run = (\<lambda>req _ simulate.
     if ch_Expect req = [] then ([], None) else ([expectCheck P req simulate], None))\<rparr>"

definition checkSteps :: "'w prober \<Rightarrow> check_step list" where
  "checkSteps P = [deployedStep, instanceTTLStep, codeTTLStep, dataTTLStep, simulateStep, expectStep P]"

section \<open>Checking\<close>

fun run_steps ::
    "check_step list \<Rightarrow> check_request \<Rightarrow> inspect_result \<Rightarrow> simulate_result option \<Rightarrow>
     (error, check_item list) result" where
  "run_steps [] req inspect sim = Inr []"
| "run_steps (step # steps) req inspect sim =
     (case st_Run step req inspect sim of
        (checks, Some errStop) \<Rightarrow> Inr checks
      | (checks, Some (StepError e)) \<Rightarrow> Inl e
      | (checks, None) \<Rightarrow> rbind (run_steps steps req inspect sim) (\<lambda>more. Inr (checks @ more)))"

definition inspect_part :: "check_request \<Rightarrow> inspect_request" where
  "inspect_part req = \<lparr>rq_ContractID = ch_ContractID req, rq_DataKeys = ch_DataKeys req,
     rq_DataDurability = ch_DataDurability req, rq_EstimateExtend = 0\<rparr>"

definition simulate_part :: "check_request \<Rightarrow> simulate_request" where
  "simulate_part req = \<lparr>sq_ContractID = ch_ContractID req, sq_Function = ch_Function req,
     sq_Args = ch_Args req, sq_Baseline = None, sq_MaxIncreasePercent = None, sq_Repeat = 0,
     sq_MaxSpreadPercent = None\<rparr>"

definition Check :: "'w prober \<Rightarrow> check_request \<Rightarrow> ('w, check_result) pop" where
  "Check P req =
     ebind (Inspect P (inspect_part req)) (\<lambda>inspect.
     ebind (if ir_Deployed inspect \<and> ch_Function req \<noteq> []
            then ebind (Simulate P (simulate_part req)) (\<lambda>m. eret (Some m))
            else eret None) (\<lambda>sim.
     ebind (elift (run_steps (checkSteps P) req inspect sim)) (\<lambda>checks.
     eret \<lparr>cr_ContractID = ch_ContractID req,
           cr_OK = list_all (\<lambda>c. ck_Outcome c \<noteq> OutcomeFail) checks,
           cr_Status = ir_Status inspect, cr_Checks = checks, cr_Inspect = inspect,
           cr_Simulate = sim, cr_LatestLedger = ir_LatestLedger inspect,
           cr_CloseTimeNote = ir_CloseTimeNote inspect\<rparr>)))"

section \<open>Pipelines\<close>

text \<open>
  The contract of a pipeline of steps: a first step that decides whether to go on, and steps
  after it that, with a simulation at hand where one is needed, always contribute their checks
  and never stop or fail.
\<close>

locale pipeline =
  fixes gate :: check_step and steps :: "check_step list"
    and open' :: "inspect_result \<Rightarrow> bool"
    and ready :: "check_request \<Rightarrow> simulate_result option \<Rightarrow> bool"
  assumes gate_open: "open' i \<Longrightarrow> snd (st_Run gate req i sim) = None"
    and gate_shut: "\<not> open' i \<Longrightarrow> snd (st_Run gate req i sim) = Some errStop"
    and step_runs: "st \<in> set steps \<Longrightarrow> ready req sim \<Longrightarrow> snd (st_Run st req i sim) = None"
begin

lemma run_all:
  assumes "\<And>st. st \<in> set ss \<Longrightarrow> snd (st_Run st req i sim) = None"
  shows "run_steps ss req i sim = Inr (concat (map (\<lambda>st. fst (st_Run st req i sim)) ss))"
  using assms
proof (induction ss)
  case (Cons st ss)
  obtain checks where "st_Run st req i sim = (checks, None)"
    using Cons.prems [of st] by (cases "st_Run st req i sim") auto
  with Cons show ?case by simp
qed simp

lemma run_open:
  assumes "open' i" and "ready req sim"
  shows "run_steps (gate # steps) req i sim =
    Inr (concat (map (\<lambda>st. fst (st_Run st req i sim)) (gate # steps)))"
  using assms by (intro run_all) (auto simp: gate_open step_runs)

lemma run_shut:
  assumes "\<not> open' i"
  shows "run_steps (gate # steps) req i sim = Inr (fst (st_Run gate req i sim))"
  using gate_shut [OF assms, of req sim] by (cases "st_Run gate req i sim") auto

end

interpretation health_checks:
  pipeline deployedStep "[instanceTTLStep, codeTTLStep, dataTTLStep, simulateStep, expectStep P]"
    ir_Deployed "\<lambda>req sim. ch_Function req = [] \<or> sim \<noteq> None" for P :: "'w prober"
  by unfold_locales
    (auto simp: deployedStep_def instanceTTLStep_def codeTTLStep_def dataTTLStep_def simulateStep_def
      expectStep_def split: option.splits)

section \<open>Lemmas\<close>

definition actual_value :: "'w prober \<Rightarrow> simulate_result \<Rightarrow> scval option" where
  "actual_value P m =
     (if sm_ReturnValueXDR m \<noteq> [] then unmarshal_scval (p_sdk P) (sm_ReturnValueXDR m) else Some ScvVoid)"

text \<open>What it means for the expectation of a request to be met.\<close>

definition expectation_met :: "'w prober \<Rightarrow> check_request \<Rightarrow> simulate_result option \<Rightarrow> bool" where
  "expectation_met P req sim \<longleftrightarrow> ch_Function req \<noteq> [] \<and>
     (\<exists>m expected actual. sim = Some m \<and> sm_Success m \<and>
        cd_Encode (p_codec P) (ch_Expect req) = Inr expected \<and> actual_value P m = Some actual \<and>
        fst (compareScVals (p_sdk P) expected actual))"

lemma expectCheck_name [simp]: "ck_Name (expectCheck P req sim) = ''expect''"
  by (simp add: expectCheck_def Let_def case_prod_beta split: option.split sum.split)

lemma expectCheck_outcome:
  "ck_Outcome (expectCheck P req sim) = (if expectation_met P req sim then OutcomePass else OutcomeFail)"
proof (cases "ch_Function req = [] \<or> sim = None")
  case True
  then show ?thesis by (auto simp: expectCheck_def expectation_met_def)
next
  case False
  then obtain m where sim: "sim = Some m" and f: "ch_Function req \<noteq> []" by auto
  show ?thesis
  proof (cases "sm_Success m")
    case success: True
    show ?thesis
    proof (cases "cd_Encode (p_codec P) (ch_Expect req)")
      case (Inl e)
      then show ?thesis using f success by (simp add: expectCheck_def expectation_met_def sim)
    next
      case (Inr v)
      show ?thesis
      proof (cases "actual_value P m")
        case None
        then show ?thesis using f success Inr
          unfolding actual_value_def by (simp add: expectCheck_def expectation_met_def actual_value_def sim)
      next
        case (Some a)
        have "expectation_met P req sim \<longleftrightarrow> fst (compareScVals (p_sdk P) v a)"
          using f success Inr Some by (simp add: expectation_met_def sim)
        moreover have "ck_Outcome (expectCheck P req sim) =
            (if fst (compareScVals (p_sdk P) v a) then OutcomePass else OutcomeFail)"
          using f success Inr Some [unfolded actual_value_def]
          by (simp add: expectCheck_def sim Let_def case_prod_beta)
        ultimately show ?thesis by simp
      qed
    qed
  qed (use f sim in \<open>simp add: expectCheck_def expectation_met_def\<close>)
qed

definition tolerable :: "status \<Rightarrow> bool" where
  "tolerable s \<longleftrightarrow> s = StatusHealthy \<or> s = StatusUnknown \<or> s = StatusWarning"

lemma ttlCheck_simps [simp]:
  "ck_Name (ttlCheck name e) = name"
  "ck_Outcome (ttlCheck name e) = OutcomeFail \<longleftrightarrow> \<not> tolerable (rep_Status e)"
  by (auto simp: ttlCheck_def tolerable_def split: status.splits)

lemmas step_defs = deployedStep_def instanceTTLStep_def codeTTLStep_def dataTTLStep_def
  simulateStep_def expectStep_def

definition check_names :: "check_request \<Rightarrow> inspect_result \<Rightarrow> string list" where
  "check_names req i =
     (if \<not> ir_Deployed i then [''deployed'']
      else [''deployed'', ''instance_ttl'', ''code_ttl''] @ map (\<lambda>d. ''data_ttl:'' @ rep_Key d) (ir_Data i) @
        ''simulate'' # (if ch_Expect req = [] then [] else [''expect'']))"

definition verdict :: "'w prober \<Rightarrow> check_request \<Rightarrow> inspect_result \<Rightarrow> simulate_result option \<Rightarrow> bool" where
  "verdict P req i sim \<longleftrightarrow> ir_Deployed i \<and> list_all (\<lambda>e. tolerable (rep_Status e)) (report_entries i) \<and>
     (ch_Function req = [] \<or> (\<exists>m. sim = Some m \<and> sm_Success m)) \<and>
     (ch_Expect req = [] \<or> expectation_met P req sim)"

lemma checks_of:
  assumes "ir_Deployed i \<Longrightarrow> ch_Function req = [] \<or> sim \<noteq> None"
  shows "\<exists>checks. run_steps (checkSteps P) req i sim = Inr checks \<and> map ck_Name checks = check_names req i \<and>
    (list_all (\<lambda>c. ck_Outcome c \<noteq> OutcomeFail) checks \<longleftrightarrow> verdict P req i sim)"
proof (cases "ir_Deployed i")
  case False
  then show ?thesis
    using health_checks.run_shut [OF False, of P req sim]
    by (simp add: checkSteps_def check_names_def verdict_def deployedStep_def)
next
  case True
  let ?checks = "concat (map (\<lambda>st. fst (st_Run st req i sim)) (checkSteps P))"
  have run: "run_steps (checkSteps P) req i sim = Inr ?checks"
    using health_checks.run_open [OF True assms [OF True], of P] by (simp add: checkSteps_def)
  have sim: "fst (st_Run simulateStep req i sim) \<noteq> [] \<and>
      map ck_Name (fst (st_Run simulateStep req i sim)) = [''simulate''] \<and>
      (list_all (\<lambda>c. ck_Outcome c \<noteq> OutcomeFail) (fst (st_Run simulateStep req i sim)) \<longleftrightarrow>
        ch_Function req = [] \<or> (\<exists>m. sim = Some m \<and> sm_Success m))"
    using assms [OF True] by (auto simp: simulateStep_def split: option.splits)
  have code: "map ck_Name (fst (st_Run codeTTLStep req i sim)) = [''code_ttl'']"
    "list_all (\<lambda>c. ck_Outcome c \<noteq> OutcomeFail) (fst (st_Run codeTTLStep req i sim)) \<longleftrightarrow>
       (case ir_Code i of None \<Rightarrow> True | Some c \<Rightarrow> tolerable (rep_Status c))"
    by (auto simp: codeTTLStep_def split: option.splits)
  have names: "map ck_Name ?checks = check_names req i"
    using sim code True
    by (simp add: checkSteps_def check_names_def deployedStep_def instanceTTLStep_def dataTTLStep_def
        expectStep_def comp_def)
  have "list_all (\<lambda>c. ck_Outcome c \<noteq> OutcomeFail) ?checks \<longleftrightarrow> verdict P req i sim"
    using sim code True
    by (auto simp: checkSteps_def verdict_def report_entries_def deployedStep_def instanceTTLStep_def
        dataTTLStep_def expectStep_def expectCheck_outcome list_all_iff split: option.splits)
  with run names show ?thesis by blast
qed

lemma Check_Inr:
  assumes "Check P req s = (Inr r, t)"
  obtains checks u where "Inspect P (inspect_part req) s = (Inr (cr_Inspect r), u)"
    and "run_steps (checkSteps P) req (cr_Inspect r) (cr_Simulate r) = Inr checks"
    and "cr_Checks r = checks" and "cr_OK r = list_all (\<lambda>c. ck_Outcome c \<noteq> OutcomeFail) checks"
    and "cr_Simulate r \<noteq> None \<longleftrightarrow> ir_Deployed (cr_Inspect r) \<and> ch_Function req \<noteq> []"
    and "cr_ContractID r = ch_ContractID req" and "cr_Status r = ir_Status (cr_Inspect r)"
  using assms unfolding Check_def
  by (auto simp: ebind_eq_Inr split: if_split_asm)

lemma keeps_check:
  assumes "reads_keep I (p_client P)" and "ch_Function req = []"
  shows "keeps (\<lambda>s. I (world s)) (Check P req)"
proof -
  have insp: "keeps (\<lambda>s. I (world s)) (Inspect P (inspect_part req))"
    by (rule keeps_inspect [OF assms(1)]) (simp add: inspect_part_def)
  show ?thesis
    unfolding Check_def using assms(2) by (auto intro!: keeps_ebind insp)
qed

lemma Check_reports:
  assumes "Check P req s = (Inr r, t)"
  shows "cr_OK r = verdict P req (cr_Inspect r) (cr_Simulate r)"
    and "map ck_Name (cr_Checks r) = check_names req (cr_Inspect r)"
    and "cr_Simulate r \<noteq> None \<longleftrightarrow> ir_Deployed (cr_Inspect r) \<and> ch_Function req \<noteq> []"
proof -
  have "cr_OK r = verdict P req (cr_Inspect r) (cr_Simulate r) \<and>
    map ck_Name (cr_Checks r) = check_names req (cr_Inspect r) \<and>
    (cr_Simulate r \<noteq> None \<longleftrightarrow> ir_Deployed (cr_Inspect r) \<and> ch_Function req \<noteq> [])"
    using assms
  proof (rule Check_Inr)
    fix checks u
    assume run: "run_steps (checkSteps P) req (cr_Inspect r) (cr_Simulate r) = Inr checks"
      and checks: "cr_Checks r = checks" "cr_OK r = list_all (\<lambda>c. ck_Outcome c \<noteq> OutcomeFail) checks"
      and sim: "cr_Simulate r \<noteq> None \<longleftrightarrow> ir_Deployed (cr_Inspect r) \<and> ch_Function req \<noteq> []"
    have "ch_Function req = [] \<or> cr_Simulate r \<noteq> None" if "ir_Deployed (cr_Inspect r)"
      using sim that by blast
    then obtain checks' where "run_steps (checkSteps P) req (cr_Inspect r) (cr_Simulate r) = Inr checks'"
      "map ck_Name checks' = check_names req (cr_Inspect r)"
      "list_all (\<lambda>c. ck_Outcome c \<noteq> OutcomeFail) checks' \<longleftrightarrow> verdict P req (cr_Inspect r) (cr_Simulate r)"
      using checks_of [of "cr_Inspect r" req "cr_Simulate r" P] by blast
    then show ?thesis using run checks sim by simp
  qed
  then show "cr_OK r = verdict P req (cr_Inspect r) (cr_Simulate r)"
    "map ck_Name (cr_Checks r) = check_names req (cr_Inspect r)"
    "cr_Simulate r \<noteq> None \<longleftrightarrow> ir_Deployed (cr_Inspect r) \<and> ch_Function req \<noteq> []" by blast+
qed

section \<open>Properties\<close>

text \<open>
  C1. The verdict of a check. It passes exactly when the contract is deployed, no entry is
  critical, expired or missing, the function named (if any) simulates successfully, and the
  expectation (if any) is met; a warning passes. The checks reported are the deployment alone
  when there is no contract, and otherwise every step's, in the fixed order.
\<close>

theorem check_verdict:
  assumes "Check P req s = (Inr r, t)"
  shows "cr_OK r = verdict P req (cr_Inspect r) (cr_Simulate r) \<and>
    map ck_Name (cr_Checks r) = check_names req (cr_Inspect r) \<and>
    (cr_Simulate r \<noteq> None \<longleftrightarrow> ir_Deployed (cr_Inspect r) \<and> ch_Function req \<noteq> [])"
  using Check_reports [OF assms] by blast

definition sample_check :: check_request where
  "sample_check = \<lparr>ch_ContractID = ''CA'', ch_Function = [], ch_Args = [], ch_Expect = [],
     ch_DataKeys = [''k''], ch_DataDurability = no_durability\<rparr>"

lemma sample_checked: "\<exists>r. Check quiet_prober sample_check sample_state = (Inr r, sample_state) \<and>
    cr_Inspect r = sample_inspected (6 * second) (NoteMeasured (6 * second))"
proof -
  let ?i = "sample_inspected (6 * second) (NoteMeasured (6 * second))"
  have req: "inspect_part sample_check = sample_request"
    by (simp add: inspect_part_def sample_check_def sample_request_def)
  have insp: "Inspect quiet_prober sample_request sample_state = (Inr ?i, sample_state)"
    using sample_uncached [OF sample_close_time]
    by (simp add: Inspect_def ebind_apply sample_state_def)
  obtain checks where "run_steps (checkSteps quiet_prober) sample_check ?i None = Inr checks"
    using checks_of [of ?i sample_check None quiet_prober] by (auto simp: sample_check_def)
  then show ?thesis
    using insp by (simp add: Check_def ebind_apply req) (simp add: sample_check_def)
qed

lemma check_verdict_witness:
  "\<exists>r. Check quiet_prober sample_check sample_state = (Inr r, sample_state) \<and> \<not> cr_OK r \<and>
     map ck_Name (cr_Checks r) = [''deployed'', ''instance_ttl'', ''code_ttl'', ''data_ttl:k'', ''simulate'']"
proof -
  obtain r where run: "Check quiet_prober sample_check sample_state = (Inr r, sample_state)"
    and i: "cr_Inspect r = sample_inspected (6 * second) (NoteMeasured (6 * second))"
    using sample_checked by blast
  from check_verdict [OF run] show ?thesis
    using run i
    by (auto simp: verdict_def check_names_def sample_inspected_def report_entries_def sample_check_def
        tolerable_def)
qed

text \<open>
  A check without a function only reads the ledger: it keeps every invariant of the world
  that the reading calls keep, whatever the client's simulation call does.
\<close>

theorem check_only_reads:
  assumes "reads_keep I (p_client P)" and "ch_Function req = []"
    and "I (world s)" and "Check P req s = (r, t)"
  shows "I (world t)"
  using keepsD [OF keeps_check [OF assms(1,2)] assms(3,4)] .

lemma check_only_reads_witness:
  "world (snd (Check quiet_prober sample_check sample_state)) = 0"
proof (rule check_only_reads [where I = "\<lambda>w. w = 0"])
  show "reads_keep (\<lambda>w. w = 0) (p_client quiet_prober)"
    by (simp add: reads_keep_def call_keeps_def sample_prober_def quiet_client_def sample_client_def)
  show "Check quiet_prober sample_check sample_state = (fst (Check quiet_prober sample_check sample_state),
      snd (Check quiet_prober sample_check sample_state))" by simp
qed (simp_all add: sample_check_def sample_state_def)

definition reference_match :: "scval \<Rightarrow> scval \<Rightarrow> bool" where
  "reference_match e a =
     (if ToBigInt e = None \<and> ToBigInt a = None then e = a else ToBigInt e = ToBigInt a)"



end
