(* ===== verification/Batch.thy ===== *)
theory Batch
  imports Check Go_Duration
begin

text \<open>
  Batches of checks, \<^verbatim>\<open>internal/probe/batch.go\<close>: validation, the choice of mode, and the plain batch
  that prefetches every ledger entry and then runs the checks in order against a client that
  answers from what was fetched. The concurrent mode is in the theory \<open>Workers\<close>.

  An item's error is the error itself, not its text; a panic of a check is not an item.
\<close>

section \<open>Requests and results\<close>

definition MaxBatchChecks :: nat where "MaxBatchChecks = 100"

record named_check =
  nc_Name :: string
  nc_Timeout :: string
  nc_Request :: check_request

record batch_request =
  bq_Checks :: "named_check list"
  bq_Concurrency :: int

record batch_item =
  bi_Name :: string
  bi_ContractID :: string
  bi_Result :: "check_result option"
  bi_Error :: "error option"

record batch_result =
  br_OK :: bool
  br_Errored :: bool
  br_Items :: "batch_item list"

definition checkName :: "named_check \<Rightarrow> string" where
  "checkName c = (if nc_Name c \<noteq> [] then nc_Name c else ch_ContractID (nc_Request c))"

definition checkTimeout :: "named_check \<Rightarrow> (batch_error, duration) result" where
  "checkTimeout c =
     (if nc_Timeout c = [] then Inr 0
      else case parse_duration (nc_Timeout c) of
          None \<Rightarrow> Inl (InvalidTimeout (checkName c) (nc_Timeout c))
        | Some d \<Rightarrow> if d <s 0 then Inl (NegativeTimeout (checkName c) d) else Inr d)"

section \<open>Validation\<close>

fun validate_checks :: "nat \<Rightarrow> (string \<times> nat) list \<Rightarrow> named_check list \<Rightarrow> (batch_error, unit) result" where
  "validate_checks i seen [] = Inr ()"
| "validate_checks i seen (c # cs) =
     (if ch_ContractID (nc_Request c) = [] then Inl (NoContract i)
      else case checkTimeout c of
          Inl e \<Rightarrow> Inl e
        | Inr _ \<Rightarrow>
            if ch_DataDurability (nc_Request c) \<noteq> no_durability \<and>
               ch_DataDurability (nc_Request c) \<noteq> DurabilityPersistent \<and>
               ch_DataDurability (nc_Request c) \<noteq> DurabilityTemporary
            then Inl (UnknownDurability (checkName c) (ch_DataDurability (nc_Request c)))
            else (case map_of seen (checkName c) of
                Some prev \<Rightarrow> Inl (DuplicateName prev i (checkName c))
              | None \<Rightarrow> validate_checks (Suc i) ((checkName c, i) # seen) cs))"

definition validateBatch :: "batch_request \<Rightarrow> (batch_error, unit) result" where
  "validateBatch req =
     (if bq_Checks req = [] then Inl NoChecks
      else if MaxBatchChecks < length (bq_Checks req) then Inl (TooManyChecks (length (bq_Checks req)))
      else validate_checks 0 [] (bq_Checks req))"

datatype run_mode = Prefetched | Concurrent

text \<open>The guards and the choice of \<^verbatim>\<open>CheckBatch\<close>.\<close>

definition batch_mode :: "batch_request \<Rightarrow> (batch_error, run_mode) result" where
  "batch_mode req =
     rbind (validateBatch req) (\<lambda>_.
     if bq_Concurrency req < 0 then Inl (NegativeConcurrency (bq_Concurrency req))
     else if 1 < bq_Concurrency req then Inr Concurrent
     else if list_ex (\<lambda>c. nc_Timeout c \<noteq> []) (bq_Checks req) then Inr Concurrent
     else Inr Prefetched)"

section \<open>Fetching\<close>

definition maxLedgerKeysPerRequest :: nat where "maxLedgerKeysPerRequest = 200"

record batch_entries =
  be_entries :: "string \<rightharpoonup> ledger_entry"
  be_latest :: "string \<rightharpoonup> u32"
  be_errors :: "string \<rightharpoonup> string"

definition no_entries :: batch_entries where
  "no_entries = \<lparr>be_entries = Map.empty, be_latest = Map.empty, be_errors = Map.empty\<rparr>"

definition all_keys :: "string list \<Rightarrow> 'a \<Rightarrow> string \<rightharpoonup> 'a" where
  "all_keys keys v = map_of (map (\<lambda>k. (k, v)) keys)"

text \<open>What one response, or its failure, adds for its chunk of keys.\<close>

definition record_chunk ::
    "string list \<Rightarrow> (string, entries_response) result \<Rightarrow> batch_entries \<Rightarrow> batch_entries" where
  "record_chunk chunk r b =
     (case r of
        Inl e \<Rightarrow> b\<lparr>be_errors := be_errors b ++ all_keys chunk e\<rparr>
      | Inr resp \<Rightarrow> b\<lparr>be_latest := be_latest b ++ all_keys chunk (er_LatestLedger resp),
          be_entries := be_entries b ++ indexEntries (er_Entries resp)\<rparr>)"

definition entries_call :: "'w client \<Rightarrow> string list \<Rightarrow> ('w, (string, entries_response) result) pop" where
  "entries_call C keys = (\<lambda>s. case GetLedgerEntries C keys (world s) of (r, w) \<Rightarrow> (Inr r, s\<lparr>world := w\<rparr>))"

function fetch_loop :: "'w client \<Rightarrow> string list \<Rightarrow> batch_entries \<Rightarrow> ('w, batch_entries) pop" where
  "fetch_loop C keys b =
     (if keys = [] then eret b
      else ebind (ctx_err C) (\<lambda>e.
        case e of
          Some msg \<Rightarrow> eret (b\<lparr>be_errors := be_errors b ++ all_keys keys msg\<rparr>)
        | None \<Rightarrow>
            ebind (entries_call C (take maxLedgerKeysPerRequest keys)) (\<lambda>r.
            fetch_loop C (drop maxLedgerKeysPerRequest keys)
              (record_chunk (take maxLedgerKeysPerRequest keys) r b))))"
  by pat_completeness auto

termination
  by (relation "measure (\<lambda>(_, keys, _). length keys)") (auto simp: maxLedgerKeysPerRequest_def)

declare fetch_loop.simps [simp del]

definition fetchBatchEntries :: "'w client \<Rightarrow> string list \<Rightarrow> ('w, batch_entries) pop" where
  "fetchBatchEntries C keys = fetch_loop C keys no_entries"

section \<open>The client that answers from what was fetched\<close>

text \<open>Keys are base64 text, so that \<^verbatim>\<open>%q\<close> only adds the quotes.\<close>

definition not_prefetched :: "string \<Rightarrow> string" where
  "not_prefetched key = ''batch ledger entry '' @ [CHR 0x22] @ key @ [CHR 0x22] @ '' was not prefetched''"

fun cached_entries ::
    "batch_entries \<Rightarrow> string list \<Rightarrow> entries_response \<Rightarrow> (string, entries_response) result" where
  "cached_entries b [] resp = Inr resp"
| "cached_entries b (key # keys) resp =
     (case be_errors b key of
        Some e \<Rightarrow> Inl e
      | None \<Rightarrow>
          (case be_latest b key of
             None \<Rightarrow> Inl (not_prefetched key)
           | Some ledger \<Rightarrow>
               cached_entries b keys
                 \<lparr>er_Entries = er_Entries resp @ (case be_entries b key of None \<Rightarrow> [] | Some e \<Rightarrow> [e]),
                  er_LatestLedger = (if er_LatestLedger resp = 0 then ledger else er_LatestLedger resp)\<rparr>))"

definition cachedLedgerClient :: "'w client \<Rightarrow> batch_entries \<Rightarrow> 'w client" where
  "cachedLedgerClient C b = C\<lparr>GetLedgerEntries :=
     \<lambda>keys w. (cached_entries b keys \<lparr>er_Entries = [], er_LatestLedger = 0\<rparr>, w)\<rparr>"

section \<open>The prefetched batch\<close>

record batch_check_state =
  bs_plan :: "inspect_plan option"
  bs_codeKey :: "string option"
  bs_err :: "error option"

text \<open>The keys in the order they first appear.\<close>

definition first_seen :: "string list \<Rightarrow> string list" where
  "first_seen keys = rev (remdups (rev keys))"

definition plan_state :: "'w prober \<Rightarrow> named_check \<Rightarrow> batch_check_state" where
  "plan_state P c =
     (case planInspect P (inspect_part (nc_Request c)) of
        Inl e \<Rightarrow> \<lparr>bs_plan = None, bs_codeKey = None, bs_err = Some e\<rparr>
      | Inr plan \<Rightarrow> \<lparr>bs_plan = Some plan, bs_codeKey = None, bs_err = None\<rparr>)"

definition unless_done :: "'w prober \<Rightarrow> ('w, 'a) pop \<Rightarrow> ('w, 'a) pop" where
  "unless_done P m =
     ebind (ctx_err (p_client P)) (\<lambda>e. case e of Some msg \<Rightarrow> ethrow (CtxError msg) | None \<Rightarrow> m)"

definition state_keys :: "batch_check_state \<Rightarrow> string list" where
  "state_keys st = (case bs_plan st of None \<Rightarrow> [] | Some plan \<Rightarrow> ip_keys plan)"

fun first_error :: "batch_entries \<Rightarrow> string list \<Rightarrow> string option" where
  "first_error b [] = None"
| "first_error b (k # ks) = (case be_errors b k of Some e \<Rightarrow> Some e | None \<Rightarrow> first_error b ks)"

text \<open>The code key of a check, once its instance entry is known; a panic is not recorded.\<close>

definition code_state :: "'w prober \<Rightarrow> batch_entries \<Rightarrow> batch_check_state \<Rightarrow> (error, batch_check_state) result" where
  "code_state P initial st =
     (case (bs_err st, bs_plan st) of
        (None, Some plan) \<Rightarrow>
          (case first_error initial (ip_keys plan) of
             Some e \<Rightarrow> Inr (st\<lparr>bs_err := Some (RpcError e)\<rparr>)
           | None \<Rightarrow>
               (case be_entries initial (ip_instanceKey plan) of
                  None \<Rightarrow> Inr st
                | Some inst \<Rightarrow>
                    (case readInstanceEntry P inst of
                       Inl NilDereference \<Rightarrow> Inl NilDereference
                     | Inl e \<Rightarrow> Inr (st\<lparr>bs_err := Some e\<rparr>)
                     | Inr info \<Rightarrow>
                         (case in_Hash info of
                            None \<Rightarrow> Inr st
                          | Some hash \<Rightarrow>
                              (case EncodeKey (p_sdk P) (CodeKey hash) of
                                 Inl e \<Rightarrow> Inr (st\<lparr>bs_err := Some e\<rparr>)
                               | Inr key \<Rightarrow> Inr (st\<lparr>bs_codeKey := Some key\<rparr>))))))
      | _ \<Rightarrow> Inr st)"

definition merge_entries :: "batch_entries \<Rightarrow> batch_entries \<Rightarrow> batch_entries" where
  "merge_entries a b = \<lparr>be_entries = be_entries a ++ be_entries b, be_latest = be_latest a ++ be_latest b,
     be_errors = be_errors a ++ be_errors b\<rparr>"

definition prefetch ::
    "'w prober \<Rightarrow> named_check list \<Rightarrow> ('w, batch_check_state list \<times> batch_entries) pop" where
  "prefetch P checks =
     ebind (emap (\<lambda>c. unless_done P (eret (plan_state P c))) checks) (\<lambda>states.
     ebind (fetchBatchEntries (p_client P) (first_seen (concat (map state_keys states)))) (\<lambda>initial.
     ebind (elift (rmap (\<lambda>_. code_state P initial) states)) (\<lambda>states'.
     ebind (fetchBatchEntries (p_client P) (first_seen (List.map_filter bs_codeKey states'))) (\<lambda>code.
     eret (states', merge_entries initial code)))))"

definition error_item :: "named_check \<Rightarrow> error \<Rightarrow> batch_item" where
  "error_item c e = \<lparr>bi_Name = checkName c, bi_ContractID = ch_ContractID (nc_Request c),
     bi_Result = None, bi_Error = Some e\<rparr>"

definition result_item :: "named_check \<Rightarrow> check_result \<Rightarrow> batch_item" where
  "result_item c r = \<lparr>bi_Name = checkName c, bi_ContractID = ch_ContractID (nc_Request c),
     bi_Result = Some r, bi_Error = None\<rparr>"

text \<open>The item of running a check: a panic goes through, another error is recorded.\<close>

definition item_of :: "named_check \<Rightarrow> ('w, check_result) pop \<Rightarrow> ('w, batch_item) pop" where
  "item_of c m =
     ebind (etry m) (\<lambda>r.
     case r of
       Inl e \<Rightarrow> if e = NilDereference then ethrow e else eret (error_item c e)
     | Inr result \<Rightarrow> eret (result_item c result))"

definition code_error :: "batch_entries \<Rightarrow> batch_check_state \<Rightarrow> string option" where
  "code_error b st =
     (case bs_codeKey st of None \<Rightarrow> None | Some key \<Rightarrow> if key = [] then None else be_errors b key)"

definition prefetched_item ::
    "'w prober \<Rightarrow> batch_entries \<Rightarrow> named_check \<times> batch_check_state \<Rightarrow> ('w, batch_item) pop" where
  "prefetched_item P b = (\<lambda>(c, st).
     case bs_err st of
       Some e \<Rightarrow> eret (error_item c e)
     | None \<Rightarrow>
         (case code_error b st of
            Some e \<Rightarrow> eret (error_item c (RpcError e))
          | None \<Rightarrow> item_of c (Check (P\<lparr>p_client := cachedLedgerClient (p_client P) b\<rparr>) (nc_Request c))))"

definition item_ok :: "batch_item \<Rightarrow> bool" where
  "item_ok item = (case bi_Result item of None \<Rightarrow> False | Some r \<Rightarrow> cr_OK r)"

definition batch_of :: "batch_item list \<Rightarrow> batch_result" where
  "batch_of items = \<lparr>br_OK = list_all (\<lambda>i. bi_Error i = None \<and> item_ok i) items,
     br_Errored = list_ex (\<lambda>i. bi_Error i \<noteq> None) items, br_Items = items\<rparr>"

definition checkBatchPrefetched :: "'w prober \<Rightarrow> named_check list \<Rightarrow> ('w, batch_result) pop" where
  "checkBatchPrefetched P checks =
     ebind (prefetch P checks) (\<lambda>(states, b).
     ebind (emap (\<lambda>cs. unless_done P (prefetched_item P b cs)) (zip checks states)) (\<lambda>items.
     eret (batch_of items)))"

section \<open>Validation lemmas\<close>

lemma validate_checks_ok:
  assumes "validate_checks i seen cs = Inr ()"
  shows "distinct (map checkName cs)" and "set (map checkName cs) \<inter> fst ` set seen = {}"
    and "c \<in> set cs \<Longrightarrow> ch_ContractID (nc_Request c) \<noteq> [] \<and> (\<exists>d. checkTimeout c = Inr d \<and> 0 \<le> sint d) \<and>
      ch_DataDurability (nc_Request c) \<in> {no_durability, DurabilityPersistent, DurabilityTemporary}"
proof -
  have timeout: "0 \<le> sint d" if "checkTimeout x = Inr d" for x d
    using that by (auto simp: checkTimeout_def word_sless_alt split: if_splits option.splits)
  have step: "ch_ContractID (nc_Request x) \<noteq> [] \<and> (\<exists>d. checkTimeout x = Inr d) \<and>
      ch_DataDurability (nc_Request x) \<in> {no_durability, DurabilityPersistent, DurabilityTemporary} \<and>
      map_of sn (checkName x) = None \<and> validate_checks (Suc j) ((checkName x, j) # sn) xs = Inr ()"
    if "validate_checks j sn (x # xs) = Inr ()" for j sn x xs
    using that by (auto split: if_splits sum.splits option.splits)
  show "distinct (map checkName cs)" and "set (map checkName cs) \<inter> fst ` set seen = {}"
    using assms
  proof (induction cs arbitrary: i seen)
    case (Cons x xs)
    { case 1 then show ?case using Cons.IH [of "Suc i" "(checkName x, i) # seen"] step [OF 1] by auto }
    { case 2 then show ?case using Cons.IH(2) [of "Suc i" "(checkName x, i) # seen"] step [OF 2]
        by (auto simp: map_of_eq_None_iff) }
  qed simp_all
  show "ch_ContractID (nc_Request c) \<noteq> [] \<and> (\<exists>d. checkTimeout c = Inr d \<and> 0 \<le> sint d) \<and>
      ch_DataDurability (nc_Request c) \<in> {no_durability, DurabilityPersistent, DurabilityTemporary}"
    if "c \<in> set cs"
    using assms that
  proof (induction cs arbitrary: i seen)
    case (Cons x xs)
    show ?case using Cons.IH step [OF Cons.prems(1)] Cons.prems(2) timeout by auto
  qed simp
qed

section \<open>Stable ledgers\<close>

text \<open>
  A ledger that does not change while the batch runs: every read answers from the same store, at
  the same ledger, and the context is not cancelled. Simulations may do anything.
\<close>

definition stable_ledger :: "'w client \<Rightarrow> (string \<rightharpoonup> ledger_entry) \<Rightarrow> u32 \<Rightarrow> bool" where
  "stable_ledger C store L \<longleftrightarrow> L \<noteq> 0 \<and> (\<forall>k e. store k = Some e \<longrightarrow> le_KeyXDR e = k) \<and>
     (\<forall>ks w. GetLedgerEntries C ks w = (Inr \<lparr>er_Entries = List.map_filter store ks, er_LatestLedger = L\<rparr>, w)) \<and>
     (\<forall>w. CtxErr C w = (None, w))"

definition fetched :: "(string \<rightharpoonup> ledger_entry) \<Rightarrow> u32 \<Rightarrow> string set \<Rightarrow> batch_entries" where
  "fetched store L K = \<lparr>be_entries = store |` K, be_latest = (\<lambda>k. if k \<in> K then Some L else None),
     be_errors = Map.empty\<rparr>"

lemma fetched_empty: "no_entries = fetched store L {}"
  by (simp add: no_entries_def fetched_def)

lemma fetched_merge: "merge_entries (fetched store L A) (fetched store L B) = fetched store L (A \<union> B)"
  by (auto simp: merge_entries_def fetched_def fun_eq_iff map_add_def restrict_map_def split: option.splits)

lemma all_keys_apply: "all_keys keys v k = (if k \<in> set keys then Some v else None)"
  unfolding all_keys_def by (induction keys) auto

lemma indexEntries_stable:
  assumes "\<And>k e. store k = Some e \<Longrightarrow> le_KeyXDR e = k"
  shows "indexEntries (List.map_filter store ks) = store |` set ks"
proof -
  have keyed: "map_of (rev (map (\<lambda>e. (le_KeyXDR e, e)) es)) k = store k"
    if "\<forall>e \<in> set es. store (le_KeyXDR e) = Some e" "\<exists>e \<in> set es. le_KeyXDR e = k" for es k
    using that
  proof (induction es rule: rev_induct)
    case (snoc e es)
    then show ?case by (cases "le_KeyXDR e = k") auto
  qed simp
  show ?thesis
  proof
    fix k
    have all: "\<forall>e \<in> set (List.map_filter store ks). store (le_KeyXDR e) = Some e"
      using assms by (auto simp: List.map_filter_def)
    show "indexEntries (List.map_filter store ks) k = (store |` set ks) k"
    proof (cases "\<exists>e \<in> set (List.map_filter store ks). le_KeyXDR e = k")
      case True
      then have "k \<in> set ks" using assms by (auto simp: List.map_filter_def)
      with keyed [OF all True] show ?thesis by (simp add: indexEntries_def)
    next
      case False
      then have "indexEntries (List.map_filter store ks) k = None"
        by (auto simp: indexEntries_def map_of_eq_None_iff)
      moreover have "store k = None" if "k \<in> set ks"
        using False that assms by (cases "store k") (force simp: List.map_filter_def)+
      ultimately show ?thesis by (auto simp: restrict_map_def)
    qed
  qed
qed

lemma stableD:
  assumes "stable_ledger C store L"
  shows "ctx_err C s = (Inr None, s)"
    and "entries_call C ks s = (Inr (Inr \<lparr>er_Entries = List.map_filter store ks, er_LatestLedger = L\<rparr>), s)"
    and "rpc (GetLedgerEntries C ks) s = (Inr \<lparr>er_Entries = List.map_filter store ks, er_LatestLedger = L\<rparr>, s)"
    and "indexEntries (List.map_filter store ks) = store |` set ks" and "L \<noteq> 0"
  using assms by (simp_all add: stable_ledger_def ctx_err_def entries_call_def rpc_def indexEntries_stable)

lemma fetch_stable:
  assumes "stable_ledger C store L"
  shows "fetch_loop C keys (fetched store L K) s = (Inr (fetched store L (K \<union> set keys)), s)"
proof (induction "length keys" arbitrary: keys K rule: less_induct)
  case less
  show ?case
  proof (cases "keys = []")
    case True
    then show ?thesis by (subst fetch_loop.simps) simp
  next
    case False
    let ?chunk = "take maxLedgerKeysPerRequest keys" and ?rest = "drop maxLedgerKeysPerRequest keys"
    have rec: "record_chunk ?chunk (Inr \<lparr>er_Entries = List.map_filter store ?chunk, er_LatestLedger = L\<rparr>)
        (fetched store L K) = fetched store L (K \<union> set ?chunk)"
      by (auto simp: record_chunk_def fetched_def stableD(4) [OF assms] fun_eq_iff map_add_def all_keys_apply
          restrict_map_def split: option.splits)
    have "length ?rest < length keys" using False by (simp add: maxLedgerKeysPerRequest_def)
    note ih = less [OF this]
    have "set keys = set ?chunk \<union> set ?rest" by (metis append_take_drop_id set_append)
    then show ?thesis
      using False ih
      by (subst fetch_loop.simps) (simp add: ebind_apply stableD [OF assms] rec Un_assoc)
  qed
qed

lemma cached_stable:
  assumes "set keys \<subseteq> K"
  shows "cached_entries (fetched store L K) keys resp =
     Inr \<lparr>er_Entries = er_Entries resp @ List.map_filter store keys,
       er_LatestLedger = (if keys = [] \<or> er_LatestLedger resp \<noteq> 0 then er_LatestLedger resp else L)\<rparr>"
  using assms
proof (induction keys arbitrary: resp)
  case (Cons k ks)
  then show ?case
    by (auto simp: fetched_def restrict_map_def List.map_filter_simps split: option.splits)
qed (simp add: List.map_filter_simps)

section \<open>Transparency\<close>

abbreviation batched :: "'w prober \<Rightarrow> batch_entries \<Rightarrow> 'w prober" where
  "batched P b \<equiv> P\<lparr>p_client := cachedLedgerClient (p_client P) b\<rparr>"

lemma cached_client_fields [simp]:
  "SimulateTransaction (cachedLedgerClient C b) = SimulateTransaction C"
  "GetLatestLedger (cachedLedgerClient C b) = GetLatestLedger C"
  "GetLedgers (cachedLedgerClient C b) = GetLedgers C"
  "CtxErr (cachedLedgerClient C b) = CtxErr C" "Now (cachedLedgerClient C b) = Now C"
  by (simp_all add: cachedLedgerClient_def)

lemma cached_client_ops [simp]:
  "ctx_err (cachedLedgerClient C b) = ctx_err C" "now (cachedLedgerClient C b) = now C"
  by (simp_all add: ctx_err_def now_def)

lemma cached_close_time [simp]: "ledgerCloseTime (cachedLedgerClient C b) = ledgerCloseTime C"
  unfolding ledgerCloseTime_def ctx_or_fallback_def cache_fresh_def cached_client_fields cached_client_ops
  by (rule refl)

lemma prober_client [simp]:
  "p_sdk (P\<lparr>p_client := C\<rparr>) = p_sdk P" "p_codec (P\<lparr>p_client := C\<rparr>) = p_codec P"
  "p_source (P\<lparr>p_client := C\<rparr>) = p_source P" "p_thresholds (P\<lparr>p_client := C\<rparr>) = p_thresholds P"
  "p_overrides (P\<lparr>p_client := C\<rparr>) = p_overrides P" "p_abi (P\<lparr>p_client := C\<rparr>) = p_abi P"
  "p_network (P\<lparr>p_client := C\<rparr>) = p_network P" "p_baseFee (P\<lparr>p_client := C\<rparr>) = p_baseFee P"
  "p_client (P\<lparr>p_client := C\<rparr>) = C"
  by simp_all

lemma client_independent [simp]:
  "planInspect (P\<lparr>p_client := C\<rparr>) = planInspect P"
  "thresholdsFor (P\<lparr>p_client := C\<rparr>) = thresholdsFor P"
  "readInstanceEntry (P\<lparr>p_client := C\<rparr>) = readInstanceEntry P"
  "dataReport (P\<lparr>p_client := C\<rparr>) = dataReport P"
  "undeployed_report (P\<lparr>p_client := C\<rparr>) = undeployed_report P"
proof -
  have enc: "encodeDataKeys (P\<lparr>p_client := C\<rparr>) = encodeDataKeys P"
    by (intro ext) (simp only: encodeDataKeys_def prober_client)
  show "planInspect (P\<lparr>p_client := C\<rparr>) = planInspect P"
    by (intro ext) (simp only: planInspect_def prober_client enc)
  show "thresholdsFor (P\<lparr>p_client := C\<rparr>) = thresholdsFor P"
    by (simp add: thresholdsFor_def fun_eq_iff)
  then show "dataReport (P\<lparr>p_client := C\<rparr>) = dataReport P"
    "undeployed_report (P\<lparr>p_client := C\<rparr>) = undeployed_report P"
    unfolding dataReport_def undeployed_report_def by (simp_all only:)
  have "decodeStorage (P\<lparr>p_client := C\<rparr>) = decodeStorage P"
    unfolding decodeStorage_def prober_client ..
  then show "readInstanceEntry (P\<lparr>p_client := C\<rparr>) = readInstanceEntry P"
    unfolding readInstanceEntry_def prober_client by (simp only:)
qed

lemma batched_Simulate [simp]: "Simulate (batched P b) = Simulate P"
proof -
  have events: "decodeEvents (P\<lparr>p_client := C\<rparr>) = decodeEvents P" for C
    unfolding decodeEvents_def decode_event_def prober_client ..
  have tree: "decodeAuthorizedInvocation (P\<lparr>p_client := C\<rparr>) i = decodeAuthorizedInvocation P i" for C i
  proof (induction i)
    case (AuthInvocation f subs)
    then have subs: "rmap (\<lambda>_. decodeAuthorizedInvocation (P\<lparr>p_client := C\<rparr>)) subs =
        rmap (\<lambda>_. decodeAuthorizedInvocation P) subs"
      by (intro rmap_from_cong) auto
    show ?case
      unfolding decodeAuthorizedInvocation.simps subs prober_client ..
  qed
  have auth: "auth_of (P\<lparr>p_client := C\<rparr>) = auth_of P" for C
    unfolding auth_of_def decodeAuthEntries_def decode_auth_def credentials_address_def tree prober_client ..
  have build: "buildSimulateResult (P\<lparr>p_client := C\<rparr>) = buildSimulateResult P" for C
    unfolding buildSimulateResult_def restore_of_def cost_of_def return_value_of_def events auth prober_client ..
  have typed: "typeArgs (batched P b) = typeArgs P"
    unfolding typeArgs_def prober_client cached_client_ops ..
  show ?thesis
    unfolding Simulate_def simulate_once_def build typed prober_client cached_client_fields ..
qed

lemma batched_estimates [simp]: "estimateExtends (batched P b) = estimateExtends P"
  unfolding estimateExtends_def estimate_one_def estimateExtendFee_def prober_client cached_client_fields ..

lemma batched_call:
  assumes "stable_ledger (p_client P) store L" and "set keys \<subseteq> K" and "keys \<noteq> []"
  shows "rpc (GetLedgerEntries (p_client (batched P (fetched store L K))) keys) =
    rpc (GetLedgerEntries (p_client P) keys)"
  using assms cached_stable [OF assms(2), of store L "\<lparr>er_Entries = [], er_LatestLedger = 0\<rparr>"]
  by (simp add: fun_eq_iff rpc_def cachedLedgerClient_def stable_ledger_def)

text \<open>The code key of the contract the plan is for, if its instance entry names code.\<close>

definition code_key :: "'w prober \<Rightarrow> (string \<rightharpoonup> ledger_entry) \<Rightarrow> inspect_plan \<Rightarrow> string option" where
  "code_key P store plan =
     (case store (ip_instanceKey plan) of
        None \<Rightarrow> None
      | Some inst \<Rightarrow>
          (case readInstanceEntry P inst of
             Inl _ \<Rightarrow> None
           | Inr info \<Rightarrow>
               (case in_Hash info of
                  None \<Rightarrow> None
                | Some hash \<Rightarrow>
                    (case EncodeKey (p_sdk P) (CodeKey hash) of Inl _ \<Rightarrow> None | Inr key \<Rightarrow> Some key))))"

definition covered :: "'w prober \<Rightarrow> (string \<rightharpoonup> ledger_entry) \<Rightarrow> string set \<Rightarrow> inspect_plan \<Rightarrow> bool" where
  "covered P store K plan \<longleftrightarrow> set (ip_keys plan) \<subseteq> K \<and> (\<forall>key. code_key P store plan = Some key \<longrightarrow> key \<in> K)"

lemma batched_uncached:
  assumes "stable_ledger (p_client P) store L"
    and cov: "\<And>plan. planInspect P req = Inr plan \<Longrightarrow> covered P store K plan"
  shows "inspectUncached (batched P (fetched store L K)) req = inspectUncached P req"
proof (cases "planInspect P req")
  case (Inl e)
  then show ?thesis by (simp add: inspectUncached_def)
next
  case (Inr plan)
  let ?P = "batched P (fetched store L K)" and ?found = "store |` set (ip_keys plan)"
  have keys: "set (ip_keys plan) \<subseteq> K" "ip_keys plan \<noteq> []" "ip_instanceKey plan \<in> set (ip_keys plan)"
    using cov [OF Inr] plan_Inr(2) [OF Inr] by (simp_all add: covered_def)
  have code: "inspectCode ?P hash ct = inspectCode P hash ct"
    if "store (ip_instanceKey plan) = Some inst" "readInstanceEntry P inst = Inr info" "in_Hash info = Some hash"
    for inst info hash ct
  proof (cases "EncodeKey (p_sdk P) (CodeKey hash)")
    case (Inr key)
    then have "key \<in> K" using cov [OF \<open>planInspect P req = Inr plan\<close>] that by (simp add: covered_def code_key_def)
    then have "rpc (GetLedgerEntries (p_client ?P) [key]) = rpc (GetLedgerEntries (p_client P) [key])"
      using batched_call [OF assms(1), of "[key]" K] by simp
    then show ?thesis by (simp add: inspectCode_def Inr)
  qed (simp add: inspectCode_def)
  have dep: "inspect_deployed ?P req plan f latest ct nt inst = inspect_deployed P req plan f latest ct nt inst"
    if "store (ip_instanceKey plan) = Some inst" for f latest ct nt inst
  proof (cases "readInstanceEntry P inst")
    case (Inl e)
    then show ?thesis by (simp add: inspect_deployed_def fun_eq_iff ebind_apply Let_def split: sum.split)
  next
    case (Inr info)
    show ?thesis
    proof (cases "in_Hash info")
      case None
      show ?thesis
        unfolding inspect_deployed_def Let_def client_independent batched_estimates Inr ebind_elift None option.case ..
    next
      case (Some hash)
      show ?thesis
        unfolding inspect_deployed_def Let_def client_independent batched_estimates Inr ebind_elift Some option.case
          code [OF that Inr Some] ..
    qed
  qed
  show ?thesis
  proof
    fix s
    have "rpc (GetLedgerEntries (p_client ?P) (ip_keys plan)) s =
        (Inr \<lparr>er_Entries = List.map_filter store (ip_keys plan), er_LatestLedger = L\<rparr>, s)"
      using batched_call [OF assms(1) keys(1,2)] stableD(3) [OF assms(1)] by simp
    then show "inspectUncached ?P req s = inspectUncached P req s"
      using keys(3) dep
      by (auto simp: inspectUncached_def Inr ebind_apply stableD [OF assms(1)] Let_def
          split: prod.split sum.split option.split)
  qed
qed

lemma batched_check:
  assumes "stable_ledger (p_client P) store L"
    and "\<And>plan. planInspect P (inspect_part req) = Inr plan \<Longrightarrow> covered P store K plan"
  shows "Check (batched P (fetched store L K)) req = Check P req"
proof -
  have unc: "inspectUncached (batched P (fetched store L K)) (inspect_part req) = inspectUncached P (inspect_part req)"
    by (rule batched_uncached [OF assms(1)]) (rule assms(2))
  have insp: "Inspect (batched P (fetched store L K)) (inspect_part req) = Inspect P (inspect_part req)"
    unfolding Inspect_def cache_read_def cache_write_def unc prober_client
      cached_client_ops ..
  have steps: "checkSteps (P\<lparr>p_client := C\<rparr>) = checkSteps P" for C
  proof -
    have "expectCheck (P\<lparr>p_client := C\<rparr>) = expectCheck P" unfolding expectCheck_def prober_client ..
    then show ?thesis unfolding checkSteps_def expectStep_def by (simp only:)
  qed
  show ?thesis unfolding Check_def insp steps batched_Simulate ..
qed

section \<open>Recorded errors\<close>

text \<open>On a stable ledger the prefetch records for each check the error that the check itself has.\<close>

lemma described_evaluate: "described kind key (EvaluateWithCloseTime lu c d t ct) th \<noteq> Inl e"
  by (auto simp: described_def Describe_def EvaluateWithCloseTime_def classify_def Let_def
      split: option.splits if_splits)

lemma dataReport_total: "dataReport P found latest dur ct dk \<noteq> Inl e"
  using described_evaluate
  by (auto simp: dataReport_def Let_def described_def Describe_def Absent_def split: option.splits)

lemma data_total: "\<exists>data. rmap (\<lambda>_. dataReport P found latest dur ct) dks = Inr data"
proof (cases "rmap (\<lambda>_. dataReport P found latest dur ct) dks")
  case (Inl e)
  then show ?thesis by (auto simp: rmap_from_Inl_iff dataReport_total)
qed simp

lemma plan_error_no_panic: "planInspect P req \<noteq> Inl NilDereference"
  by (auto simp: planInspect_def ParseContractID_def EncodeKey_def encodeDataKeys_def Let_def result_simps
      rmap_from_Inl_iff split: option.splits if_splits)

lemma plan_error_inspect:
  assumes "planInspect P (inspect_part req) = Inl e" and "reportCache u = None"
  shows "Check P req u = (Inl e, u)"
  using assms by (simp add: Check_def Inspect_def ebind_apply inspectUncached_def)

lemma instance_error_inspect:
  assumes "stable_ledger (p_client P) store L" and "planInspect P (inspect_part req) = Inr plan"
    and "store (ip_instanceKey plan) = Some inst" and "reportCache u = None"
    and "ledgerCloseTime (p_client P) u = (Inr (ct, nt), v)"
    and err: "readInstanceEntry P inst = Inl e \<or>
      (\<exists>info hash. readInstanceEntry P inst = Inr info \<and> in_Hash info = Some hash \<and>
        EncodeKey (p_sdk P) (CodeKey hash) = Inl e)"
  shows "fst (Check P req u) = Inl e"
proof -
  have mem: "ip_instanceKey plan \<in> set (ip_keys plan)" using plan_Inr(2) [OF assms(2)] by simp
  have "fst (inspect_deployed P (inspect_part req) plan f L ct nt inst v) = Inl e" for f
  proof -
    let ?t = "thresholdsFor P EntryKindInstance"
    obtain rep where rep: "described ''instance'' []
        (EvaluateWithCloseTime (le_LiveUntil inst) L DurabilityPersistent ?t ct) ?t = Inr rep"
      using described_evaluate by (metis obj_sumE)
    obtain data where data: "rmap (\<lambda>_. dataReport P f L (ip_durability plan) ct) (ip_dataKeys plan) = Inr data"
      using data_total by blast
    show ?thesis using err
      by (auto simp: inspect_deployed_def Let_def rep data inspectCode_def ebind_apply split: sum.split)
  qed
  then have "fst (inspectUncached P (inspect_part req) u) = Inl e"
    using assms(3,5) mem
    by (simp add: inspectUncached_def assms(2) ebind_apply stableD [OF assms(1)] Let_def)
  then have "fst (Inspect P (inspect_part req) u) = Inl e"
    using assms(4) by (simp add: Inspect_def ebind_apply)
  then show ?thesis
    by (cases "Inspect P (inspect_part req) u") (simp add: Check_def ebind_apply)
qed

lemma code_state_cases:
  assumes "code_state P (fetched store L K) (plan_state P c) = Inr st"
    and "planInspect P (inspect_part (nc_Request c)) = Inr plan" and "ip_instanceKey plan \<in> K"
  shows "case bs_err st of
      None \<Rightarrow> bs_codeKey st = code_key P store plan
    | Some e \<Rightarrow> e \<noteq> NilDereference \<and> bs_codeKey st = None \<and> (\<exists>inst. store (ip_instanceKey plan) = Some inst \<and>
        (readInstanceEntry P inst = Inl e \<or> (\<exists>info hash. readInstanceEntry P inst = Inr info \<and>
           in_Hash info = Some hash \<and> EncodeKey (p_sdk P) (CodeKey hash) = Inl e)))"
proof -
  have no_err: "first_error (fetched store L K) ks = None" for ks
    by (induction ks) (simp_all add: fetched_def)
  have st0: "bs_err (plan_state P c) = None" "bs_plan (plan_state P c) = Some plan" "bs_codeKey (plan_state P c) = None"
    using assms(2) by (simp_all add: plan_state_def)
  have entry: "be_entries (fetched store L K) (ip_instanceKey plan) = store (ip_instanceKey plan)"
    using assms(3) by (simp add: fetched_def)
  have enc: "EncodeKey S k \<noteq> Inl NilDereference" for S k
    by (simp add: EncodeKey_def split: option.split)
  show ?thesis
  proof (cases "store (ip_instanceKey plan)")
    case None
    then show ?thesis using assms(1) st0 entry no_err by (auto simp: code_state_def code_key_def)
  next
    case (Some inst)
    show ?thesis
    proof (cases "readInstanceEntry P inst")
      case (Inl e)
      then show ?thesis
        using assms(1) st0 entry no_err Some by (auto simp: code_state_def split: error.splits)
    next
      case (Inr info)
      show ?thesis
      proof (cases "in_Hash info")
        case None
        then show ?thesis using assms(1) st0 entry no_err Some Inr by (auto simp: code_state_def code_key_def)
      next
        case hash: (Some hash)
        show ?thesis
          using assms(1) st0 entry no_err Some Inr hash enc [of "p_sdk P" "CodeKey hash"]
          by (cases "EncodeKey (p_sdk P) (CodeKey hash)") (auto simp: code_state_def code_key_def)
      qed
    qed
  qed
qed

lemma set_first_seen [simp]: "set (first_seen ks) = set ks"
  by (simp add: first_seen_def)

lemma emap_pure:
  assumes "\<And>x s. f x s = (Inr (g x), s)"
  shows "emap f xs s = (Inr (map g xs), s)"
  by (induction xs) (simp_all add: assms ebind_apply)

text \<open>The data a prefetch of a stable ledger gathers.\<close>

lemma prefetch_stable:
  assumes "stable_ledger (p_client P) store L" and "prefetch P checks s = (Inr (states, b), t)"
  obtains A where "rmap (\<lambda>_. code_state P (fetched store L A)) (map (plan_state P) checks) = Inr states"
    and "b = fetched store L (A \<union> set (List.map_filter bs_codeKey states))"
    and "A = set (concat (map (\<lambda>c. state_keys (plan_state P c)) checks))"
proof -
  have plans: "emap (\<lambda>c. unless_done P (eret (plan_state P c))) checks s = (Inr (map (plan_state P) checks), s)" for s
    by (rule emap_pure) (simp add: unless_done_def ebind_apply stableD [OF assms(1)])
  have fetch: "fetchBatchEntries (p_client P) ks s = (Inr (fetched store L (set ks)), s)" for ks s
    using fetch_stable [OF assms(1), of ks "{}" s] by (simp add: fetchBatchEntries_def fetched_empty [of store L])
  show thesis
    using assms(2) that
    by (auto simp: prefetch_def ebind_eq_Inr plans fetch fetched_merge comp_def)
qed

lemma prefetched_covered:
  assumes stable: "stable_ledger (p_client P) store L"
    and "prefetch P checks s = (Inr (states, b), t)" and "(c, st) \<in> set (zip checks states)"
    and "planInspect P (inspect_part (nc_Request c)) = Inr plan"
  obtains A where "code_state P (fetched store L A) (plan_state P c) = Inr st" and "ip_instanceKey plan \<in> A"
    and "b = fetched store L (A \<union> set (List.map_filter bs_codeKey states))"
    and "bs_err st = None \<Longrightarrow> covered P store (A \<union> set (List.map_filter bs_codeKey states)) plan"
proof -
  obtain A where A: "rmap (\<lambda>_. code_state P (fetched store L A)) (map (plan_state P) checks) = Inr states"
    "b = fetched store L (A \<union> set (List.map_filter bs_codeKey states))"
    "A = set (concat (map (\<lambda>c. state_keys (plan_state P c)) checks))"
    using prefetch_stable [OF stable assms(2)] by blast
  obtain i where i: "i < length checks" "checks ! i = c" "states ! i = st" "i < length states"
    using assms(3) by (auto simp: set_zip)
  have st: "code_state P (fetched store L A) (plan_state P c) = Inr st"
    using A(1) i by (auto simp: rmap_from_Inr_iff)
  have keys: "set (ip_keys plan) \<subseteq> A"
  proof -
    have "c \<in> set checks" using i by (metis nth_mem)
    moreover have "state_keys (plan_state P c) = ip_keys plan"
      using assms(4) by (simp add: state_keys_def plan_state_def)
    ultimately show ?thesis unfolding A(3) by auto
  qed
  have inst: "ip_instanceKey plan \<in> A" using keys plan_Inr(2) [OF assms(4)] by simp
  have cov: "covered P store (A \<union> set (List.map_filter bs_codeKey states)) plan" if "bs_err st = None"
  proof -
    have "bs_codeKey st = code_key P store plan"
      using code_state_cases [OF st assms(4) inst] that by simp
    note key = this
    have "st \<in> set states" using i(3,4) nth_mem by blast
    note st_mem = this
    have "key \<in> set (List.map_filter bs_codeKey states)" if "code_key P store plan = Some key" for key
    proof -
      have "bs_codeKey st = Some key" using that key by simp
      then show ?thesis
        using st_mem unfolding List.map_filter_def by (auto intro!: image_eqI [of _ _ st])
    qed
    then show ?thesis using keys unfolding covered_def by blast
  qed
  show thesis by (rule that [OF st inst A(2) cov])
qed

section \<open>Properties\<close>

text \<open>
  C2. Prefetching is transparent. On a ledger that does not change meanwhile, every check of a
  plain batch has the very outcome it has on its own: where the prefetch recorded an error, the
  check alone fails with that error, and otherwise the check against the prefetched client is
  the same operation as against the ledger, whatever simulations and caches do.
\<close>

theorem prefetch_transparent:
  assumes stable: "stable_ledger (p_client P) store L"
    and run: "prefetch P checks s = (Inr (states, b), t)" and mem: "(c, st) \<in> set (zip checks states)"
    and cache: "reportCache u = None" and close: "ledgerCloseTime (p_client P) u = (Inr (ct, nt), v)"
  shows "fst (prefetched_item P b (c, st) u) = fst (item_of c (Check P (nc_Request c)) u) \<and>
    (bs_err st = None \<longrightarrow> prefetched_item P b (c, st) = item_of c (Check P (nc_Request c)))"
proof (cases "planInspect P (inspect_part (nc_Request c))")
  case (Inl e)
  obtain A where "rmap (\<lambda>_. code_state P (fetched store L A)) (map (plan_state P) checks) = Inr states"
    using prefetch_stable [OF stable run] by blast
  then have "code_state P (fetched store L A) (plan_state P c) = Inr st"
    using mem by (auto simp: rmap_from_Inr_iff set_zip)
  then have "bs_err st = Some e" using Inl by (auto simp: code_state_def plan_state_def)
  moreover have "e \<noteq> NilDereference" using Inl plan_error_no_panic by auto
  ultimately show ?thesis
    using plan_error_inspect [OF Inl cache] by (simp add: prefetched_item_def item_of_def ebind_apply etry_apply)
next
  case (Inr plan)
  obtain A where st: "code_state P (fetched store L A) (plan_state P c) = Inr st" "ip_instanceKey plan \<in> A"
    and b: "b = fetched store L (A \<union> set (List.map_filter bs_codeKey states))"
    and cov: "bs_err st = None \<Longrightarrow> covered P store (A \<union> set (List.map_filter bs_codeKey states)) plan"
    using prefetched_covered [OF stable run mem Inr] by blast
  show ?thesis
  proof (cases "bs_err st")
    case None
    have "Check (batched P b) (nc_Request c) = Check P (nc_Request c)"
      unfolding b using Inr cov [OF None] by (intro batched_check [OF stable]) simp
    moreover have "code_error b st = None"
      by (auto simp: code_error_def b fetched_def split: option.split)
    ultimately show ?thesis using None by (simp add: prefetched_item_def)
  next
    case (Some e)
    then obtain inst where "store (ip_instanceKey plan) = Some inst" and ne: "e \<noteq> NilDereference"
      and err: "readInstanceEntry P inst = Inl e \<or> (\<exists>info hash. readInstanceEntry P inst = Inr info \<and>
        in_Hash info = Some hash \<and> EncodeKey (p_sdk P) (CodeKey hash) = Inl e)"
      using code_state_cases [OF st(1) Inr st(2)] by auto
    then have "fst (Check P (nc_Request c) u) = Inl e"
      using instance_error_inspect [OF stable Inr _ cache close] by blast
    then show ?thesis
      using Some ne
      by (cases "Check P (nc_Request c) u") (simp add: prefetched_item_def item_of_def ebind_apply etry_apply)
  qed
qed

text \<open>
  A batch that is accepted is well formed: between one and a hundred checks, each with a
  contract, a timeout that is not negative and a known durability, all under different names.
\<close>

theorem accepted_batch_well_formed:
  assumes "batch_mode req = Inr mode"
  shows "1 \<le> length (bq_Checks req) \<and> length (bq_Checks req) \<le> 100 \<and> 0 \<le> bq_Concurrency req \<and>
    distinct (map checkName (bq_Checks req)) \<and>
    list_all (\<lambda>c. ch_ContractID (nc_Request c) \<noteq> [] \<and> (\<exists>d. checkTimeout c = Inr d \<and> 0 \<le> sint d) \<and>
      ch_DataDurability (nc_Request c) \<in> {no_durability, DurabilityPersistent, DurabilityTemporary}) (bq_Checks req) \<and>
    (mode = Prefetched \<longrightarrow> bq_Concurrency req \<le> 1 \<and> list_all (\<lambda>c. nc_Timeout c = []) (bq_Checks req))"
proof -
  have valid: "validateBatch req = Inr ()" and neg: "0 \<le> bq_Concurrency req"
    and pre: "mode = Prefetched \<longrightarrow> bq_Concurrency req \<le> 1 \<and> list_all (\<lambda>c. nc_Timeout c = []) (bq_Checks req)"
    using assms by (auto simp: batch_mode_def result_simps list_all_iff list_ex_iff split: if_splits)
  have ne: "bq_Checks req \<noteq> []" "length (bq_Checks req) \<le> 100" and checks: "validate_checks 0 [] (bq_Checks req) = Inr ()"
    using valid by (auto simp: validateBatch_def MaxBatchChecks_def split: if_splits)
  show ?thesis
    using ne neg pre validate_checks_ok(1) [OF checks] validate_checks_ok(3) [OF checks]
    by (simp add: Suc_le_eq list_all_iff)
qed

definition sample_named :: named_check where
  "sample_named = \<lparr>nc_Name = ''a'', nc_Timeout = ''45s'', nc_Request = sample_check\<rparr>"

lemma sample_timeout: "checkTimeout sample_named = Inr (45 * second)"
proof -
  have "parse_duration ''45s'' = Some (45 * second)" by code_simp
  then show ?thesis by (simp add: checkTimeout_def sample_named_def second_def word_sless_alt)
qed

lemma accepted_batch_well_formed_witness:
  "batch_mode \<lparr>bq_Checks = [sample_named], bq_Concurrency = 0\<rparr> = Inr Concurrent \<and>
   (\<exists>d. checkTimeout sample_named = Inr d \<and> 0 \<le> sint d)"
proof -
  have mode: "batch_mode \<lparr>bq_Checks = [sample_named], bq_Concurrency = 0\<rparr> = Inr Concurrent"
    by (simp add: batch_mode_def validateBatch_def sample_timeout MaxBatchChecks_def)
      (simp add: sample_named_def sample_check_def)
  from accepted_batch_well_formed [OF mode] mode show ?thesis by simp
qed

definition stable_client :: "nat client" where
  "stable_client = (quiet_client (\<lambda>ks. \<lparr>er_Entries = List.map_filter [''I'' \<mapsto>
      \<lparr>le_KeyXDR = ''I'', le_DataXDR = ''inst'', le_LiveUntil = None\<rparr>] ks, er_LatestLedger = 100\<rparr>) quiet_response)"

lemma prefetch_transparent_witness:
  "\<exists>states b t st. prefetch (sample_prober stable_client) [sample_named] sample_state = (Inr (states, b), t) \<and>
     fst (prefetched_item (sample_prober stable_client) b (sample_named, st) sample_state) =
       fst (item_of sample_named (Check (sample_prober stable_client) sample_check) sample_state)"
proof -
  let ?P = "sample_prober stable_client"
  let ?store = "[''I'' \<mapsto> \<lparr>le_KeyXDR = ''I'', le_DataXDR = ''inst'', le_LiveUntil = None\<rparr>]"
  have stable: "stable_ledger (p_client ?P) ?store 100"
    by (simp add: stable_ledger_def sample_prober_def stable_client_def quiet_client_def sample_client_def)
  have part: "inspect_part (nc_Request sample_named) = sample_request"
    by (simp add: inspect_part_def sample_named_def sample_check_def sample_request_def)
  have plans: "unless_done ?P (eret x) s = (Inr x, s)" for x :: batch_check_state and s
    by (simp add: unless_done_def ebind_apply stableD [OF stable])
  have fetch: "fetchBatchEntries (p_client ?P) ks s = (Inr (fetched ?store 100 (set ks)), s)" for ks s
    using fetch_stable [OF stable, of ks "{}" s] by (simp add: fetchBatchEntries_def fetched_empty [of ?store 100])
  have inst: "readInstanceEntry ?P \<lparr>le_KeyXDR = ''I'', le_DataXDR = ''inst'', le_LiveUntil = None\<rparr> =
      Inr \<lparr>in_Executable = ''stellar_asset'', in_WasmHash = [], in_Storage = NoStorage, in_Hash = None\<rparr>"
    by (simp add: readInstanceEntry_def DecodeEntryData_def sample_prober_def sample_sdk_def)
  have code: "\<exists>st. code_state ?P (fetched ?store 100 {''I'', ''D''}) (plan_state ?P sample_named) = Inr st"
    by (simp add: code_state_def plan_state_def part sample_plan fetched_def inst)
  have keys: "set (concat (map state_keys [plan_state ?P sample_named])) = {''I'', ''D''}"
    by (simp add: plan_state_def part sample_plan state_keys_def)
  obtain st b where run: "prefetch ?P [sample_named] sample_state = (Inr ([st], b), sample_state)"
    using code by (auto simp: prefetch_def ebind_apply plans fetch keys [simplified])
  have close: "ledgerCloseTime (p_client ?P) sample_state = (Inr (6 * second, NoteMeasured (6 * second)), sample_state)"
    by (simp add: ledgerCloseTime_def ebind_apply cache_fresh_def now_def second_def minute_def
        sample_prober_def stable_client_def quiet_client_def sample_client_def sample_state_def
        ledgerTimeCacheTTL_def time_sub_def min_i64_def max_i64_def word_sless_alt)
  have cache: "reportCache sample_state = None" by (simp add: sample_state_def)
  have "(sample_named, st) \<in> set (zip [sample_named] [st])" by simp
  from prefetch_transparent [OF stable run this cache close] run show ?thesis
    by (intro exI [of _ "[st]"] exI [of _ b] exI [of _ sample_state] exI [of _ st])
      (simp add: sample_named_def)
qed

text \<open>
  A check that a cancelled context ends is recorded as an item of a plain batch; only the
  concurrent mode looks at the context again and returns its error.
\<close>

lemma cancelled_check_is_item:
  "m s = (Inl (CtxError msg), t) \<Longrightarrow> item_of c m s = (Inr (error_item c (CtxError msg)), t)"
  by (simp add: item_of_def ebind_apply etry_apply)

end
