(* ===== verification/Workers.thy ===== *)
theory Workers
  imports Batch
begin

text \<open>
  The concurrent mode of a batch, \<^verbatim>\<open>checkBatchConcurrent\<close> and \<^verbatim>\<open>runBounded\<close> of
  \<^verbatim>\<open>internal/probe/batch.go\<close>: workers take job indices from a channel until it is drained or the
  context is done. The steps of all workers, and the cancellation, interleave in any order.

  What a check may return is a relation, since the checks share the prober's state; a panicking
  check ends the process and is not an outcome.
\<close>

section \<open>The pool\<close>

datatype worker = Idle | Busy nat | Exited

record pool =
  jobs :: "nat list"
  workers :: "worker list"
  items :: "batch_item list"
  cancelled :: bool

definition zero_item :: batch_item where
  "zero_item = \<lparr>bi_Name = [], bi_ContractID = [], bi_Result = None, bi_Error = None\<rparr>"

definition worker_count :: "batch_request \<Rightarrow> nat" where
  "worker_count req =
     (let c = (if bq_Concurrency req = 0 then 1 else bq_Concurrency req)
      in nat (if int (length (bq_Checks req)) < c then int (length (bq_Checks req)) else c))"

definition pool_start :: "nat \<Rightarrow> named_check list \<Rightarrow> pool" where
  "pool_start k checks = \<lparr>jobs = [0..<length checks], workers = replicate k Idle,
     items = replicate (length checks) zero_item, cancelled = False\<rparr>"

text \<open>The time limit of a check that was validated before; zero is none.\<close>

definition timeout_of :: "named_check \<Rightarrow> duration" where
  "timeout_of c = (case checkTimeout c of Inl _ \<Rightarrow> 0 | Inr d \<Rightarrow> d)"

definition deadline_exceeded :: error where
  "deadline_exceeded = CtxError ''context deadline exceeded''"

text \<open>
  The outcomes of \<open>runBounded\<close>, while the batch's own context is live: the check's own, from
  whatever state it ran in, or its deadline.
\<close>

definition runBounded :: "'w prober \<Rightarrow> named_check \<Rightarrow> (error, check_result) result \<Rightarrow> bool" where
  "runBounded P c r \<longleftrightarrow> r \<noteq> Inl NilDereference \<and> (\<exists>u v. Check P (nc_Request c) u = (r, v)) \<or>
     0 <s timeout_of c \<and> r = Inl deadline_exceeded"

definition bounded_item :: "named_check \<Rightarrow> (error, check_result) result \<Rightarrow> batch_item" where
  "bounded_item c r =
     (case r of
        Inr result \<Rightarrow> result_item c result
      | Inl e \<Rightarrow> error_item c (if 0 <s timeout_of c \<and> e = deadline_exceeded then TimedOut (timeout_of c) else e))"

inductive pool_step ::
    "(named_check \<Rightarrow> (error, check_result) result \<Rightarrow> bool) \<Rightarrow> named_check list \<Rightarrow> pool \<Rightarrow> pool \<Rightarrow> bool"
  for runs checks where
  cancel: "\<not> cancelled p \<Longrightarrow> pool_step runs checks p (p\<lparr>cancelled := True\<rparr>)"
| stop: "w < length (workers p) \<Longrightarrow> workers p ! w = Idle \<Longrightarrow> cancelled p \<Longrightarrow>
    pool_step runs checks p (p\<lparr>workers := (workers p)[w := Exited]\<rparr>)"
| stop_taking: "w < length (workers p) \<Longrightarrow> workers p ! w = Idle \<Longrightarrow> cancelled p \<Longrightarrow> jobs p = i # js \<Longrightarrow>
    pool_step runs checks p (p\<lparr>jobs := js, workers := (workers p)[w := Exited]\<rparr>)"
| drained: "w < length (workers p) \<Longrightarrow> workers p ! w = Idle \<Longrightarrow> jobs p = [] \<Longrightarrow>
    pool_step runs checks p (p\<lparr>workers := (workers p)[w := Exited]\<rparr>)"
| take_job: "w < length (workers p) \<Longrightarrow> workers p ! w = Idle \<Longrightarrow> \<not> cancelled p \<Longrightarrow> jobs p = i # js \<Longrightarrow>
    pool_step runs checks p (p\<lparr>jobs := js, workers := (workers p)[w := Busy i]\<rparr>)"
| finish: "w < length (workers p) \<Longrightarrow> workers p ! w = Busy i \<Longrightarrow> runs (checks ! i) r \<Longrightarrow> isOk r \<or> \<not> cancelled p \<Longrightarrow>
    pool_step runs checks p (p\<lparr>items := (items p)[i := bounded_item (checks ! i) r],
      workers := (workers p)[w := Idle]\<rparr>)"
| abandon: "w < length (workers p) \<Longrightarrow> workers p ! w = Busy i \<Longrightarrow> cancelled p \<Longrightarrow>
    pool_step runs checks p (p\<lparr>workers := (workers p)[w := Exited]\<rparr>)"

inductive_cases pool_stepE: "pool_step runs checks p q"

definition all_exited :: "pool \<Rightarrow> bool" where
  "all_exited p \<longleftrightarrow> list_all (\<lambda>w. w = Exited) (workers p)"

text \<open>
  After the workers: a cancelled context is the batch's error; otherwise the items are added up,
  and an item with neither an error nor a result would be a nil dereference.
\<close>

definition pool_result :: "pool \<Rightarrow> (error, batch_result) result" where
  "pool_result p =
     (if cancelled p then Inl (CtxError ''context canceled'')
      else if list_ex (\<lambda>i. bi_Error i = None \<and> bi_Result i = None) (items p) then Inl NilDereference
      else Inr (batch_of (items p)))"

section \<open>Invariant\<close>

definition settled :: "(named_check \<Rightarrow> (error, check_result) result \<Rightarrow> bool) \<Rightarrow> named_check list \<Rightarrow> pool \<Rightarrow> nat \<Rightarrow> bool" where
  "settled runs checks p i \<longleftrightarrow> (\<exists>r. runs (checks ! i) r \<and> items p ! i = bounded_item (checks ! i) r)"

definition pool_inv :: "(named_check \<Rightarrow> (error, check_result) result \<Rightarrow> bool) \<Rightarrow> named_check list \<Rightarrow> pool \<Rightarrow> bool" where
  "pool_inv runs checks p \<longleftrightarrow> length (items p) = length checks \<and>
     (\<forall>i \<in> set (jobs p). i < length checks) \<and> (\<forall>i. Busy i \<in> set (workers p) \<longrightarrow> i < length checks) \<and>
     (\<not> cancelled p \<longrightarrow> (Exited \<in> set (workers p) \<longrightarrow> jobs p = []) \<and>
        (\<forall>i < length checks. i \<in> set (jobs p) \<or> Busy i \<in> set (workers p) \<or> settled runs checks p i))"

lemma pool_inv_start: "pool_inv runs checks (pool_start k checks)"
  by (simp add: pool_inv_def pool_start_def)

lemma set_update_mem: "w < length xs \<Longrightarrow> y \<in> set (xs[w := x]) \<Longrightarrow> y = x \<or> y \<in> set xs"
  by (meson insertE set_update_subset_insert subsetD)

lemma mem_update_other: "y \<in> set xs \<Longrightarrow> xs ! w \<noteq> y \<Longrightarrow> y \<in> set (xs[w := x])"
  by (metis in_set_conv_nth length_list_update nth_list_update_neq)

lemma pool_inv_step:
  assumes "pool_step runs checks p q" and inv: "pool_inv runs checks p"
  shows "pool_inv runs checks q"
  using assms(1)
proof cases
  case cancel
  then show ?thesis using inv by (simp add: pool_inv_def)
next
  case (stop w)
  then show ?thesis using inv by (auto simp: pool_inv_def dest: set_update_mem)
next
  case (stop_taking w i js)
  then show ?thesis using inv by (auto simp: pool_inv_def dest: set_update_mem)
next
  case (drained w)
  have "Busy i \<in> set ((workers p)[w := Exited])" if "Busy i \<in> set (workers p)" for i
    using that drained by (intro mem_update_other) simp_all
  then show ?thesis using drained inv by (auto simp: pool_inv_def settled_def dest: set_update_mem)
next
  case (take_job w i js)
  have busy: "Busy j \<in> set ((workers p)[w := Busy i])" if "Busy j \<in> set (workers p) \<or> j = i" for j
    using that take_job by (auto intro: mem_update_other set_update_memI)
  show ?thesis using take_job inv busy
    by (auto simp: pool_inv_def settled_def dest: set_update_mem)
next
  case (finish w i r)
  have i: "i < length checks" "i < length (items p)"
    using finish(2,3) inv by (auto simp: pool_inv_def) (metis nth_mem)+
  have busy: "Busy j \<in> set ((workers p)[w := Idle])" if "Busy j \<in> set (workers p)" "j \<noteq> i" for j
    using that finish by (intro mem_update_other) simp_all
  have set: "settled runs checks q j" if "settled runs checks p j \<or> j = i" for j
  proof (cases "j = i")
    case True
    then show ?thesis using finish i by (auto simp: settled_def)
  next
    case False
    then show ?thesis using finish(1) that by (auto simp: settled_def)
  qed
  have q: "jobs q = jobs p" "cancelled q = cancelled p" "length (items q) = length (items p)"
    "workers q = (workers p)[w := Idle]"
    using finish(1) by simp_all
  have mem: "x = Idle \<or> x \<in> set (workers p)" if "x \<in> set (workers q)" for x
    using that set_update_mem [OF finish(2)] unfolding q by blast
  have "j \<in> set (jobs q) \<or> Busy j \<in> set (workers q) \<or> settled runs checks q j"
    if "\<not> cancelled p" "j < length checks" for j
    using inv that set [of j] busy [of j] unfolding pool_inv_def q by blast
  moreover have "Exited \<in> set (workers q) \<Longrightarrow> Exited \<in> set (workers p)"
    "Busy j \<in> set (workers q) \<Longrightarrow> Busy j \<in> set (workers p)" for j
    using mem by blast+
  ultimately show ?thesis
    using inv unfolding pool_inv_def q by blast
next
  case (abandon w i)
  then show ?thesis using inv by (auto simp: pool_inv_def dest: set_update_mem)
qed

lemma workers_step: "pool_step runs checks p q \<Longrightarrow> length (workers q) = length (workers p)"
  by (auto elim: pool_stepE)

text \<open>Every step uses up some of the work left.\<close>

fun worker_work :: "worker \<Rightarrow> nat" where
  "worker_work Idle = 1"
| "worker_work (Busy _) = 2"
| "worker_work Exited = 0"

definition work_left :: "pool \<Rightarrow> nat" where
  "work_left p = (if cancelled p then 0 else 1) + 2 * length (jobs p) + sum_list (map worker_work (workers p))"

lemma sum_list_worker:
  "w < length ws \<Longrightarrow> sum_list (map worker_work (ws[w := x])) + worker_work (ws ! w) =
     sum_list (map worker_work ws) + worker_work x"
proof (induction ws arbitrary: w)
  case (Cons y ys)
  then show ?case by (cases w) (auto simp: add.commute add.left_commute)
qed simp

lemma work_decreases:
  assumes "pool_step runs checks p q"
  shows "work_left q < work_left p"
  using assms
proof cases
  case cancel
  then show ?thesis by (simp add: work_left_def)
next
  case (stop w)
  then show ?thesis using sum_list_worker [of w "workers p" Exited] by (simp add: work_left_def)
next
  case (stop_taking w i js)
  then show ?thesis using sum_list_worker [of w "workers p" Exited] by (simp add: work_left_def)
next
  case (drained w)
  then show ?thesis using sum_list_worker [of w "workers p" Exited] by (simp add: work_left_def)
next
  case (take_job w i js)
  then show ?thesis using sum_list_worker [of w "workers p" "Busy i"] by (simp add: work_left_def)
next
  case (finish w i r)
  then show ?thesis using sum_list_worker [of w "workers p" Idle] by (simp add: work_left_def)
next
  case (abandon w i)
  then show ?thesis using sum_list_worker [of w "workers p" Exited] by (simp add: work_left_def)
qed

lemma pool_progress:
  assumes "\<not> all_exited p" and "\<And>c. c \<in> set checks \<Longrightarrow> \<exists>r. runs c r" and "pool_inv runs checks p"
  shows "\<exists>q. pool_step runs checks p q"
proof -
  obtain w where w: "w < length (workers p)" "workers p ! w \<noteq> Exited"
    using assms(1) by (auto simp: all_exited_def list_all_length)
  show ?thesis
  proof (cases "workers p ! w")
    case Idle
    then show ?thesis
      using w(1) pool_step.stop [of w p] pool_step.drained [of w p] pool_step.take_job [of w p]
      by (cases "jobs p"; cases "cancelled p") blast+
  next
    case (Busy i)
    then have "i < length checks" using assms(3) w(1) by (metis nth_mem pool_inv_def)
    then obtain r where "runs (checks ! i) r" using assms(2) nth_mem by blast
    then show ?thesis
      using w(1) Busy pool_step.finish [of w p i runs checks r] pool_step.abandon [of w p i]
      by (cases "cancelled p") blast+
  qed (use w in simp)
qed

lemma pool_inv_run: "(pool_step runs checks)\<^sup>*\<^sup>* p q \<Longrightarrow> pool_inv runs checks p \<Longrightarrow> pool_inv runs checks q"
  by (induction rule: rtranclp_induct) (auto intro: pool_inv_step)

lemma workers_run: "(pool_step runs checks)\<^sup>*\<^sup>* p q \<Longrightarrow> length (workers q) = length (workers p)"
  by (induction rule: rtranclp_induct) (auto dest: workers_step)

lemma bounded_item_filled: "bi_Error (bounded_item c r) = None \<Longrightarrow> bi_Result (bounded_item c r) \<noteq> None"
  by (auto simp: bounded_item_def result_item_def error_item_def split: sum.splits)

section \<open>Properties\<close>

text \<open>
  C3. Concurrency does not change a batch: however the workers interleave and however many they
  are, a run that ends without being cancelled reports, in the order of the request, for every
  check exactly an outcome that running this check alone may have; the adding up never meets an
  item that no worker filled in.
\<close>

theorem concurrent_refines_sequential:
  assumes "(pool_step (runBounded P) checks)\<^sup>*\<^sup>* (pool_start k checks) p"
    and "0 < k" and "all_exited p" and "\<not> cancelled p"
  shows "\<exists>outcomes. list_all2 (runBounded P) checks outcomes \<and>
    pool_result p = Inr (batch_of (map2 bounded_item checks outcomes))"
proof -
  have inv: "pool_inv (runBounded P) checks p" using pool_inv_run [OF assms(1) pool_inv_start] .
  have "length (workers p) = k" using workers_run [OF assms(1)] by (simp add: pool_start_def)
  then have "Exited \<in> set (workers p)" using assms(2,3) by (cases "workers p") (auto simp: all_exited_def)
  then have jobs: "jobs p = []" using inv assms(4) by (simp add: pool_inv_def)
  have "settled (runBounded P) checks p i" if "i < length checks" for i
    using inv assms(3,4) jobs that by (force simp: pool_inv_def all_exited_def list_all_iff)
  then obtain f where f: "runBounded P (checks ! i) (f i)" "items p ! i = bounded_item (checks ! i) (f i)"
    if "i < length checks" for i unfolding settled_def by metis
  let ?os = "map f [0..<length checks]"
  have items: "items p = map2 bounded_item checks ?os"
    using inv f(2) by (intro nth_equalityI) (auto simp: pool_inv_def)
  have "\<not> list_ex (\<lambda>i. bi_Error i = None \<and> bi_Result i = None) (items p)"
    using bounded_item_filled by (auto simp: items list_ex_iff)
  then have "pool_result p = Inr (batch_of (map2 bounded_item checks ?os))"
    using assms(4) by (simp add: pool_result_def items)
  moreover have "list_all2 (runBounded P) checks ?os" using f(1) by (simp add: list_all2_conv_all_nth)
  ultimately show ?thesis by blast
qed

lemma sample_run:
  fixes P :: "'w prober"
  defines "checks \<equiv> [sample_named]" and "item \<equiv> bounded_item sample_named (Inl deadline_exceeded)"
  shows "(pool_step (runBounded P) checks ^^ 3) (pool_start 1 checks)
    \<lparr>jobs = [], workers = [Exited], items = [item], cancelled = False\<rparr>"
proof -
  let ?p0 = "pool_start 1 checks"
  let ?p1 = "\<lparr>jobs = [], workers = [Busy 0], items = [zero_item], cancelled = False\<rparr>"
  let ?p2 = "\<lparr>jobs = [], workers = [Idle], items = [item], cancelled = False\<rparr>"
  let ?p3 = "\<lparr>jobs = [], workers = [Exited], items = [item], cancelled = False\<rparr>"
  have p0: "?p0 = \<lparr>jobs = [0], workers = [Idle], items = [zero_item], cancelled = False\<rparr>"
    by (simp add: pool_start_def checks_def)
  have "pool_step (runBounded P) checks ?p0 ?p1"
    unfolding p0
    using pool_step.take_job [of 0 "\<lparr>jobs = [0], workers = [Idle], items = [zero_item], cancelled = False\<rparr>"
        0 "[]" "runBounded P" checks] by simp
  moreover have "runBounded P (checks ! 0) (Inl deadline_exceeded)"
    by (simp add: runBounded_def checks_def timeout_of_def sample_timeout second_def word_sless_alt)
  then have "pool_step (runBounded P) checks ?p1 ?p2"
    using pool_step.finish [of 0 ?p1 0 "runBounded P" checks "Inl deadline_exceeded"]
    by (simp add: item_def checks_def)
  moreover have "pool_step (runBounded P) checks ?p2 ?p3"
    using pool_step.drained [of 0 ?p2 "runBounded P" checks] by simp
  ultimately show ?thesis by (auto simp: numeral_3_eq_3)
qed

lemma concurrent_refines_sequential_witness:
  "\<exists>outcomes. list_all2 (runBounded quiet_prober) [sample_named] outcomes \<and>
     pool_result \<lparr>jobs = [], workers = [Exited], items = [bounded_item sample_named (Inl deadline_exceeded)],
       cancelled = False\<rparr> = Inr (batch_of (map2 bounded_item [sample_named] outcomes))"
  using concurrent_refines_sequential [OF relpowp_imp_rtranclp [OF sample_run [of quiet_prober]]]
  by (simp add: all_exited_def)



end
