(* ===== verification/Http_Api.thy ===== *)
theory Http_Api
  imports Rate_Limit Config Go_Net Workers
begin

text \<open>
  The HTTP API, \<^verbatim>\<open>internal/api\<close>: the server's settings and state, the middleware in the order
  \<^verbatim>\<open>New\<close> mounts it, the handlers and the status of errors. A handler is an operation on the
  server's state, which holds the prober's state; it returns a response, and its only error is a
  panic, which \<^verbatim>\<open>middleware.Recoverer\<close> turns into a 500.

  The chi router is the parameter \<open>mux\<close> (method and path to route), \<^verbatim>\<open>encoding/json\<close> reading a
  body into the program's structs the three fields \<open>dec_\<dots>\<close>, and \<open>err_text\<close> the text of an error.
  Request logging and the deadline \<^verbatim>\<open>middleware.Timeout\<close> puts on the context do not show in a
  response; the latter reaches the probes through the client's \<open>CtxErr\<close>.
\<close>

section \<open>Requests and responses\<close>

record http_request =
  hq_Method :: string
  hq_Path :: string
  hq_Header :: "string \<Rightarrow> string"
  hq_Query :: "string \<Rightarrow> string list"
  hq_RemoteAddr :: string
  hq_Body :: string

datatype api_error =
    ProbeError error
  | InvalidBody string
  | TooManyAPIChecks nat
  | FieldsRequired
  | UnknownDurabilityParam string
  | BadEstimateExtend string
  | RateLimitExceeded
  | MissingBearerToken
  | InvalidBearerToken

datatype body =
    NoBody
  | BodyError api_error
  | BodyStatus string
  | BodyUnready error
  | BodyOpenAPI
  | BodySimulate simulate_result
  | BodyInspect inspect_result
  | BodyCheck check_result
  | BodyBatch batch_result

record response =
  re_Status :: nat
  re_Headers :: "(string \<times> string) list"
  re_Body :: body

record simulate_body =
  sb_ContractID :: string
  sb_Function :: string
  sb_Args :: "string list"
  sb_Baseline :: "baseline option"
  sb_MaxIncreasePercent :: "f64 option"

text \<open>The routes the server mounts; what the router answers itself is \<open>Unrouted\<close> with its status.\<close>

datatype v1_route = Simulate_Route | Inspect_Route string | Check_Route string | Checks_Route | V1_Unrouted nat

datatype route = Healthz | OpenAPI | Readyz | V1 v1_route | Unrouted nat

record api_env =
  mux :: "string \<Rightarrow> string \<Rightarrow> route"
  dec_simulate :: "string \<Rightarrow> (string, simulate_body) result"
  dec_checks :: "string \<Rightarrow> (string, named_check list) result"
  dec_count :: "string \<Rightarrow> nat option"
  err_text :: "error \<Rightarrow> string"

section \<open>The server\<close>

record 'w server =
  sv_prober :: "'w prober"
  sv_concurrent :: "batch_request \<Rightarrow> ('w, batch_result) pop"
  sv_addr :: string
  sv_trustForwardedFor :: bool
  sv_tlsCert :: string
  sv_tlsKey :: string
  sv_networkPassphrase :: string
  sv_readinessTTL :: duration
  sv_corsOrigins :: "string list"
  sv_apiToken :: string

record 'w sstate =
  ss_probe :: "'w pstate"
  ss_limiter :: limiter
  ss_ready :: "(instant \<times> error option) option"

record 'w api_options =
  ao_Prober :: "'w prober"
  ao_Addr :: string
  ao_CORSOrigins :: "string list"
  ao_APIToken :: string
  ao_NetworkPassphrase :: string
  ao_ReadinessCacheTTL :: duration
  ao_RateLimitPerMinute :: u32
  ao_RateLimitBurst :: u32
  ao_TrustForwardedFor :: bool
  ao_TLSCert :: string
  ao_TLSKey :: string

definition default_u32 :: "u32 \<Rightarrow> u32 \<Rightarrow> u32" where
  "default_u32 v d = (if v = 0 then d else v)"

definition default_string :: "string \<Rightarrow> string \<Rightarrow> string" where
  "default_string v d = (if v = [] then d else v)"

text \<open>\<^verbatim>\<open>api.New\<close>; \<open>conc\<close> is how the prober runs a batch concurrently, \<open>s\<close> its state.\<close>

definition api_New ::
    "(batch_request \<Rightarrow> ('w, batch_result) pop) \<Rightarrow> 'w api_options \<Rightarrow> 'w pstate \<Rightarrow> 'w server \<times> 'w sstate" where
  "api_New conc opts s =
     (\<lparr>sv_prober = ao_Prober opts, sv_concurrent = conc,
       sv_addr = default_string (ao_Addr opts) DefaultHTTPAddr,
       sv_trustForwardedFor = ao_TrustForwardedFor opts,
       sv_tlsCert = ao_TLSCert opts, sv_tlsKey = ao_TLSKey opts,
       sv_networkPassphrase = default_string (ao_NetworkPassphrase opts) DefaultNetworkPassphrase,
       sv_readinessTTL = (if ao_ReadinessCacheTTL opts \<le>s 0 then 5 * second else ao_ReadinessCacheTTL opts),
       sv_corsOrigins = ao_CORSOrigins opts, sv_apiToken = ao_APIToken opts\<rparr>,
      \<lparr>ss_probe = s,
       ss_limiter = new_limiter (default_u32 (ao_RateLimitPerMinute opts) DefaultRateLimitPerMinute)
         (default_u32 (ao_RateLimitBurst opts) DefaultRateLimitBurst),
       ss_ready = None\<rparr>)"

text \<open>\<^verbatim>\<open>ListenAndServe\<close> refuses half a TLS pair before it binds; \<open>load\<close> is \<^verbatim>\<open>tls.LoadX509KeyPair\<close>.\<close>

datatype listen_error = ListenTLSPair | ListenLoadTLS string

definition listen_check ::
    "(string \<Rightarrow> string \<Rightarrow> string option) \<Rightarrow> 'w server \<Rightarrow> listen_error option" where
  "listen_check load sv =
     (if (sv_tlsCert sv = []) \<noteq> (sv_tlsKey sv = []) then Some ListenTLSPair
      else if sv_tlsCert sv \<noteq> [] then map_option ListenLoadTLS (load (sv_tlsCert sv) (sv_tlsKey sv))
      else None)"

text \<open>The error of a server operation is a panic, with the response headers set before it.\<close>

type_synonym headers = "(string \<times> string) list"

type_synonym ('w, 'a) sop = "('w sstate, headers, 'a) op"

text \<open>A probe run by a handler: its error is a value, a panic goes through.\<close>

definition on_probe :: "headers \<Rightarrow> ('w, 'a) pop \<Rightarrow> ('w, (error, 'a) result) sop" where
  "on_probe hs m = (\<lambda>s. case m (ss_probe s) of (r, t) \<Rightarrow>
     (if r = Inl NilDereference then Inl hs else Inr r, s\<lparr>ss_probe := t\<rparr>))"

definition server_now :: "'w server \<Rightarrow> ('w, instant) sop" where
  "server_now sv = (\<lambda>s. case Now (p_client (sv_prober sv)) (world (ss_probe s)) of
     (t, w) \<Rightarrow> (Inr t, s\<lparr>ss_probe := (ss_probe s)\<lparr>world := w\<rparr>\<rparr>))"

text \<open>\<^verbatim>\<open>CheckBatch\<close>: the guards, then one of the two ways to run the batch.\<close>

definition CheckBatch ::
    "'w prober \<Rightarrow> (batch_request \<Rightarrow> ('w, batch_result) pop) \<Rightarrow> batch_request \<Rightarrow> ('w, batch_result) pop" where
  "CheckBatch P conc req =
     (case batch_mode req of
        Inl e \<Rightarrow> ethrow (InvalidBatch e)
      | Inr Concurrent \<Rightarrow> conc req
      | Inr Prefetched \<Rightarrow> checkBatchPrefetched P (bq_Checks req))"

section \<open>Writing responses\<close>

definition set_header :: "string \<Rightarrow> string \<Rightarrow> headers \<Rightarrow> headers" where
  "set_header k v hs = AList.update k v hs"

definition api_writeJSON :: "headers \<Rightarrow> nat \<Rightarrow> body \<Rightarrow> response" where
  "api_writeJSON hs status v = \<lparr>re_Status = status,
     re_Headers = set_header ''Content-Type'' ''application/json; charset=utf-8'' hs, re_Body = v\<rparr>"

definition writeError :: "headers \<Rightarrow> nat \<Rightarrow> api_error \<Rightarrow> response" where
  "writeError hs status e = api_writeJSON hs status (BodyError e)"

text \<open>
  \<^verbatim>\<open>statusForError\<close>: by the error it wraps, else by what its text contains.
\<close>

definition wraps_bad_request :: "error \<Rightarrow> bool" where
  "wraps_bad_request e =
     (case e of
        AbiError (NoSuchFunction _ _) \<Rightarrow> True
      | AbiError (ArgumentCount _ _ _) \<Rightarrow> True
      | InvalidBatch _ \<Rightarrow> True
      | BaselineMismatch _ \<Rightarrow> True
      | _ \<Rightarrow> False)"

definition statusForError :: "api_env \<Rightarrow> error \<Rightarrow> nat" where
  "statusForError env e =
     (let msg = err_text env e in
      if wraps_bad_request e then 400
      else if contains msg ''invalid contract id'' \<or> contains msg ''argument '' \<or> contains msg ''arg '' \<or>
        contains msg ''function name is required'' then 400
      else 502)"

text \<open>The answer of a handler that ran a probe.\<close>

definition answer :: "api_env \<Rightarrow> headers \<Rightarrow> ('a \<Rightarrow> body) \<Rightarrow> (error, 'a) result \<Rightarrow> response" where
  "answer env hs f r =
     (case r of
        Inl e \<Rightarrow> writeError hs (statusForError env e) (ProbeError e)
      | Inr result \<Rightarrow> api_writeJSON hs 200 (f result))"

section \<open>Handlers\<close>

definition maxBodyBytes :: nat where "maxBodyBytes = 65536"

definition maxAPIBatchChecks :: nat where "maxAPIBatchChecks = 20"

text \<open>\<^verbatim>\<open>http.MaxBytesReader\<close> fails a read past the limit; a body that fits is decoded as it is.\<close>

definition limited :: "(string \<Rightarrow> (string, 'a) result) \<Rightarrow> string \<Rightarrow> (string, 'a) result" where
  "limited dec b = (case dec (take maxBodyBytes b) of
      Inr x \<Rightarrow> Inr x
    | Inl e \<Rightarrow> if maxBodyBytes < length b then Inl ''http: request body too large'' else Inl e)"

definition handleLiveness :: "headers \<Rightarrow> ('w, response) sop" where
  "handleLiveness hs = eret (api_writeJSON hs 200 (BodyStatus ''ok''))"

definition handleOpenAPI :: "headers \<Rightarrow> ('w, response) sop" where
  "handleOpenAPI hs = eret \<lparr>re_Status = 200,
     re_Headers = set_header ''Content-Type'' ''application/json; charset=utf-8'' hs, re_Body = BodyOpenAPI\<rparr>"

text \<open>\<^verbatim>\<open>cachedReadiness\<close>: the last answer, when there is one that is fresh.\<close>

definition cachedReadiness :: "'w server \<Rightarrow> ('w, error option option) sop" where
  "cachedReadiness sv =
     ebind (eget ss_ready) (\<lambda>ready.
     case ready of
       None \<Rightarrow> eret None
     | Some (readyAt, readyErr) \<Rightarrow>
         ebind (server_now sv) (\<lambda>t.
         eret (if sv_readinessTTL sv \<le>s time_sub t readyAt then None else Some readyErr)))"

definition writeReadiness :: "headers \<Rightarrow> error option \<Rightarrow> response" where
  "writeReadiness hs e =
     (case e of
        None \<Rightarrow> api_writeJSON hs 200 (BodyStatus ''ready'')
      | Some e \<Rightarrow> api_writeJSON hs 503 (BodyUnready e))"

definition handleReadiness :: "'w server \<Rightarrow> headers \<Rightarrow> ('w, response) sop" where
  "handleReadiness sv hs0 =
     (let hs = set_header ''Cache-Control'' ''no-store'' hs0 in
      ebind (cachedReadiness sv) (\<lambda>cached.
      case cached of
        Some e \<Rightarrow> eret (writeReadiness hs e)
      | None \<Rightarrow>
          ebind (on_probe hs (Ready (p_client (sv_prober sv)) (sv_networkPassphrase sv))) (\<lambda>r.
          let e = (case r of Inl e \<Rightarrow> Some e | Inr _ \<Rightarrow> None) in
          ebind (server_now sv) (\<lambda>t.
          ebind (emodify (ss_ready_update (\<lambda>_. Some (t, e)))) (\<lambda>_.
          eret (writeReadiness hs e))))))"

definition handleChecks :: "api_env \<Rightarrow> 'w server \<Rightarrow> http_request \<Rightarrow> headers \<Rightarrow> ('w, response) sop" where
  "handleChecks env sv rq hs =
     (case limited (dec_checks env) (hq_Body rq) of
        Inl e \<Rightarrow> eret (writeError hs 400 (InvalidBody e))
      | Inr checks \<Rightarrow>
          if maxAPIBatchChecks < length checks
          then eret (writeError hs 400 (TooManyAPIChecks (length checks)))
          else ebind (on_probe hs (CheckBatch (sv_prober sv) (sv_concurrent sv)
                 \<lparr>bq_Checks = checks, bq_Concurrency = 0\<rparr>)) (\<lambda>r. eret (answer env hs BodyBatch r)))"

definition handleSimulate :: "api_env \<Rightarrow> 'w server \<Rightarrow> http_request \<Rightarrow> headers \<Rightarrow> ('w, response) sop" where
  "handleSimulate env sv rq hs =
     (case limited (dec_simulate env) (hq_Body rq) of
        Inl e \<Rightarrow> eret (writeError hs 400 (InvalidBody e))
      | Inr b \<Rightarrow>
          if sb_ContractID b = [] \<or> sb_Function b = [] then eret (writeError hs 400 FieldsRequired)
          else ebind (on_probe hs (Simulate (sv_prober sv)
                 \<lparr>sq_ContractID = sb_ContractID b, sq_Function = sb_Function b, sq_Args = sb_Args b,
                  sq_Baseline = sb_Baseline b, sq_MaxIncreasePercent = sb_MaxIncreasePercent b,
                  sq_Repeat = 0, sq_MaxSpreadPercent = None\<rparr>)) (\<lambda>r. eret (answer env hs BodySimulate r)))"

text \<open>\<^verbatim>\<open>url.Values.Get\<close>: the first value of a key.\<close>

definition query_get :: "http_request \<Rightarrow> string \<Rightarrow> string" where
  "query_get rq key = (case hq_Query rq key of [] \<Rightarrow> [] | v # _ \<Rightarrow> v)"

definition durabilityParam :: "http_request \<Rightarrow> (api_error, durability) result" where
  "durabilityParam rq =
     (let d = to_lower (query_get rq ''durability'') in
      if d = [] \<or> d = ''persistent'' then Inr DurabilityPersistent
      else if d = ''temporary'' \<or> d = ''temp'' then Inr DurabilityTemporary
      else Inl (UnknownDurabilityParam (query_get rq ''durability'')))"

definition estimateExtendParam :: "http_request \<Rightarrow> (api_error, u32) result" where
  "estimateExtendParam rq =
     (let raw = query_get rq ''estimate_extend'' in
      if raw = [] then Inr 0
      else case parse_uint 32 raw of None \<Rightarrow> Inl (BadEstimateExtend raw) | Some n \<Rightarrow> Inr (of_nat n))"

definition handleInspect ::
    "api_env \<Rightarrow> 'w server \<Rightarrow> string \<Rightarrow> http_request \<Rightarrow> headers \<Rightarrow> ('w, response) sop" where
  "handleInspect env sv contract rq hs =
     (case rbind (durabilityParam rq) (\<lambda>d. rbind (estimateExtendParam rq) (\<lambda>n. Inr (d, n))) of
        Inl e \<Rightarrow> eret (writeError hs 400 e)
      | Inr (d, n) \<Rightarrow>
          ebind (on_probe hs (Inspect (sv_prober sv)
            \<lparr>rq_ContractID = contract, rq_DataKeys = hq_Query rq ''key'', rq_DataDurability = d,
             rq_EstimateExtend = n\<rparr>)) (\<lambda>r. eret (answer env hs BodyInspect r)))"

definition handleCheck ::
    "api_env \<Rightarrow> 'w server \<Rightarrow> string \<Rightarrow> http_request \<Rightarrow> headers \<Rightarrow> ('w, response) sop" where
  "handleCheck env sv contract rq hs =
     (case durabilityParam rq of
        Inl e \<Rightarrow> eret (writeError hs 400 e)
      | Inr d \<Rightarrow>
          ebind (on_probe hs (Check (sv_prober sv)
            \<lparr>ch_ContractID = contract, ch_Function = query_get rq ''fn'', ch_Args = hq_Query rq ''arg'',
             ch_Expect = query_get rq ''expect'', ch_DataKeys = hq_Query rq ''key'',
             ch_DataDurability = d\<rparr>)) (\<lambda>r. eret (answer env hs BodyCheck r)))"

section \<open>Authorization\<close>

definition bearerToken :: "http_request \<Rightarrow> string option" where
  "bearerToken rq =
     (let header = hq_Header rq ''Authorization''; prefix = ''Bearer '' in
      if length header \<le> length prefix \<or> \<not> equal_fold (take (length prefix) header) prefix then None
      else let token = trim_space (drop (length prefix) header) in
        if token = [] then None else Some token)"

definition unauthorized :: "headers \<Rightarrow> api_error \<Rightarrow> response" where
  "unauthorized hs e = api_writeJSON
     (set_header ''WWW-Authenticate'' (''Bearer realm='' @ [CHR 0x22] @ ''soroprobe'' @ [CHR 0x22]) hs)
     401 (BodyError e)"

type_synonym 'w handler = "http_request \<Rightarrow> headers \<Rightarrow> ('w, response) sop"

definition requireToken :: "string \<Rightarrow> 'w handler \<Rightarrow> 'w handler" where
  "requireToken expected next rq hs =
     (case bearerToken rq of
        None \<Rightarrow> eret (unauthorized hs MissingBearerToken)
      | Some presented \<Rightarrow>
          if presented \<noteq> expected then eret (unauthorized hs InvalidBearerToken)
          else next rq hs)"

section \<open>Middleware\<close>

definition nosniff :: "'w handler \<Rightarrow> 'w handler" where
  "nosniff next rq hs = next rq (set_header ''X-Content-Type-Options'' ''nosniff'' hs)"

definition noStore :: "'w handler \<Rightarrow> 'w handler" where
  "noStore next rq hs = next rq (set_header ''Cache-Control'' ''no-store'' hs)"

definition cors :: "string list \<Rightarrow> 'w handler \<Rightarrow> 'w handler" where
  "cors origins next rq hs =
     (let origin = hq_Header rq ''Origin''; ok = (origin \<in> set origins);
          hs1 = hs @ [(''Vary'', ''Origin'')];
          hs2 = (if ok then set_header ''Access-Control-Allow-Origin'' origin hs1 else hs1)
      in if hq_Method rq = ''OPTIONS'' \<and> hq_Header rq ''Access-Control-Request-Method'' \<noteq> [] then
           (if \<not> ok then eret \<lparr>re_Status = 403, re_Headers = hs2, re_Body = NoBody\<rparr>
            else eret \<lparr>re_Status = 204,
              re_Headers = set_header ''Access-Control-Allow-Headers'' ''Authorization, Content-Type''
                (set_header ''Access-Control-Allow-Methods'' ''GET, POST, OPTIONS'' hs2),
              re_Body = NoBody\<rparr>)
         else next rq hs2)"

definition clientAddress :: "'w server \<Rightarrow> http_request \<Rightarrow> string" where
  "clientAddress sv rq =
     (let forwarded = trim_space (hd (split_on (CHR '','') (hq_Header rq ''X-Forwarded-For''))) in
      if sv_trustForwardedFor sv \<and> valid_ip forwarded then forwarded
      else case SplitHostPort (hq_RemoteAddr rq) of
          Some (host, _) \<Rightarrow> host
        | None \<Rightarrow> hq_RemoteAddr rq)"

text \<open>What a request costs: the number of checks of a batch, one otherwise.\<close>

definition request_weight :: "api_env \<Rightarrow> http_request \<Rightarrow> nat" where
  "request_weight env rq =
     (if hq_Method rq = ''POST'' \<and> hq_Path rq = ''/v1/checks'' then
        let b = take (maxBodyBytes + 1) (hq_Body rq) in
        if length b \<le> maxBodyBytes then
          (case dec_count env b of
             None \<Rightarrow> 1
           | Some n \<Rightarrow> if 1 < n \<and> n \<le> maxAPIBatchChecks then n else 1)
        else 1
      else 1)"

text \<open>Taking the tokens at the time the request arrived; the seconds to wait, zero to go on.\<close>

definition take_tokens :: "string \<Rightarrow> nat \<Rightarrow> instant \<Rightarrow> ('w, int) sop" where
  "take_tokens client cost t = (\<lambda>s. case takeTokens client (Fin (of_nat cost)) t (ss_limiter s) of
     (wait, lm) \<Rightarrow> (Inr wait, s\<lparr>ss_limiter := lm\<rparr>))"

definition rateLimit :: "api_env \<Rightarrow> 'w server \<Rightarrow> 'w handler \<Rightarrow> 'w handler" where
  "rateLimit env sv next rq hs =
     (if \<not> prefix ''/v1/'' (hq_Path rq) then next rq hs
      else
        ebind (server_now sv) (\<lambda>t.
        ebind (take_tokens (clientAddress sv rq) (request_weight env rq) t) (\<lambda>retryAfter.
        if 0 < retryAfter
        then eret (writeError (set_header ''Retry-After'' (itoa retryAfter) hs) 429 RateLimitExceeded)
        else next rq hs)))"

section \<open>Routes\<close>

definition handle_v1 :: "api_env \<Rightarrow> 'w server \<Rightarrow> v1_route \<Rightarrow> 'w handler" where
  "handle_v1 env sv r rq hs =
     (case r of
        Simulate_Route \<Rightarrow> handleSimulate env sv rq hs
      | Inspect_Route contract \<Rightarrow> handleInspect env sv contract rq hs
      | Check_Route contract \<Rightarrow> handleCheck env sv contract rq hs
      | Checks_Route \<Rightarrow> handleChecks env sv rq hs
      | V1_Unrouted status \<Rightarrow> eret \<lparr>re_Status = status, re_Headers = hs, re_Body = NoBody\<rparr>)"

definition v1 :: "api_env \<Rightarrow> 'w server \<Rightarrow> v1_route \<Rightarrow> 'w handler" where
  "v1 env sv r =
     (if sv_apiToken sv \<noteq> [] then requireToken (sv_apiToken sv) (noStore (handle_v1 env sv r))
      else noStore (handle_v1 env sv r))"

definition dispatch :: "api_env \<Rightarrow> 'w server \<Rightarrow> 'w handler" where
  "dispatch env sv rq hs =
     (case mux env (hq_Method rq) (hq_Path rq) of
        Healthz \<Rightarrow> handleLiveness hs
      | OpenAPI \<Rightarrow> handleOpenAPI hs
      | Readyz \<Rightarrow> handleReadiness sv hs
      | V1 r \<Rightarrow> v1 env sv r rq hs
      | Unrouted status \<Rightarrow> eret \<lparr>re_Status = status, re_Headers = hs, re_Body = NoBody\<rparr>)"

definition with_cors :: "'w server \<Rightarrow> 'w handler \<Rightarrow> 'w handler" where
  "with_cors sv next = (if sv_corsOrigins sv \<noteq> [] then cors (sv_corsOrigins sv) next else next)"

definition routed :: "api_env \<Rightarrow> 'w server \<Rightarrow> 'w handler" where
  "routed env sv = nosniff (rateLimit env sv (with_cors sv (dispatch env sv)))"

definition panicked :: "(string \<times> string) list \<Rightarrow> response" where
  "panicked hs = \<lparr>re_Status = 500, re_Headers = hs, re_Body = NoBody\<rparr>"

text \<open>The whole server: a panic becomes a 500, with the headers that were set before it.\<close>

definition serve :: "api_env \<Rightarrow> 'w server \<Rightarrow> http_request \<Rightarrow> 'w sstate \<Rightarrow> response \<times> 'w sstate" where
  "serve env sv rq s =
     (case routed env sv rq [] s of
        (Inl hs, t) \<Rightarrow> (panicked hs, t)
      | (Inr r, t) \<Rightarrow> (r, t))"

section \<open>What the middleware lets through\<close>

text \<open>The router only takes a path for a \<^verbatim>\<open>/v1\<close> route when it starts with \<^verbatim>\<open>/v1/\<close>.\<close>

definition mux_ok :: "api_env \<Rightarrow> bool" where
  "mux_ok env \<longleftrightarrow> (\<forall>m p r. mux env m p = V1 r \<longrightarrow> prefix ''/v1/'' p)"

definition authorized :: "'w server \<Rightarrow> http_request \<Rightarrow> bool" where
  "authorized sv rq \<longleftrightarrow> sv_apiToken sv = [] \<or> bearerToken rq = Some (sv_apiToken sv)"

text \<open>An invariant of the world that telling the time keeps.\<close>

definition clock_keeps :: "('w \<Rightarrow> bool) \<Rightarrow> 'w server \<Rightarrow> bool" where
  "clock_keeps I sv \<longleftrightarrow> call_keeps I (Now (p_client (sv_prober sv)))"

lemma keeps_server_now [keeps_rules]:
  "clock_keeps I sv \<Longrightarrow> keeps (\<lambda>s. I (world (ss_probe s))) (server_now sv)"
  by (auto simp: keeps_def server_now_def clock_keeps_def call_keeps_def split: prod.splits)

lemma keeps_take_tokens [keeps_rules]: "keeps (\<lambda>s. I (ss_probe s)) (take_tokens client cost t)"
  by (auto simp: keeps_def take_tokens_def split: prod.splits)

text \<open>Who may not see a report: the properties of the answers an unauthorized request can get.\<close>

definition no_report :: "response \<Rightarrow> bool" where
  "no_report r \<longleftrightarrow> re_Status r \<in> {204, 401, 403, 429} \<and>
     (case re_Body r of NoBody \<Rightarrow> True | BodyError e \<Rightarrow> (\<forall>p. e \<noteq> ProbeError p) | _ \<Rightarrow> False)"

definition answers :: "(response \<Rightarrow> bool) \<Rightarrow> ('w, response) sop \<Rightarrow> bool" where
  "answers Q m \<longleftrightarrow> (\<exists>r. Q r \<and> m = eret r)"

lemma answers_eret: "Q r \<Longrightarrow> answers Q (eret r)"
  by (auto simp: answers_def)

lemma v1_unauthorized: "\<not> authorized sv rq \<Longrightarrow> answers no_report (v1 env sv route rq hs)"
  by (auto simp: v1_def requireToken_def authorized_def no_report_def unauthorized_def api_writeJSON_def
      intro!: answers_eret split: option.split)

lemma cors_answers:
  "(\<And>hs. answers no_report (next rq hs)) \<Longrightarrow> answers no_report (with_cors sv next rq hs)"
  by (auto simp: with_cors_def cors_def Let_def no_report_def intro!: answers_eret)

text \<open>A rate limited request takes the time and its tokens; then it is refused or goes on.\<close>

lemma rateLimit_runs:
  assumes "prefix ''/v1/'' (hq_Path rq)"
  obtains w lm wait where
    "w = snd (Now (p_client (sv_prober sv)) (world (ss_probe s)))"
    "rateLimit env sv next rq hs s =
      (if 0 < wait
       then (Inr (writeError (set_header ''Retry-After'' (itoa wait) hs) 429 RateLimitExceeded),
             s\<lparr>ss_probe := (ss_probe s)\<lparr>world := w\<rparr>, ss_limiter := lm\<rparr>)
       else next rq hs (s\<lparr>ss_probe := (ss_probe s)\<lparr>world := w\<rparr>, ss_limiter := lm\<rparr>))"
proof -
  obtain t w where t: "Now (p_client (sv_prober sv)) (world (ss_probe s)) = (t, w)" by fastforce
  obtain wait lm where lm: "takeTokens (clientAddress sv rq) (Fin (of_nat (request_weight env rq))) t
      (ss_limiter s) = (wait, lm)" by fastforce
  show ?thesis
    by (rule that [of w wait lm])
      (simp_all add: rateLimit_def assms ebind_apply server_now_def take_tokens_def t lm)
qed

text \<open>
  C9. When an API token is configured, a request to a \<^verbatim>\<open>/v1\<close> route that does not present exactly
  this token gets an answer without any report (401, or what the rate limiter and CORS answer
  before), and no RPC call is made for it: apart from the clock and the limiter's table the state
  of the service is what it was.
\<close>

theorem unauthorized_gets_nothing:
  assumes route: "mux env (hq_Method rq) (hq_Path rq) = V1 route" "mux_ok env" "\<not> authorized sv rq"
    and I: "clock_keeps I sv" "I (world (ss_probe s))"
    and served: "serve env sv rq s = (r, t)"
  shows "no_report r \<and> I (world (ss_probe t)) \<and> ss_ready t = ss_ready s \<and>
    reportCache (ss_probe t) = reportCache (ss_probe s)"
proof -
  let ?hs = "set_header ''X-Content-Type-Options'' ''nosniff'' []"
  have p: "prefix ''/v1/'' (hq_Path rq)" using route by (auto simp: mux_ok_def)
  have "answers no_report (dispatch env sv rq hs)" for hs
    using v1_unauthorized [OF route(3)] route(1) by (simp add: dispatch_def)
  then have "answers no_report (with_cors sv (dispatch env sv) rq ?hs)" by (rule cors_answers)
  then obtain r' where r': "no_report r'" "with_cors sv (dispatch env sv) rq ?hs = eret r'"
    by (auto simp: answers_def)
  obtain w lm wait where run: "w = snd (Now (p_client (sv_prober sv)) (world (ss_probe s)))"
    "rateLimit env sv (with_cors sv (dispatch env sv)) rq ?hs s =
      (if 0 < wait
       then (Inr (writeError (set_header ''Retry-After'' (itoa wait) ?hs) 429 RateLimitExceeded),
             s\<lparr>ss_probe := (ss_probe s)\<lparr>world := w\<rparr>, ss_limiter := lm\<rparr>)
       else with_cors sv (dispatch env sv) rq ?hs (s\<lparr>ss_probe := (ss_probe s)\<lparr>world := w\<rparr>, ss_limiter := lm\<rparr>))"
    by (rule rateLimit_runs [OF p])
  have "I w" using I run(1) by (simp add: clock_keeps_def call_keeps_def)
  moreover have "no_report r \<and> t = s\<lparr>ss_probe := (ss_probe s)\<lparr>world := w\<rparr>, ss_limiter := lm\<rparr>"
    using served r' run(2)
    by (auto simp: serve_def routed_def nosniff_def no_report_def writeError_def api_writeJSON_def split: if_splits)
  ultimately show ?thesis by simp
qed

section \<open>The limiter inside the service\<close>

lemma weight_ok: "cost_ok (request_weight env rq)"
  by (simp add: request_weight_def cost_ok_def Let_def maxAPIBatchChecks_def split: option.split)

lemma keeps_limiter [keeps_rules]:
  "keeps (\<lambda>s. J (ss_limiter s)) (on_probe hs m)" "keeps (\<lambda>s. J (ss_limiter s)) (server_now sv)"
  by (auto simp: keeps_def on_probe_def server_now_def split: prod.split)

lemma keeps_ready_write [keeps_rules]: "keeps (\<lambda>s. J (ss_limiter s)) (emodify (ss_ready_update f))"
  by (rule keeps_emodify) simp

text \<open>Nothing behind the limiter touches its table.\<close>

lemma handlers_keep_limiter: "keeps (\<lambda>s. J (ss_limiter s)) (dispatch env sv rq hs)"
proof -
  have v1: "keeps (\<lambda>s. J (ss_limiter s)) (handle_v1 env sv r rq hs)" for r hs
    unfolding handle_v1_def handleSimulate_def handleInspect_def handleCheck_def handleChecks_def
    by (cases r) (auto intro!: keeps_rules simp: split: sum.split)
  show ?thesis
    unfolding dispatch_def v1_def requireToken_def noStore_def handleLiveness_def handleOpenAPI_def
      handleReadiness_def cachedReadiness_def Let_def
    by (auto intro!: keeps_rules v1 split: route.split option.split)
qed

lemma cors_keeps_limiter: "keeps (\<lambda>s. J (ss_limiter s)) (with_cors sv (dispatch env sv) rq hs)"
  unfolding with_cors_def cors_def Let_def by (auto intro!: keeps_rules handlers_keep_limiter)

lemma serve_limiter:
  assumes inv: "limiter_inv burst t (ss_limiter s)"
    and now: "Now (p_client (sv_prober sv)) (world (ss_probe s)) = (t', w)" "t \<le> t'"
  shows "limiter_inv burst t' (ss_limiter (snd (serve env sv rq s)))"
proof -
  let ?hs = "set_header ''X-Content-Type-Options'' ''nosniff'' []"
  let ?next = "with_cors sv (dispatch env sv)"
  have same: "limiter_inv burst t' (ss_limiter (snd (?next rq ?hs u)))"
    if "limiter_inv burst t' (ss_limiter u)" for u
    using cors_keeps_limiter [of "limiter_inv burst t'" sv env rq ?hs] that by (simp add: keeps_def)
  have later: "limiter_inv burst t' (ss_limiter s)"
    using inv now(2) by (auto simp: limiter_inv_table intro: table_ok_mono)
  have "limiter_inv burst t' (ss_limiter (snd (routed env sv rq [] s)))"
  proof (cases "prefix ''/v1/'' (hq_Path rq)")
    case False
    then show ?thesis using same [OF later] by (simp add: routed_def nosniff_def rateLimit_def)
  next
    case True
    obtain wait lm where lm: "takeTokens (clientAddress sv rq) (Fin (of_nat (request_weight env rq))) t'
        (ss_limiter s) = (wait, lm)" by fastforce
    have "limiter_inv burst t' lm" using takeTokens_inv [OF inv now(2) weight_ok] lm by (metis snd_conv)
    then show ?thesis
      using same True
      by (simp add: routed_def nosniff_def rateLimit_def ebind_apply server_now_def take_tokens_def now(1) lm)
  qed
  then show ?thesis by (auto simp: serve_def split: prod.split sum.split)
qed

text \<open>The states a service reaches, with the time of its last request.\<close>

inductive service :: "api_env \<Rightarrow> 'w server \<Rightarrow> 'w sstate \<Rightarrow> instant \<Rightarrow> 'w sstate \<Rightarrow> bool"
  for env sv s0 where
  service_start: "service env sv s0 t s0"
| service_step: "service env sv s0 t s \<Longrightarrow>
    Now (p_client (sv_prober sv)) (world (ss_probe s)) = (t', w) \<Longrightarrow> t \<le> t' \<Longrightarrow>
    service env sv s0 t' (snd (serve env sv rq s))"

lemma default_u32_pos: "d \<noteq> 0 \<Longrightarrow> 0 < default_u32 v d"
  by (simp add: default_u32_def word_gt_0)

text \<open>
  C13. In every state a server built by \<^verbatim>\<open>New\<close> reaches by serving requests of any kind, whatever its
  options, the rate limiter is sound: at most ten thousand clients, each once, and buckets whose
  tokens are finite, non-negative and within a capacity no smaller than the configured burst; no
  rounding of the floating point arithmetic breaks this. Only the clock is assumed not to go back.
\<close>

theorem service_limiter_sound:
  assumes "api_New conc opts p = (sv, s0)" and "service env sv s0 t s"
  shows "limiter_inv (unat (default_u32 (ao_RateLimitBurst opts) DefaultRateLimitBurst)) t (ss_limiter s)"
  using assms(2)
proof induction
  case (service_start t)
  have "ss_limiter s0 = new_limiter (default_u32 (ao_RateLimitPerMinute opts) DefaultRateLimitPerMinute)
      (default_u32 (ao_RateLimitBurst opts) DefaultRateLimitBurst)"
    using assms(1) by (auto simp: api_New_def)
  then show ?case
    by (simp add: new_limiter_inv default_u32_pos DefaultRateLimitPerMinute_def)
next
  case (service_step t s t' w rq)
  show ?case by (rule serve_limiter [OF service_step.IH service_step.hyps(2,3)])
qed

section \<open>Headers\<close>

text \<open>\<open>emits Q m\<close>: whatever \<open>m\<close> answers, a panic included, satisfies \<open>Q\<close>.\<close>

definition emits :: "(response \<Rightarrow> bool) \<Rightarrow> ('w, response) sop \<Rightarrow> bool" where
  "emits Q m \<longleftrightarrow> (\<forall>s. case fst (m s) of Inl hs \<Rightarrow> Q (panicked hs) | Inr r \<Rightarrow> Q r)"

text \<open>\<open>safe Q m\<close>: if \<open>m\<close> panics, the answer it leaves satisfies \<open>Q\<close>.\<close>

definition safe :: "(response \<Rightarrow> bool) \<Rightarrow> ('w, 'a) sop \<Rightarrow> bool" where
  "safe Q m \<longleftrightarrow> (\<forall>s hs t. m s = (Inl hs, t) \<longrightarrow> Q (panicked hs))"

named_theorems emits_rules \<open>answers of composed operations\<close>

lemma safe_basic [emits_rules]:
  "safe Q (eret x)" "safe Q (eget f)" "safe Q (emodify g)" "safe Q (server_now sv)"
  "safe Q (take_tokens client cost t)"
  by (auto simp: safe_def server_now_def take_tokens_def split: prod.splits)

lemma safe_on_probe [emits_rules]: "Q (panicked hs) \<Longrightarrow> safe Q (on_probe hs m)"
  by (auto simp: safe_def on_probe_def split: prod.splits if_splits)

lemma safe_ebind [emits_rules]: "safe Q m \<Longrightarrow> (\<And>x. safe Q (f x)) \<Longrightarrow> safe Q (ebind m f)"
  unfolding safe_def ebind_eq_Inl by blast

lemma safe_case_option [emits_rules]:
  "safe Q m \<Longrightarrow> (\<And>x. safe Q (f x)) \<Longrightarrow> safe Q (case v of None \<Rightarrow> m | Some x \<Rightarrow> f x)"
  by (cases v) auto

lemma emits_eret [emits_rules]: "Q r \<Longrightarrow> emits Q (eret r)"
  by (simp add: emits_def)

lemma emits_ebind [emits_rules]:
  assumes "safe Q m" "\<And>x. emits Q (f x)"
  shows "emits Q (ebind m f)"
  unfolding emits_def
proof
  fix s
  show "case fst (ebind m f s) of Inl hs \<Rightarrow> Q (panicked hs) | Inr r \<Rightarrow> Q r"
  proof (cases "m s")
    case (Pair r t)
    then show ?thesis
      using assms(1) assms(2) [unfolded emits_def, rule_format, of "projr r" t]
      by (cases r) (auto simp: ebind_apply safe_def)
  qed
qed

lemma emits_case_option [emits_rules]:
  "emits Q m \<Longrightarrow> (\<And>x. emits Q (f x)) \<Longrightarrow> emits Q (case v of None \<Rightarrow> m | Some x \<Rightarrow> f x)"
  by (cases v) auto

lemma emits_case_sum [emits_rules]:
  "(\<And>e. emits Q (g e)) \<Longrightarrow> (\<And>x. emits Q (f x)) \<Longrightarrow> emits Q (case v of Inl e \<Rightarrow> g e | Inr x \<Rightarrow> f x)"
  by (cases v) auto

lemma emits_case_prod [emits_rules]: "(\<And>a b. emits Q (f a b)) \<Longrightarrow> emits Q (case v of (a, b) \<Rightarrow> f a b)"
  by (cases v) auto

lemma emits_if [emits_rules]: "emits Q m \<Longrightarrow> emits Q n \<Longrightarrow> emits Q (if b then m else n)"
  by simp

text \<open>A header that is set stays set: no later one has its name.\<close>

definition carries :: "string \<Rightarrow> string \<Rightarrow> headers \<Rightarrow> bool" where
  "carries k v hs \<longleftrightarrow> map_of hs k = Some v"

definition kept_names :: "string list" where
  "kept_names = [''X-Content-Type-Options'', ''Cache-Control'']"

lemma carries_set [simp]: "carries k v (set_header k v hs)"
  by (simp add: carries_def set_header_def update_conv')

lemma carries_set_other [simp]: "k' \<noteq> k \<Longrightarrow> carries k v (set_header k' v' hs) = carries k v hs"
  by (simp add: carries_def set_header_def update_conv')

lemma carries_append [simp]: "carries k v hs \<Longrightarrow> carries k v (hs @ hs')"
  by (simp add: carries_def map_add_Some_iff)

lemma carries_same: "carries k v hs \<Longrightarrow> carries k v (set_header k v hs)"
  by simp

lemma writers_carry:
  assumes "k \<in> set kept_names" "carries k v hs"
  shows "carries k v (re_Headers (api_writeJSON hs st b))" "carries k v (re_Headers (writeError hs st e))"
    "carries k v (re_Headers (unauthorized hs e))" "carries k v (re_Headers (answer env hs f r))"
    "carries k v (re_Headers (writeReadiness hs err))"
proof -
  have k: "''Content-Type'' \<noteq> k" "''WWW-Authenticate'' \<noteq> k" using assms(1) by (auto simp: kept_names_def)
  have j: "carries k v (re_Headers (api_writeJSON hs st b))" for st b
    using assms(2) k(1) by (simp add: api_writeJSON_def)
  then show "carries k v (re_Headers (api_writeJSON hs st b))" "carries k v (re_Headers (writeError hs st e))"
    "carries k v (re_Headers (answer env hs f r))" "carries k v (re_Headers (writeReadiness hs err))"
    by (simp_all add: writeError_def answer_def writeReadiness_def split: sum.split option.split)
  show "carries k v (re_Headers (unauthorized hs e))"
    using assms(2) k by (simp add: unauthorized_def api_writeJSON_def)
qed

abbreviation has_header :: "string \<Rightarrow> string \<Rightarrow> response \<Rightarrow> bool" where
  "has_header k v r \<equiv> carries k v (re_Headers r)"

lemma panicked_headers [simp]: "re_Headers (panicked hs) = hs"
  by (simp add: panicked_def)

lemma v1_carries:
  assumes "k \<in> set kept_names" "carries k v hs"
  shows "emits (has_header k v) (handle_v1 env sv r rq hs)"
  unfolding handle_v1_def handleSimulate_def handleInspect_def handleCheck_def handleChecks_def
  by (cases r) (auto intro!: emits_rules writers_carry assms simp: assms(2))

lemma emits_mono: "emits P m \<Longrightarrow> (\<And>r. P r \<Longrightarrow> Q r) \<Longrightarrow> emits Q m"
  unfolding emits_def by (metis (no_types, lifting) sum.case_eq_if)

lemma dispatch_nosniff:
  assumes "carries ''X-Content-Type-Options'' v hs"
  shows "emits (has_header ''X-Content-Type-Options'' v) (dispatch env sv rq hs)"
proof -
  let ?k = "''X-Content-Type-Options''"
  have k: "?k \<in> set kept_names" by (simp add: kept_names_def)
  have nc: "carries ?k v (set_header ''Cache-Control'' c hs)" for c using assms by simp
  note j = writers_carry [OF k assms] and j' = writers_carry [OF k nc]
  have ct: "carries ?k v (set_header ''Content-Type'' c hs)" for c using assms by simp
  show ?thesis
    unfolding dispatch_def v1_def requireToken_def noStore_def handleLiveness_def handleOpenAPI_def
      handleReadiness_def cachedReadiness_def Let_def
    by (cases "mux env (hq_Method rq) (hq_Path rq)")
      (auto intro!: emits_rules j j' v1_carries k nc ct simp: assms)
qed

text \<open>Who answers before the handlers of \<^verbatim>\<open>/v1\<close> run.\<close>

definition refused :: "response \<Rightarrow> bool" where
  "refused r \<longleftrightarrow> re_Status r \<in> {204, 401, 403, 429}"

lemma dispatch_no_store:
  assumes "mux env (hq_Method rq) (hq_Path rq) = V1 route"
  shows "emits (\<lambda>r. refused r \<or> has_header ''Cache-Control'' ''no-store'' r) (dispatch env sv rq hs)"
proof -
  have "emits (has_header ''Cache-Control'' ''no-store'')
      (handle_v1 env sv route rq (set_header ''Cache-Control'' ''no-store'' hs))"
    by (rule v1_carries) (simp_all add: kept_names_def)
  then have "emits (\<lambda>r. refused r \<or> has_header ''Cache-Control'' ''no-store'' r)
      (handle_v1 env sv route rq (set_header ''Cache-Control'' ''no-store'' hs))"
    by (rule emits_mono) simp
  then show ?thesis
    using assms
    by (auto intro!: emits_rules simp: dispatch_def v1_def requireToken_def noStore_def refused_def
        unauthorized_def api_writeJSON_def)
qed

lemma front_emits:
  assumes cors_ok: "\<And>hs'. carries ''X-Content-Type-Options'' ''nosniff'' hs' \<Longrightarrow> emits Q (dispatch env sv rq hs')"
    and Q: "\<And>r. refused r \<Longrightarrow> carries ''X-Content-Type-Options'' ''nosniff'' (re_Headers r) \<Longrightarrow> Q r"
  shows "Q (fst (serve env sv rq s))"
proof -
  let ?hs = "set_header ''X-Content-Type-Options'' ''nosniff'' []"
  have "emits Q (with_cors sv (dispatch env sv) rq ?hs)"
    unfolding with_cors_def cors_def Let_def
    by (auto intro!: emits_rules cors_ok Q simp: refused_def)
  then have "emits Q (routed env sv rq [])"
    unfolding routed_def nosniff_def rateLimit_def
    by (auto intro!: emits_rules Q simp: refused_def writeError_def api_writeJSON_def)
  then have *: "case fst (routed env sv rq [] s) of Inl hs \<Rightarrow> Q (panicked hs) | Inr r \<Rightarrow> Q r"
    by (simp add: emits_def)
  obtain x t where x: "routed env sv rq [] s = (x, t)" by fastforce
  show ?thesis using * by (cases x) (simp_all add: serve_def x)
qed

text \<open>
  C17. Every answer of the API, of whatever route and status, forbids browsers to guess its type;
  and no cache may keep an answer of a \<^verbatim>\<open>/v1\<close> handler, including its errors and a panic: such an
  answer carries \<^verbatim>\<open>no-store\<close> unless the request was refused before it reached the handler.
\<close>

theorem answers_not_sniffed_or_stored:
  "has_header ''X-Content-Type-Options'' ''nosniff'' (fst (serve env sv rq s)) \<and>
   (case mux env (hq_Method rq) (hq_Path rq) of
      V1 _ \<Rightarrow> refused (fst (serve env sv rq s)) \<or>
        has_header ''Cache-Control'' ''no-store'' (fst (serve env sv rq s))
    | _ \<Rightarrow> True)"
proof
  show "has_header ''X-Content-Type-Options'' ''nosniff'' (fst (serve env sv rq s))"
    by (rule front_emits) (simp_all add: dispatch_nosniff)
  show "case mux env (hq_Method rq) (hq_Path rq) of
      V1 _ \<Rightarrow> refused (fst (serve env sv rq s)) \<or>
        has_header ''Cache-Control'' ''no-store'' (fst (serve env sv rq s))
    | _ \<Rightarrow> True"
  proof (cases "mux env (hq_Method rq) (hq_Path rq)")
    case (V1 route)
    have "refused (fst (serve env sv rq s)) \<or>
        has_header ''Cache-Control'' ''no-store'' (fst (serve env sv rq s))"
      by (rule front_emits) (simp_all add: dispatch_no_store [OF V1])
    then show ?thesis by (simp add: V1)
  qed simp_all
qed

section \<open>Readiness and rejected requests\<close>

text \<open>
  Until its time to live has passed, a readiness answer is repeated without asking the RPC
  endpoint again: a later \<^verbatim>\<open>/readyz\<close> gives the same answer, success or failure, and leaves the
  state as it was but for reading the clock. The answer is 200 exactly when the probe succeeded.
\<close>

theorem readiness_repeated:
  assumes first: "handleReadiness sv hs s = (Inr r, s1)" "ss_ready s1 = Some (asked, e)"
    and later: "ss_ready s2 = Some (asked, e)"
      "Now (p_client (sv_prober sv)) (world (ss_probe s2)) = (t, w)"
      "\<not> sv_readinessTTL sv \<le>s time_sub t asked"
  shows "handleReadiness sv hs s2 = (Inr r, s2\<lparr>ss_probe := (ss_probe s2)\<lparr>world := w\<rparr>\<rparr>) \<and>
    (re_Status r = 200 \<longleftrightarrow> e = None)"
proof -
  let ?hs = "set_header ''Cache-Control'' ''no-store'' hs"
  have "r = writeReadiness ?hs e"
    using first
    by (auto simp: handleReadiness_def cachedReadiness_def Let_def ebind_apply server_now_def on_probe_def
        split: option.splits prod.splits if_splits)
  moreover have "re_Status (writeReadiness ?hs e) = 200 \<longleftrightarrow> e = None"
    by (simp add: writeReadiness_def api_writeJSON_def split: option.split)
  moreover have "handleReadiness sv hs s2 = (Inr (writeReadiness ?hs e), s2\<lparr>ss_probe := (ss_probe s2)\<lparr>world := w\<rparr>\<rparr>)"
    using later by (simp add: handleReadiness_def cachedReadiness_def Let_def ebind_apply server_now_def)
  ultimately show ?thesis by simp
qed

text \<open>
  What makes a request bad before any probe: its body, its parameters or the size of its batch.
\<close>

definition bad_request :: "api_env \<Rightarrow> v1_route \<Rightarrow> http_request \<Rightarrow> bool" where
  "bad_request env r rq \<longleftrightarrow>
     (case r of
        Simulate_Route \<Rightarrow> (case limited (dec_simulate env) (hq_Body rq) of
            Inl _ \<Rightarrow> True | Inr b \<Rightarrow> sb_ContractID b = [] \<or> sb_Function b = [])
      | Checks_Route \<Rightarrow> (case limited (dec_checks env) (hq_Body rq) of
            Inl _ \<Rightarrow> True
          | Inr cs \<Rightarrow> maxAPIBatchChecks < length cs \<or> \<not> isOk (batch_mode \<lparr>bq_Checks = cs, bq_Concurrency = 0\<rparr>))
      | Inspect_Route _ \<Rightarrow> \<not> isOk (durabilityParam rq) \<or> \<not> isOk (estimateExtendParam rq)
      | Check_Route _ \<Rightarrow> \<not> isOk (durabilityParam rq)
      | V1_Unrouted _ \<Rightarrow> False)"

text \<open>
  C18. A request whose body cannot be decoded, lacks a required field, asks for more than twenty
  checks or an invalid batch, or names an unknown durability or a number of ledgers that is none,
  is answered 400 with the reason, and nothing is probed for it: the state is not touched.
\<close>

theorem bad_requests_rejected:
  assumes "bad_request env route rq"
  shows "\<exists>r e. handle_v1 env sv route rq hs s = (Inr r, s) \<and> re_Status r = 400 \<and> re_Body r = BodyError e"
proof (cases route)
  case Checks_Route
  then show ?thesis
    using assms
    by (auto simp: bad_request_def handle_v1_def handleChecks_def writeError_def api_writeJSON_def on_probe_def
        ebind_apply CheckBatch_def answer_def statusForError_def wraps_bad_request_def Let_def isOk_def
        split: sum.splits)
qed (use assms in \<open>auto simp: bad_request_def handle_v1_def handleSimulate_def handleInspect_def handleCheck_def
      writeError_def api_writeJSON_def rbind_def isOk_def split: sum.splits\<close>)

section \<open>What the model shows\<close>

text \<open>
  The limiter counts the checks of a batch with \<^verbatim>\<open>json.Unmarshal\<close>, which refuses a body with
  anything after the document, and the handler reads it with a \<^verbatim>\<open>Decoder\<close>, which does not look
  further: a batch followed by one more byte runs all its checks for the price of one.
\<close>

lemma trailing_data_costs_one:
  assumes "dec_count env (hq_Body rq) = None"
  shows "request_weight env rq = 1"
  using assms by (cases "length (hq_Body rq) \<le> maxBodyBytes") (simp_all add: request_weight_def Let_def)

lemma trim_right_ends: "w \<in> set ws_runes \<Longrightarrow> \<not> suffix w (trim_right s)"
proof (induction s rule: trim_right.induct)
  case (1 s)
  then show ?case
    by (subst trim_right.simps) (auto split: option.split simp: find_None_iff find_Some_iff)
qed

text \<open>
  A configured token that ends in white space, which \<^verbatim>\<open>Validate\<close> accepts, can never be
  presented: what is presented is trimmed, so every request is refused.
\<close>

lemma padded_token_locks_out: "bearerToken rq \<noteq> Some (token @ '' '')"
proof
  assume "bearerToken rq = Some (token @ '' '')"
  then have "suffix '' '' (trim_space (drop (length ''Bearer '') (hq_Header rq ''Authorization'')))"
    by (auto simp: bearerToken_def Let_def split: if_splits)
  moreover have "'' '' \<in> set ws_runes" by (simp add: ws_runes_def)
  ultimately show False unfolding trim_space_def using trim_right_ends by blast
qed

section \<open>Concrete requests\<close>

definition sample_api_env :: api_env where
  "sample_api_env =
     \<lparr>mux = (\<lambda>m p. if p = ''/readyz'' then Readyz
         else if prefix ''/v1/check/'' p then V1 (Check_Route (drop 10 p)) else Unrouted 404),
      dec_simulate = (\<lambda>_. Inl ''no''), dec_checks = (\<lambda>_. Inl ''no''), dec_count = (\<lambda>_. None),
      err_text = (\<lambda>_. [])\<rparr>"

definition busy_prober :: "nat prober" where
  "busy_prober = sample_prober (sample_client (\<lambda>_. \<lparr>er_Entries = [], er_LatestLedger = 1\<rparr>)
     (\<lambda>_. \<lparr>sr_Error = [], sr_TransactionDataXDR = [], sr_MinResourceFee = 0, sr_RestorePreamble = None,
        sr_Results = [], sr_EventsXDR = [], sr_LatestLedger = 1\<rparr>))"

definition sample_api_options :: "nat api_options" where
  "sample_api_options =
     \<lparr>ao_Prober = busy_prober, ao_Addr = [], ao_CORSOrigins = [], ao_APIToken = ''0123456789abcdef'',
      ao_NetworkPassphrase = ''net'', ao_ReadinessCacheTTL = 0, ao_RateLimitPerMinute = 0,
      ao_RateLimitBurst = 0, ao_TrustForwardedFor = False, ao_TLSCert = [], ao_TLSKey = []\<rparr>"

definition sample_server :: "nat server" where
  "sample_server = fst (api_New (\<lambda>_. ethrow EmptyBatch) sample_api_options sample_state)"

definition sample_sstate :: "nat sstate" where
  "sample_sstate = snd (api_New (\<lambda>_. ethrow EmptyBatch) sample_api_options sample_state)"

definition sample_get :: "string \<Rightarrow> http_request" where
  "sample_get path = \<lparr>hq_Method = ''GET'', hq_Path = path, hq_Header = (\<lambda>_. []), hq_Query = (\<lambda>_. []),
     hq_RemoteAddr = ''127.0.0.1:9'', hq_Body = []\<rparr>"

lemma sample_mux_ok: "mux_ok sample_api_env"
proof -
  have "prefix ''/v1/'' p" if "prefix ''/v1/check/'' p" for p
    using that by (rule prefix_order.trans [rotated]) simp
  then show ?thesis by (auto simp: mux_ok_def sample_api_env_def)
qed

theorem unauthorized_gets_nothing_witness:
  "no_report (fst (serve sample_api_env sample_server (sample_get ''/v1/check/C'') sample_sstate)) \<and>
   world (ss_probe (snd (serve sample_api_env sample_server (sample_get ''/v1/check/C'') sample_sstate))) = 0"
proof -
  have "mux sample_api_env (hq_Method (sample_get ''/v1/check/C'')) (hq_Path (sample_get ''/v1/check/C''))
      = V1 (Check_Route ''C'')"
    by (simp add: sample_api_env_def sample_get_def)
  moreover have "\<not> authorized sample_server (sample_get ''/v1/check/C'')"
    by (simp add: authorized_def sample_server_def api_New_def sample_api_options_def sample_get_def bearerToken_def Let_def)
  moreover have "clock_keeps (\<lambda>w. w = 0) sample_server"
    by (simp add: clock_keeps_def call_keeps_def sample_server_def api_New_def sample_api_options_def busy_prober_def
        sample_prober_def sample_client_def)
  moreover have "world (ss_probe sample_sstate) = 0"
    by (simp add: sample_sstate_def api_New_def sample_state_def)
  ultimately show ?thesis
    using unauthorized_gets_nothing [OF _ sample_mux_ok, where I = "\<lambda>w. w = 0", OF _ _ _ _ surjective_pairing] by blast
qed

theorem service_limiter_sound_witness:
  "limiter_inv 10 0 (ss_limiter (snd (serve sample_api_env sample_server (sample_get ''/v1/check/C'') sample_sstate)))"
proof -
  have "service sample_api_env sample_server sample_sstate 0
      (snd (serve sample_api_env sample_server (sample_get ''/v1/check/C'') sample_sstate))"
    by (rule service_step [OF service_start [of _ _ _ 0]])
      (simp_all add: sample_server_def sample_sstate_def api_New_def sample_api_options_def busy_prober_def
        sample_prober_def sample_client_def sample_state_def)
  moreover have "api_New (\<lambda>_. ethrow EmptyBatch) sample_api_options sample_state = (sample_server, sample_sstate)"
    by (simp add: sample_server_def sample_sstate_def)
  ultimately show ?thesis
    using service_limiter_sound by (fastforce simp: sample_api_options_def default_u32_def DefaultRateLimitBurst_def)
qed

theorem bad_requests_rejected_witness:
  "\<exists>r e. handle_v1 sample_api_env sample_server Simulate_Route (sample_get ''/v1/simulate'') [] sample_sstate
     = (Inr r, sample_sstate) \<and> re_Status r = 400 \<and> re_Body r = BodyError e"
  by (rule bad_requests_rejected) (simp add: bad_request_def sample_api_env_def limited_def)

theorem readiness_repeated_witness:
  "handleReadiness sample_server [] (snd (handleReadiness sample_server [] sample_sstate)) =
     (Inr \<lparr>re_Status = 200, re_Headers = [(''Cache-Control'', ''no-store''),
        (''Content-Type'', ''application/json; charset=utf-8'')], re_Body = BodyStatus ''ready''\<rparr>,
      snd (handleReadiness sample_server [] sample_sstate))"
proof -
  define s1 where "s1 = sample_sstate\<lparr>ss_probe := (ss_probe sample_sstate)\<lparr>world := 2\<rparr>, ss_ready := Some (2, None)\<rparr>"
  have first: "handleReadiness sample_server [] sample_sstate =
      (Inr \<lparr>re_Status = 200, re_Headers = [(''Cache-Control'', ''no-store''),
        (''Content-Type'', ''application/json; charset=utf-8'')], re_Body = BodyStatus ''ready''\<rparr>, s1)"
    by (simp add: s1_def sample_sstate_def sample_server_def api_New_def sample_api_options_def busy_prober_def
        sample_prober_def sample_client_def sample_state_def handleReadiness_def cachedReadiness_def Let_def
        ebind_apply etry_apply on_probe_def Ready_def rpc_def server_now_def writeReadiness_def api_writeJSON_def
        set_header_def default_string_def)
  have "ss_ready s1 = Some (2, None)" "Now (p_client (sv_prober sample_server)) (world (ss_probe s1)) = (2, 2)"
    "\<not> sv_readinessTTL sample_server \<le>s time_sub 2 2" "s1\<lparr>ss_probe := (ss_probe s1)\<lparr>world := 2\<rparr>\<rparr> = s1"
    by (simp_all add: s1_def sample_server_def api_New_def sample_api_options_def busy_prober_def
        sample_prober_def sample_client_def time_sub_def min_i64_def max_i64_def second_def word_sle_eq)
  then show ?thesis using readiness_repeated [OF first] unfolding first by simp
qed

end
