(* ===== verification/Abi_Sources.thy ===== *)
theory Abi_Sources
  imports Prober Wasm_Spec "HOL-Library.AList"
begin

text \<open>
  Where contract interfaces come from: the contract's own code, \<open>ChainSource\<close> of
  \<^verbatim>\<open>internal/abi/chain.go\<close> with its cache by code hash, and the SoroVault registry,
  \<^verbatim>\<open>internal/abi/sorovault.go\<close>; and the live RPC client, \<^verbatim>\<open>internal/stellar/client.go\<close>, a wrapper
  around the SDK's. The XDR reader of spec entries, the HTTP transport, \<^verbatim>\<open>url.Parse\<close> and the JSON
  decoding of SoroVault's answers are parameters.
\<close>

section \<open>The on-chain source\<close>

datatype chain_error =
    ChainStellar error
  | ChainRpc string
  | ChainUnknownContract
  | ChainNoWasm
  | ChainDecodeInstance
  | ChainNotContractData
  | ChainNoInstance
  | ChainNoWasmHash string
  | ChainCodeNotFound string
  | ChainDecodeCode
  | ChainNotCode
  | ChainWasm abi_error
  | ChainPanic

text \<open>
  The state a \<^verbatim>\<open>ChainSource\<close> adds to the world behind its client: the interfaces by code hash.
\<close>

type_synonym chain_cache = "(string \<times> abi_interface) list"

type_synonym ('w, 'a) chain_op = "('w \<times> chain_cache, chain_error, 'a) op"

definition NewChainSource :: chain_cache where "NewChainSource = []"

definition chain_rpc :: "('w, 'a) call \<Rightarrow> ('w, 'a) chain_op" where
  "chain_rpc c = (\<lambda>(w, cache). case c w of (r, w') \<Rightarrow> (rmap_err ChainRpc r, (w', cache)))"

text \<open>The code hash the instance entry of a contract names.\<close>

definition executable_hash :: "sdk_lib \<Rightarrow> ledger_entry \<Rightarrow> (chain_error, u8 list) result" where
  "executable_hash S entry =
     (case DecodeEntryData S (le_DataXDR entry) of
        Inl _ \<Rightarrow> Inl ChainDecodeInstance
      | Inr (EntryContractData (ScvContractInstance None)) \<Rightarrow> Inl ChainPanic
      | Inr (EntryContractData (ScvContractInstance (Some (ty, hash, _)))) \<Rightarrow>
          if ty = ''ContractExecutableTypeContractExecutableStellarAsset'' then Inl ChainNoWasm
          else if ty \<noteq> ''ContractExecutableTypeContractExecutableWasm'' then Inl (ChainNoWasmHash ty)
          else (case hash of None \<Rightarrow> Inl (ChainNoWasmHash ty) | Some h \<Rightarrow> Inr h)
      | Inr (EntryContractData _) \<Rightarrow> Inl ChainNoInstance
      | Inr _ \<Rightarrow> Inl ChainNotContractData)"

definition decode_code ::
    "(u8 list \<Rightarrow> (spec_entry \<times> u8 list) option) \<Rightarrow> sdk_lib \<Rightarrow> ledger_entry \<Rightarrow>
     (chain_error, abi_interface) result" where
  "decode_code un S entry =
     (case DecodeEntryData S (le_DataXDR entry) of
        Inl _ \<Rightarrow> Inl ChainDecodeCode
      | Inr (EntryContractCode wasm) \<Rightarrow>
          (case decodeContractWasm un wasm of
             None \<Rightarrow> Inl ChainPanic
           | Some (Inl (WasmError e)) \<Rightarrow> Inl (ChainWasm e)
           | Some (Inl IndexPanic) \<Rightarrow> Inl ChainPanic
           | Some (Inr iface) \<Rightarrow> Inr iface)
      | Inr _ \<Rightarrow> Inl ChainNotCode)"

text \<open>Reading and decoding the code of a hash, and remembering the interface.\<close>

definition remember :: "string \<Rightarrow> abi_interface \<Rightarrow> ('w, abi_interface) chain_op" where
  "remember hash iface = (\<lambda>(w, cache). case map_of cache hash of
     Some cached \<Rightarrow> (Inr cached, (w, cache))
   | None \<Rightarrow> (Inr iface, (w, AList.update hash iface cache)))"

definition read_code ::
    "(u8 list \<Rightarrow> (spec_entry \<times> u8 list) option) \<Rightarrow> sdk_lib \<Rightarrow> 'w client \<Rightarrow> u8 list \<Rightarrow>
     ('w, abi_interface) chain_op" where
  "read_code un S C h =
     ebind (elift (rmap_err ChainStellar (EncodeKey S (CodeKey h)))) (\<lambda>key.
     ebind (chain_rpc (GetLedgerEntries C [key])) (\<lambda>resp.
     case er_Entries resp of
       [] \<Rightarrow> ethrow (ChainCodeNotFound (hex_encode h))
     | entry # _ \<Rightarrow>
         ebind (elift (decode_code un S entry)) (\<lambda>iface. remember (hex_encode h) iface)))"

definition chain_Interface ::
    "(u8 list \<Rightarrow> (spec_entry \<times> u8 list) option) \<Rightarrow> sdk_lib \<Rightarrow> 'w client \<Rightarrow> string \<Rightarrow>
     ('w, abi_interface) chain_op" where
  "chain_Interface un S C contractID =
     ebind (elift (rmap_err ChainStellar (ParseContractID (strkeys S) contractID))) (\<lambda>contract.
     ebind (elift (rmap_err ChainStellar (EncodeKey S (InstanceKey contract)))) (\<lambda>key.
     ebind (chain_rpc (GetLedgerEntries C [key])) (\<lambda>resp.
     case er_Entries resp of
       [] \<Rightarrow> ethrow ChainUnknownContract
     | entry # _ \<Rightarrow>
         ebind (elift (executable_hash S entry)) (\<lambda>h.
         ebind (eget (\<lambda>(w, cache). map_of cache (hex_encode h))) (\<lambda>cached.
         case cached of
           Some iface \<Rightarrow> eret iface
         | None \<Rightarrow> read_code un S C h)))))"

text \<open>As the prober sees it: \<^verbatim>\<open>ErrUnknownContract\<close> and \<^verbatim>\<open>ErrNoWasm\<close>, or an error with a text.\<close>

definition source_error :: "(chain_error \<Rightarrow> string) \<Rightarrow> chain_error \<Rightarrow> abi_error" where
  "source_error text' e =
     (case e of ChainUnknownContract \<Rightarrow> UnknownContract | ChainNoWasm \<Rightarrow> NoWasm | _ \<Rightarrow> RegistryError (text' e))"

definition chain_source ::
    "(chain_error \<Rightarrow> string) \<Rightarrow> (u8 list \<Rightarrow> (spec_entry \<times> u8 list) option) \<Rightarrow> sdk_lib \<Rightarrow> 'w client \<Rightarrow>
     ('w \<times> chain_cache) abi_source" where
  "chain_source text' un S C network contractID s =
     (case chain_Interface un S C contractID s of (r, t) \<Rightarrow> (rmap_err (source_error text') r, t))"

section \<open>The cache\<close>

text \<open>
  The code under a hash never changes on the ledger: \<open>code_fixed\<close> says that whatever entry answers
  a code key decodes to what \<open>f\<close> gives for its hash. \<open>cached_of f\<close> is what follows for the cache.
\<close>

definition code_fixed ::
    "(u8 list \<Rightarrow> (spec_entry \<times> u8 list) option) \<Rightarrow> sdk_lib \<Rightarrow> 'w client \<Rightarrow>
     (u8 list \<Rightarrow> (chain_error, abi_interface) result) \<Rightarrow> bool" where
  "code_fixed un S C f \<longleftrightarrow>
     (\<forall>h key w resp w' entry rest. EncodeKey S (CodeKey h) = Inr key \<longrightarrow>
        GetLedgerEntries C [key] w = (Inr resp, w') \<longrightarrow> er_Entries resp = entry # rest \<longrightarrow>
        decode_code un S entry = f h)"

definition cached_of :: "(u8 list \<Rightarrow> (chain_error, abi_interface) result) \<Rightarrow> chain_cache \<Rightarrow> bool" where
  "cached_of f cache \<longleftrightarrow> (\<forall>h iface. map_of cache (hex_encode h) = Some iface \<longrightarrow> f h = Inr iface)"

text \<open>The states a source reaches while it serves requests and the world moves on.\<close>

inductive chain_states ::
    "(u8 list \<Rightarrow> (spec_entry \<times> u8 list) option) \<Rightarrow> sdk_lib \<Rightarrow> 'w client \<Rightarrow> 'w \<times> chain_cache \<Rightarrow> bool"
  for un S C where
  fresh: "chain_states un S C (w, NewChainSource)"
| moved: "chain_states un S C (w, cache) \<Longrightarrow> chain_states un S C (w', cache)"
| served: "chain_states un S C s \<Longrightarrow> chain_states un S C (snd (chain_Interface un S C contractID s))"

lemma hex_encode_eq_iff [simp]: "hex_encode a = hex_encode b \<longleftrightarrow> a = b"
  by (metis hex_decode_encode option.inject)

lemma keeps_chain_rpc: "keeps (\<lambda>s. cached_of f (snd s)) (chain_rpc c)"
  by (auto simp: keeps_def chain_rpc_def split: prod.splits)

lemma cached_of_remember:
  "cached_of f cache \<Longrightarrow> f h = Inr iface \<Longrightarrow> cached_of f (snd (snd (remember (hex_encode h) iface (w, cache))))"
  by (auto simp: cached_of_def remember_def update_conv' split: option.splits if_splits)

text \<open>The read of a code, branch by branch.\<close>

lemma read_code_cases:
  assumes "code_fixed un S C f"
  obtains (failed) e w' where "\<And>cache. read_code un S C h (w, cache) = (Inl e, (w', cache))"
  | (fetched) iface w' where "f h = Inr iface"
      "\<And>cache. read_code un S C h (w, cache) = remember (hex_encode h) iface (w', cache)"
proof (cases "EncodeKey S (CodeKey h)")
  case (Inl e)
  then show ?thesis by (intro failed) (simp add: read_code_def)
next
  case key: (Inr key)
  obtain r w' where call: "GetLedgerEntries C [key] w = (r, w')" by fastforce
  have run: "chain_rpc (GetLedgerEntries C [key]) (w, cache) = (rmap_err ChainRpc r, (w', cache))" for cache
    by (simp add: chain_rpc_def call)
  show ?thesis
  proof (cases r)
    case (Inl e)
    then show ?thesis by (intro failed) (simp add: read_code_def key ebind_apply run)
  next
    case resp: (Inr resp)
    show ?thesis
    proof (cases "er_Entries resp")
      case Nil
      then show ?thesis by (intro failed) (simp add: read_code_def key ebind_apply run resp)
    next
      case (Cons entry rest)
      have fixed: "decode_code un S entry = f h"
        using assms key call Cons unfolding code_fixed_def resp by blast
      show ?thesis
      proof (cases "f h")
        case (Inl e)
        then show ?thesis by (intro failed) (simp add: read_code_def key ebind_apply run resp Cons fixed)
      next
        case (Inr iface)
        then show ?thesis by (intro fetched) (simp_all add: read_code_def key ebind_apply run resp Cons fixed)
      qed
    qed
  qed
qed

text \<open>Reading the instance does not touch the cache; then the cache, or the code, is asked.\<close>

lemma chain_Interface_cases:
  obtains (failed) e w' where "\<And>cache. chain_Interface un S C contractID (w, cache) = (Inl e, (w', cache))"
  | (hash) h w' where "\<And>cache. chain_Interface un S C contractID (w, cache) =
      (case map_of cache (hex_encode h) of
         Some iface \<Rightarrow> (Inr iface, (w', cache)) | None \<Rightarrow> read_code un S C h (w', cache))"
proof (cases "rbind (rmap_err ChainStellar (ParseContractID (strkeys S) contractID))
    (\<lambda>contract. rmap_err ChainStellar (EncodeKey S (InstanceKey contract)))")
  case (Inl e)
  then show ?thesis
    by (intro failed [of e w]) (auto simp: chain_Interface_def rbind_eq_Inl)
next
  case (Inr key)
  then obtain contract where c: "ParseContractID (strkeys S) contractID = Inr contract"
    and key: "EncodeKey S (InstanceKey contract) = Inr key"
    by (auto simp: rbind_eq_Inr rmap_err_eq_Inr)
  obtain r w' where call: "GetLedgerEntries C [key] w = (r, w')" by fastforce
  have run: "chain_rpc (GetLedgerEntries C [key]) (w, cache) = (rmap_err ChainRpc r, (w', cache))" for cache
    by (simp add: chain_rpc_def call)
  show ?thesis
  proof (cases r)
    case (Inl e)
    then show ?thesis by (intro failed) (simp add: chain_Interface_def c key ebind_apply run)
  next
    case resp: (Inr resp)
    show ?thesis
    proof (cases "er_Entries resp")
      case Nil
      then show ?thesis by (intro failed) (simp add: chain_Interface_def c key ebind_apply run resp)
    next
      case (Cons entry rest)
      show ?thesis
      proof (cases "executable_hash S entry")
        case (Inl e)
        then show ?thesis by (intro failed) (simp add: chain_Interface_def c key ebind_apply run resp Cons)
      next
        case (Inr h)
        then show ?thesis
          by (intro hash [of h w']) (simp add: chain_Interface_def c key ebind_apply run resp Cons split: option.split)
      qed
    qed
  qed
qed

lemma chain_Interface_keeps:
  assumes "code_fixed un S C f" and "cached_of f cache"
  shows "cached_of f (snd (snd (chain_Interface un S C contractID (w, cache))))"
proof (cases rule: chain_Interface_cases [of un S C contractID w])
  case (failed e w')
  with assms(2) show ?thesis by simp
next
  case (hash h w')
  show ?thesis
  proof (cases rule: read_code_cases [OF assms(1), of h w'])
    case (1 e w'')
    with assms(2) show ?thesis by (simp add: hash split: option.split)
  next
    case (2 iface w'')
    with assms(2) cached_of_remember [OF assms(2) 2(1), of w''] show ?thesis
      by (simp add: hash split: option.split)
  qed
qed

lemma chain_states_cached:
  assumes "code_fixed un S C f"
  shows "chain_states un S C s \<Longrightarrow> cached_of f (snd s)"
proof (induction rule: chain_states.induct)
  case (served s contractID)
  then show ?case using chain_Interface_keeps [OF assms] by (metis prod.collapse)
qed (simp_all add: NewChainSource_def cached_of_def)

text \<open>
  C14. In any state the source can reach, whatever it serves from its cache is what the ledger holds:
  where a source without a cache answers, the cached one gives the same answer, and where that
  one fails the cached one fails in the same way or answers the code of the contract's hash
  without asking for it.
\<close>

theorem chain_cache_transparent:
  assumes "code_fixed un S C f" and "chain_states un S C (w, cache)"
  shows "case fst (chain_Interface un S C contractID (w, NewChainSource)) of
      Inr iface \<Rightarrow> fst (chain_Interface un S C contractID (w, cache)) = Inr iface
    | Inl e \<Rightarrow> fst (chain_Interface un S C contractID (w, cache)) = Inl e \<or>
        (\<exists>h iface. map_of cache (hex_encode h) = Some iface \<and> f h = Inr iface \<and>
           fst (chain_Interface un S C contractID (w, cache)) = Inr iface)"
proof -
  note ok = chain_states_cached [OF assms(1,2), simplified]
  show ?thesis
  proof (cases rule: chain_Interface_cases [of un S C contractID w])
    case (failed e w')
    then show ?thesis by simp
  next
    case (hash h w')
    show ?thesis
    proof (cases "map_of cache (hex_encode h)")
      case None
      then show ?thesis
        by (cases rule: read_code_cases [OF assms(1), of h w'])
          (simp_all add: hash NewChainSource_def remember_def)
    next
      case (Some iface)
      then have "f h = Inr iface" using ok by (simp add: cached_of_def)
      then show ?thesis using Some
        by (cases rule: read_code_cases [OF assms(1), of h w'])
          (auto simp: hash NewChainSource_def remember_def)
    qed
  qed
qed

text \<open>A contract whose code, an empty spec section, the ledger still holds in world 0 only.\<close>

definition code_sdk :: sdk_lib where
  "code_sdk = \<lparr>strkeys = sample_lib,
     marshal_key = (\<lambda>k. Some (case k of KeyContractData _ _ _ \<Rightarrow> ''I'' | _ \<Rightarrow> ''W'')),
     unmarshal_entry = (\<lambda>x. if x = ''inst'' then Some (EntryContractData (ScvContractInstance
        (Some (''ContractExecutableTypeContractExecutableWasm'', Some [7], None))))
        else Some (EntryContractCode ([0, 0x61, 0x73, 0x6d, 1, 0, 0, 0, 0, 15, 14] @ contractSpecSection))),
     unmarshal_transaction = (\<lambda>_. None), unmarshal_scval = (\<lambda>_. None), marshal_scval = (\<lambda>_. None),
     unmarshal_auth = (\<lambda>_. None), unmarshal_event = (\<lambda>_. None), build_tx = (\<lambda>_ _. None)\<rparr>"

definition code_entry :: "string \<Rightarrow> ledger_entry" where
  "code_entry data = \<lparr>le_KeyXDR = [], le_DataXDR = data, le_LiveUntil = None\<rparr>"

definition no_simulation :: simulate_response where
  "no_simulation = \<lparr>sr_Error = [], sr_TransactionDataXDR = [], sr_MinResourceFee = 0,
     sr_RestorePreamble = None, sr_Results = [], sr_EventsXDR = [], sr_LatestLedger = 1\<rparr>"

definition code_client :: "nat client" where
  "code_client = (sample_client (\<lambda>_. \<lparr>er_Entries = [], er_LatestLedger = 1\<rparr>) (\<lambda>_. no_simulation))
     \<lparr>GetLedgerEntries := \<lambda>ks w. (Inr \<lparr>er_Entries = (if ks = [''I''] then [code_entry ''inst'']
        else if w = 0 then [code_entry ''code''] else []), er_LatestLedger = 1\<rparr>, w)\<rparr>"


definition no_entries :: "u8 list \<Rightarrow> (spec_entry \<times> u8 list) option" where "no_entries bs = None"

lemma code_decodes: "decode_code no_entries code_sdk (code_entry ''code'') = Inr []"
  by code_simp

lemma code_first: "chain_Interface no_entries code_sdk code_client ''CA'' (0, NewChainSource) =
    (Inr [], (0, [(hex_encode [7], [])]))"
  by code_simp

lemma code_gone: "fst (chain_Interface no_entries code_sdk code_client ''CA'' (1, NewChainSource)) =
    Inl (ChainCodeNotFound (hex_encode [7]))"
  by code_simp

lemma chain_cache_transparent_witness:
  "case fst (chain_Interface no_entries code_sdk code_client ''CA'' (1, NewChainSource)) of
      Inr iface \<Rightarrow> False
    | Inl e \<Rightarrow> fst (chain_Interface no_entries code_sdk code_client ''CA''
          (1, [(hex_encode [7], [])])) = Inl e \<or>
        (\<exists>h iface. map_of [(hex_encode [7], [])] (hex_encode h) = Some iface \<and>
           fst (chain_Interface no_entries code_sdk code_client ''CA''
             (1, [(hex_encode [7], [])])) = Inr iface)"
proof -
  have fixed: "code_fixed no_entries code_sdk code_client (\<lambda>_. Inr [])"
    by (auto simp: code_fixed_def code_client_def EncodeKey_def CodeKey_def code_sdk_def
        simp flip: code_decodes split: if_splits)
  have "chain_states no_entries code_sdk code_client (0, [(hex_encode [7], [])])"
    using chain_states.served [OF chain_states.fresh [of no_entries code_sdk code_client 0], of "''CA''"]
    by (simp add: code_first)
  from chain_cache_transparent [OF fixed chain_states.moved [OF this], of "''CA''" 1]
  show ?thesis unfolding code_gone by auto
qed


section \<open>The SoroVault registry\<close>

definition maxResponseBytes :: nat where "maxResponseBytes = 4194304"

text \<open>\<^verbatim>\<open>url.PathEscape\<close> and \<^verbatim>\<open>url.QueryEscape\<close>.\<close>

definition unreserved :: "char \<Rightarrow> bool" where
  "unreserved c \<longleftrightarrow> is_digit c \<or> is_lower c \<or> is_upper c \<or> c \<in> set ''-_.~''"

definition upper_hex :: "nat \<Rightarrow> char" where
  "upper_hex d = ''0123456789ABCDEF'' ! d"

definition percent :: "char \<Rightarrow> string" where
  "percent c = [CHR ''%'', upper_hex (code c div 16), upper_hex (code c mod 16)]"

definition path_char :: "char \<Rightarrow> string" where
  "path_char c = (if unreserved c \<or> c \<in> set ''$&+=:@'' then [c] else percent c)"

definition query_char :: "char \<Rightarrow> string" where
  "query_char c = (if unreserved c then [c] else if c = CHR '' '' then ''+'' else percent c)"

definition PathEscape :: "string \<Rightarrow> string" where "PathEscape s = concat (map path_char s)"

definition QueryEscape :: "string \<Rightarrow> string" where "QueryEscape s = concat (map query_char s)"

definition vault_endpoint :: "string \<Rightarrow> string \<Rightarrow> string \<Rightarrow> string" where
  "vault_endpoint baseURL network contractID =
     baseURL @ ''/api/contracts/'' @ PathEscape contractID @
     (if network \<noteq> [] then ''?network='' @ QueryEscape network else [])"

record http_response =
  hp_StatusCode :: nat
  hp_Status :: string
  hp_Body :: "(string, string) result"

record vault_decoder =
  vd_payload :: "string \<Rightarrow> (string, abi_interface option) result"
  vd_error :: "string \<Rightarrow> string option"

definition errorMessage :: "vault_decoder \<Rightarrow> string \<Rightarrow> string \<Rightarrow> string" where
  "errorMessage D b status = (case vd_error D b of
     Some e \<Rightarrow> if e \<noteq> [] then e else status | None \<Rightarrow> status)"

definition vault_answer :: "vault_decoder \<Rightarrow> http_response \<Rightarrow> (abi_error, abi_interface) result" where
  "vault_answer D resp =
     (case hp_Body resp of
        Inl e \<Rightarrow> Inl (RegistryError (''sorovault: reading response: '' @ e))
      | Inr whole \<Rightarrow>
          let b = take maxResponseBytes whole in
          if hp_StatusCode resp = 404 \<or> hp_StatusCode resp = 422 then Inl UnknownContract
          else if hp_StatusCode resp \<noteq> 200
          then Inl (RegistryError (''sorovault: '' @ errorMessage D b (hp_Status resp)))
          else case vd_payload D b of
              Inl e \<Rightarrow> Inl (RegistryError (''sorovault: decoding response: '' @ e))
            | Inr None \<Rightarrow> Inl (RegistryError ''sorovault: response carried no interface'')
            | Inr (Some iface) \<Rightarrow> Inr iface)"

text \<open>
  \<open>build\<close> is \<^verbatim>\<open>http.NewRequestWithContext\<close>, the text of its error if it fails; \<open>get\<close> performs the
  GET request of an endpoint.
\<close>

definition vault_source ::
    "vault_decoder \<Rightarrow> (string \<Rightarrow> string option) \<Rightarrow> (string \<Rightarrow> ('w, http_response) call) \<Rightarrow> string \<Rightarrow>
     'w abi_source" where
  "vault_source D build get baseURL network contractID w =
     (case build (vault_endpoint baseURL network contractID) of
        Some e \<Rightarrow> (Inl (RegistryError e), w)
      | None \<Rightarrow>
          (case get (vault_endpoint baseURL network contractID) w of
             (Inl e, w') \<Rightarrow> (Inl (RegistryError (''sorovault: '' @ e)), w')
           | (Inr resp, w') \<Rightarrow> (vault_answer D resp, w')))"

definition trim_slashes :: "string \<Rightarrow> string" where
  "trim_slashes s = rev (dropWhile (\<lambda>c. c = CHR ''/'') (rev s))"

text \<open>\<^verbatim>\<open>NewSoroVault\<close>; \<open>parse\<close> is \<^verbatim>\<open>url.Parse\<close>: scheme, host and the text of the URL.\<close>

definition NewSoroVault :: "(string \<Rightarrow> (string \<times> string \<times> string) option) \<Rightarrow> string \<Rightarrow> string option" where
  "NewSoroVault parse baseURL =
     (case parse (trim_slashes baseURL) of
        None \<Rightarrow> None
      | Some (scheme, host, url) \<Rightarrow>
          if scheme \<noteq> ''http'' \<and> scheme \<noteq> ''https'' \<or> host = [] then None else Some url)"

section \<open>The live RPC client\<close>

record rpc_options =
  ro_URL :: string
  ro_Timeout :: duration

text \<open>\<^verbatim>\<open>stellar.New\<close>: the URL is required, the time-out defaults to thirty seconds.\<close>

definition rpc_New :: "rpc_options \<Rightarrow> (string, rpc_options) result" where
  "rpc_New opts =
     (if ro_URL opts = [] then Inl ''stellar: rpc url is required''
      else Inr (if ro_Timeout opts \<le>s 0 then opts\<lparr>ro_Timeout := 30 * second\<rparr> else opts))"

text \<open>\<^verbatim>\<open>withTimeout\<close>: the deadline of a call, the caller's own or the time-out from now.\<close>

definition withTimeout :: "instant option \<Rightarrow> instant \<Rightarrow> duration \<Rightarrow> instant" where
  "withTimeout deadline t timeout = (case deadline of Some d \<Rightarrow> d | None \<Rightarrow> time_add t timeout)"

text \<open>
  The calls. Each runs under that deadline, which the inner client, dialled with the time-out, answers
  for; it logs what it took and puts its name before an error.
\<close>

definition prefixed :: "string \<Rightarrow> ('w, 'a) call \<Rightarrow> ('w, 'a) call" where
  "prefixed name c w = (case c w of (r, w') \<Rightarrow> (rmap_err (\<lambda>e. name @ '': '' @ e) r, w'))"

definition RPCClient :: "'w client \<Rightarrow> 'w client" where
  "RPCClient inner = inner
     \<lparr>SimulateTransaction := (\<lambda>tx. prefixed ''simulateTransaction'' (SimulateTransaction inner tx)),
      GetLedgerEntries := (\<lambda>ks. prefixed ''getLedgerEntries'' (GetLedgerEntries inner ks)),
      GetLatestLedger := prefixed ''getLatestLedger'' (GetLatestLedger inner),
      GetLedgers := (\<lambda>a n. prefixed ''getLedgers'' (GetLedgers inner a n)),
      GetNetwork := prefixed ''getNetwork'' (GetNetwork inner),
      GetHealth := prefixed ''getHealth'' (GetHealth inner)\<rparr>"

end
