(* ===== verification/Duration_String.thy ===== *)
theory Duration_String
  imports Go_Duration
begin

text \<open>
  Go's \<^verbatim>\<open>Duration.String\<close>, which the command line writes a default time-out with, and the round
  trip: \<^verbatim>\<open>time.ParseDuration\<close> reads back exactly the duration that was written, fractions and the
  floating-point scaling the parser does on them included.
\<close>

section \<open>Writing\<close>

definition zero_pad :: "nat \<Rightarrow> nat \<Rightarrow> string" where
  "zero_pad k n = replicate (k - length (nat_digits n)) CHR ''0'' @ nat_digits n"

definition strip_zeros :: "string \<Rightarrow> string" where
  "strip_zeros s = rev (dropWhile (\<lambda>c. c = CHR ''0'') (rev s))"

text \<open>\<^verbatim>\<open>fmtFrac\<close>: the fraction of \<open>u\<close> over ten to the \<open>prec\<close>, without trailing zeros.\<close>

definition frac_text :: "nat \<Rightarrow> nat \<Rightarrow> string" where
  "frac_text prec u =
     (let ds = (if prec = 0 then [] else strip_zeros (zero_pad prec (u mod 10 ^ prec)))
      in if ds = [] then [] else CHR ''.'' # ds)"

definition sub_second :: "nat \<Rightarrow> string" where
  "sub_second u =
     (if u = 0 then ''0s''
      else if u < 1000 then nat_digits u @ ''ns''
      else if u < 1000000 then nat_digits (u div 1000) @ frac_text 3 u @ [CHR 0xC2, CHR 0xB5, CHR ''s'']
      else nat_digits (u div 1000000) @ frac_text 6 u @ ''ms'')"

definition seconds_up :: "nat \<Rightarrow> string" where
  "seconds_up u =
     (let secs = u div 1000000000; mins = secs div 60; hours = mins div 60;
          tail = nat_digits (secs mod 60) @ frac_text 9 u @ ''s''
      in if mins = 0 then tail
         else if hours = 0 then nat_digits (mins mod 60) @ ''m'' @ tail
         else nat_digits hours @ ''h'' @ nat_digits (mins mod 60) @ ''m'' @ tail)"

definition duration_text :: "nat \<Rightarrow> string" where
  "duration_text u = (if u < 1000000000 then sub_second u else seconds_up u)"

definition duration_String :: "duration \<Rightarrow> string" where
  "duration_String d =
     (if d <s 0 then CHR ''-'' # duration_text (nat (- sint d)) else duration_text (nat (sint d)))"

section \<open>Digits\<close>

lemma digit_code: "is_digit c \<Longrightarrow> int (code c) - 48 = int (digit_val c)"
  by (simp add: is_digit_def digit_val_def)

lemma leading_int_digits:
  assumes "all_digits ds" and "rest = [] \<or> \<not> is_digit (hd rest)"
    and "0 \<le> x" and "x * 10 ^ length ds + int (digits_val ds) \<le> two63"
  shows "leading_int x (ds @ rest) = Some (x * 10 ^ length ds + int (digits_val ds), rest)"
  using assms
proof (induction ds arbitrary: x)
  case Nil
  then show ?case by (cases rest) (simp_all add: digits_val_def)
next
  case (Cons d ds)
  then have d: "is_digit d" and ds: "all_digits ds" by (simp_all add: all_digits_def)
  have val: "digits_val (d # ds) = digit_val d * 10 ^ length ds + digits_val ds"
    using digits_val_append [of "[d]" ds] by (simp add: digits_val_def)
  have eq: "x * 10 ^ length (d # ds) + int (digits_val (d # ds)) =
      (x * 10 + int (digit_val d)) * 10 ^ length ds + int (digits_val ds)"
    unfolding val by (simp add: algebra_simps)
  have "(x * 10 + int (digit_val d)) * 1 \<le> (x * 10 + int (digit_val d)) * 10 ^ length ds"
    using Cons.prems(3) by (intro mult_left_mono) simp_all
  then have le: "x * 10 + int (digit_val d) \<le> two63"
    using Cons.prems(4) unfolding eq mult_1_right by linarith
  then have "\<not> two63 div 10 < x" by (simp add: two63_def)
  moreover have "leading_int (x * 10 + int (digit_val d)) (ds @ rest) =
      Some ((x * 10 + int (digit_val d)) * 10 ^ length ds + int (digits_val ds), rest)"
    using Cons.prems(2-4) unfolding eq by (intro Cons.IH ds) simp_all
  ultimately show ?case
    using d le digit_code [OF d] unfolding eq by (simp add: Let_def add_diff_eq [symmetric])
qed

lemma fmul_ten: "i < 12 \<Longrightarrow> fmul (Fin (10 ^ i)) (Fin 10) = Fin (10 ^ Suc i)"
proof -
  assume i: "i < 12"
  have "(10 :: int) ^ Suc i \<le> 10 ^ 12" using i by (intro power_increasing) simp_all
  then have "\<bar>(10 :: int) ^ Suc i\<bar> \<le> 2 ^ 53" by simp
  from fl_of_int [OF this] show ?thesis by (simp add: mult.commute)
qed

lemma leading_fraction_digits:
  assumes "all_digits ds" and "rest = [] \<or> \<not> is_digit (hd rest)"
    and "i + length ds \<le> 12" and "x < 10 ^ i"
  shows "leading_fraction False (int x) (Fin (10 ^ i)) (ds @ rest) =
      (int (x * 10 ^ length ds + digits_val ds), Fin (10 ^ (i + length ds)), rest)"
  using assms
proof (induction ds arbitrary: x i)
  case Nil
  then show ?case by (cases rest) (simp_all add: digits_val_def)
next
  case (Cons d ds)
  then have d: "is_digit d" and ds: "all_digits ds" by (simp_all add: all_digits_def)
  have d9: "digit_val d \<le> 9" using d by (simp add: is_digit_def digit_val_def le_diff_conv)
  have lt: "x * 10 + digit_val d < 10 ^ Suc i" using Cons.prems(4) d9 by simp
  have "(10 :: nat) ^ Suc i \<le> 10 ^ 12" using Cons.prems(3) by (intro power_increasing) simp_all
  then have small: "x * 10 + digit_val d < 1000000000000" using lt by simp
  have val: "digits_val (d # ds) = digit_val d * 10 ^ length ds + digits_val ds"
    using digits_val_append [of "[d]" ds] by (simp add: digits_val_def)
  have y: "int x * 10 + int (code d) - 48 = int (x * 10 + digit_val d)"
    using digit_code [OF d] by simp
  have "leading_fraction False (int (x * 10 + digit_val d)) (Fin (10 ^ Suc i)) (ds @ rest) =
      (int ((x * 10 + digit_val d) * 10 ^ length ds + digits_val ds), Fin (10 ^ (Suc i + length ds)), rest)"
    using Cons.prems(2,3) by (intro Cons.IH ds lt) simp_all
  moreover have "\<not> (two63 - 1) div 10 < int x" "\<not> two63 < int (x * 10 + digit_val d)" "i < 12"
    using small Cons.prems(3) by (simp_all add: two63_def)
  then have "leading_fraction False (int x) (Fin (10 ^ i)) ((d # ds) @ rest) =
      leading_fraction False (int (x * 10 + digit_val d)) (Fin (10 ^ Suc i)) (ds @ rest)"
    by (simp only: append_Cons leading_fraction.simps d if_True if_False not_True_eq_False
        y Let_def fmul_ten simp_thms)
  moreover have "x * 10 ^ length (d # ds) + digits_val (d # ds) =
      (x * 10 + digit_val d) * 10 ^ length ds + digits_val ds"
    unfolding val by (simp add: algebra_simps)
  ultimately show ?case by simp
qed

lemma length_nat_digits: "n < 10 ^ k \<Longrightarrow> 0 < k \<Longrightarrow> length (nat_digits n) \<le> k"
proof (induction n arbitrary: k rule: nat_digits.induct)
  case (1 n)
  show ?case
  proof (cases "n < 10")
    case True
    then show ?thesis using 1 by (subst nat_digits.simps) simp
  next
    case False
    then have "1 < k" using "1.prems" by (cases "k = 1") auto
    then obtain j where k: "k = Suc j" "0 < j" by (cases k) auto
    then have "n div 10 < 10 ^ j" using "1.prems" by auto
    then have "length (nat_digits (n div 10)) \<le> j" using "1.IH" [OF False] k by blast
    then show ?thesis using False k by (subst nat_digits.simps) simp
  qed
qed

lemma digits_val_leading_zeros [simp]: "digits_val (replicate k CHR ''0'' @ s) = digits_val s"
proof -
  have "digits_val (replicate k CHR ''0'') = 0"
    by (induction k) (simp_all add: digits_val_def digit_val_def code_def flip: replicate_append_same)
  then show ?thesis by (simp add: digits_val_append)
qed

lemma all_digits_replicate [simp]: "all_digits (replicate k CHR ''0'')"
  by (simp add: all_digits_def list_all_iff is_digit_def code_def)

lemma zero_pad_facts:
  assumes "n < 10 ^ k" "0 < k"
  shows "all_digits (zero_pad k n)" "length (zero_pad k n) = k" "digits_val (zero_pad k n) = n"
  using length_nat_digits [OF assms] nat_digits_all_digits [of n] by (simp_all add: zero_pad_def)

lemma strip_zeros_split: "\<exists>j. s = strip_zeros s @ replicate j CHR ''0''"
proof -
  let ?t = "takeWhile (\<lambda>c. c = CHR ''0'') (rev s)"
  have "rev s = ?t @ dropWhile (\<lambda>c. c = CHR ''0'') (rev s)" by simp
  moreover have "?t = replicate (length ?t) CHR ''0''"
    using set_takeWhileD [of _ "\<lambda>c. c = CHR ''0''" "rev s"] by (intro replicate_eqI) auto
  ultimately have "s = strip_zeros s @ replicate (length ?t) CHR ''0''"
    unfolding strip_zeros_def by (metis rev_append rev_replicate rev_rev_ident)
  then show ?thesis by blast
qed

lemma strip_zeros_val:
  assumes "all_digits s"
  shows "all_digits (strip_zeros s)" "length (strip_zeros s) \<le> length s"
    "digits_val s = digits_val (strip_zeros s) * 10 ^ (length s - length (strip_zeros s))"
proof -
  obtain j where s: "s = strip_zeros s @ replicate j CHR ''0''" using strip_zeros_split by blast
  have j: "length s = length (strip_zeros s) + j" using arg_cong [OF s, of length] by simp
  show "length (strip_zeros s) \<le> length s" using j by simp
  show "all_digits (strip_zeros s)" using assms s by (metis all_digits_append)
  have "digits_val (replicate j CHR ''0'') = 0"
    using digits_val_leading_zeros [of j "[]"] by (simp add: digits_val_def)
  then show "digits_val s = digits_val (strip_zeros s) * 10 ^ (length s - length (strip_zeros s))"
    using arg_cong [OF s, of digits_val] j by (simp add: digits_val_append)
qed

section \<open>Reading back\<close>

lemma hd_nat_digits: "is_digit (hd (nat_digits n @ s))"
  using nat_digits_all_digits [of n] nat_digits_nonempty [of n]
  by (cases "nat_digits n") (simp_all add: all_digits_def)

lemma hd_digit [simp]: "is_digit (hd (nat_digits n))"
  using hd_nat_digits [of n "[]"] by simp

lemma takeWhile_unit:
  assumes "\<forall>c \<in> set u. unit_char c" and "rest = [] \<or> is_digit (hd rest)"
  shows "takeWhile unit_char (u @ rest) = u" "dropWhile unit_char (u @ rest) = rest"
  using assms by (induction u) (cases rest; auto simp: unit_char_def)+

lemma leading_int_nat_digits:
  assumes "int v \<le> two63" and "rest = [] \<or> \<not> is_digit (hd rest)"
  shows "leading_int 0 (nat_digits v @ rest) = Some (int v, rest)"
  using leading_int_digits [OF nat_digits_all_digits assms(2), of 0 v] assms(1) by simp

lemma part_int:
  assumes un: "unit_ns u = Some un" "0 < un" and u: "\<forall>c \<in> set u. unit_char c"
    and rest: "rest = [] \<or> is_digit (hd rest)" and le: "int v * un \<le> two63"
  shows "duration_part (nat_digits v @ u @ rest) = Some (int v * un, rest)"
proof -
  obtain c cs where c: "u = c # cs" "\<not> is_digit c" "c \<noteq> CHR ''.''"
    using u unit_ns_nonempty [OF un(1)] by (cases u) (auto simp: unit_char_def)
  have "int v * 1 \<le> int v * un" using un(2) by (intro mult_left_mono) auto
  then have "int v \<le> two63" using le by linarith
  then have li: "leading_int 0 (nat_digits v @ u @ rest) = Some (int v, u @ rest)"
    using c by (intro leading_int_nat_digits) simp_all
  have div: "\<not> two63 div un < int v"
    using le zdiv_mono1 [OF le un(2)] un(2) by simp
  have dot: "(case u @ rest of CHR ''.'' # s' \<Rightarrow> X s' | _ \<Rightarrow> Y) = Y" for X Y
    using c by (auto split: list.splits char.splits bool.splits)
  show ?thesis
    using hd_nat_digits [of v "u @ rest"] div
    by (simp add: duration_part_def li dot Let_def takeWhile_unit [OF u rest] un)
qed

lemma part_frac:
  assumes un: "unit_ns u = Some (10 ^ k)" and k: "0 < k" "k \<le> 9" and u: "\<forall>c \<in> set u. unit_char c"
    and le: "int v * 10 ^ k + int (n mod 10 ^ k) \<le> two63"
  shows "duration_part (nat_digits v @ frac_text k n @ u) = Some (int v * 10 ^ k + int (n mod 10 ^ k), [])"
proof -
  let ?z = "zero_pad k (n mod 10 ^ k)"
  define ds where "ds = strip_zeros ?z"
  have lt: "n mod 10 ^ k < 10 ^ k" by simp
  note z = zero_pad_facts [OF lt k(1)]
  note st = strip_zeros_val [OF z(1), folded ds_def]
  define j where "j = k - length ds"
  have j: "k = length ds + j" using st(2) z(2) by (simp add: j_def)
  have val: "n mod 10 ^ k = digits_val ds * 10 ^ j" using st(3) z(2,3) by (simp add: j_def)
  show ?thesis
  proof (cases "ds = []")
    case True
    then have "n mod 10 ^ k = 0" using val by (simp add: digits_val_def)
    then show ?thesis
      using part_int [OF un _ u, of "[]" v] le True k(1) by (simp add: frac_text_def ds_def)
  next
    case False
    obtain c cs where c: "u = c # cs" "\<not> is_digit c"
      using u unit_ns_nonempty [OF un] by (cases u) (auto simp: unit_char_def)
    have ft: "frac_text k n = CHR ''.'' # ds" using False k(1) by (simp add: frac_text_def ds_def Let_def)
    have "int v * 1 \<le> int v * 10 ^ k" by (intro mult_left_mono) simp_all
    then have "int v \<le> two63" using le by linarith
    then have li: "leading_int 0 (nat_digits v @ CHR ''.'' # ds @ u) = Some (int v, CHR ''.'' # ds @ u)"
      by (intro leading_int_nat_digits) (simp_all add: is_digit_def code_def)
    have lf: "leading_fraction False 0 (Fin 1) (ds @ u) = (int (digits_val ds), Fin (10 ^ length ds), u)"
      using leading_fraction_digits [OF st(1), of u 0 0] c j k(2) by simp
    have len: "length u \<noteq> length (ds @ u)" using False by simp
    have p10: "(10 :: int) ^ i \<le> 10 ^ 9" if "i \<le> k" for i
      using that k(2) by (intro power_increasing) simp_all
    have "fl (of_int (10 ^ j)) = Fin (of_int (10 ^ j))" using p10 [of j] j by (intro fl_of_int) simp
    then have scale: "fdiv (f_of_int (10 ^ k)) (Fin (10 ^ length ds)) = Fin (10 ^ j)"
    proof -
      have "f_of_int (10 ^ k) = Fin (10 ^ k)" using p10 [of k] by (subst f_of_int_exact) simp_all
      moreover have "(10 :: rat) ^ k / 10 ^ length ds = 10 ^ j" by (simp add: j power_add)
      ultimately show ?thesis using \<open>fl (of_int (10 ^ j)) = _\<close> by simp
    qed
    have bound: "int (digits_val ds) * 10 ^ j < 10 ^ k"
    proof -
      have "digits_val ds * 10 ^ j < 10 ^ k" using lt val by simp
      then have "int (digits_val ds * 10 ^ j) < int (10 ^ k)" by (simp only: of_nat_less_iff)
      then show ?thesis by simp
    qed
    have "int (digits_val ds) * 1 \<le> int (digits_val ds) * 10 ^ j" by (intro mult_left_mono) simp_all
    then have small: "\<bar>int (digits_val ds) * 10 ^ j\<bar> \<le> 2 ^ 53" "\<bar>int (digits_val ds)\<bar> \<le> 2 ^ 53"
      using bound p10 [of k] by simp_all
    have "fmul (f_of_int (int (digits_val ds))) (Fin (10 ^ j)) = Fin (of_int (int (digits_val ds) * 10 ^ j))"
      using fl_of_int [OF small(1)] f_of_int_exact [OF small(2)] by simp
    then have fr: "fraction_ns (fmul (f_of_int (int (digits_val ds))) (Fin (10 ^ j))) = int (n mod 10 ^ k)"
      unfolding val fraction_ns.simps by (simp only: fraction_ns.simps floor_of_int of_nat_mult of_nat_power of_nat_numeral)
    have tw: "takeWhile unit_char u = u" "dropWhile unit_char u = []"
      using takeWhile_unit [OF u, of "[]"] by simp_all
    have div: "\<not> two63 div 10 ^ k < int v"
    proof -
      have "int v * 10 ^ k \<le> two63" using le by linarith
      from zdiv_mono1 [OF this, of "10 ^ k"] show ?thesis by simp
    qed
    have zero: "int (n mod 10 ^ k) = 0" if "digits_val ds = 0" using that val by simp
    show ?thesis
      using hd_nat_digits [of v "CHR ''.'' # ds @ u"] div le len zero
      by (simp add: duration_part_def li ft lf Let_def tw un scale fr)
  qed
qed

lemma loop_last:
  assumes "duration_part s = Some (v, [])" "0 \<le> d" "0 \<le> v" "d + v \<le> two63"
  shows "duration_loop d s = Some (d + v)"
proof -
  have "s \<noteq> []" using assms(1) by (auto simp: duration_part_def)
  moreover have "(d + v) mod 2 ^ 64 = d + v"
    using assms(2-4) by (intro mod_pos_pos_trivial) (simp_all add: two63_def)
  ultimately show ?thesis
    using assms by (simp add: duration_loop.simps [of d s] duration_loop.simps [of "d + v" "[]"] Let_def)
qed

lemma loop_step:
  assumes "duration_part s = Some (v, rest)" "0 \<le> d" "0 \<le> v" "d + v \<le> two63"
  shows "duration_loop d s = duration_loop (d + v) rest"
proof -
  have "s \<noteq> []" using assms(1) by (auto simp: duration_part_def)
  moreover have "(d + v) mod 2 ^ 64 = d + v"
    using assms(2-4) by (intro mod_pos_pos_trivial) (simp_all add: two63_def)
  ultimately show ?thesis using assms by (simp add: duration_loop.simps [of d s] Let_def)
qed

lemma units:
  "unit_ns ''ns'' = Some 1" "unit_ns [CHR 0xC2, CHR 0xB5, CHR ''s''] = Some (10 ^ 3)"
  "unit_ns ''ms'' = Some (10 ^ 6)" "unit_ns ''s'' = Some (10 ^ 9)"
  "unit_ns ''m'' = Some 60000000000" "unit_ns ''h'' = Some 3600000000000"
  by (simp_all add: unit_ns_def)

lemma unit_chars:
  "\<forall>c \<in> set ''ns''. unit_char c" "\<forall>c \<in> set [CHR 0xC2, CHR 0xB5, CHR ''s'']. unit_char c"
  "\<forall>c \<in> set ''ms''. unit_char c" "\<forall>c \<in> set ''s''. unit_char c"
  "\<forall>c \<in> set ''m''. unit_char c" "\<forall>c \<in> set ''h''. unit_char c"
  by (simp_all add: unit_char_def is_digit_def code_def)

lemma int_div_mod: "int (u div n) * int n + int (u mod n) = int u"
  by (metis div_mult_mod_eq of_nat_add of_nat_mult)

lemma sub_second_loop:
  assumes "0 < u" "u < 1000000000"
  shows "duration_loop 0 (sub_second u) = Some (int u)"
proof -
  have le: "int u \<le> two63" using assms(2) by (simp add: two63_def)
  consider "u < 1000" | "1000 \<le> u" "u < 1000000" | "1000000 \<le> u" by linarith
  then have "duration_part (sub_second u) = Some (int u, [])"
  proof cases
    case 1
    then show ?thesis
      using part_int [OF units(1) _ unit_chars(1), of "[]" u] assms(1) le by (simp add: sub_second_def)
  next
    case 2
    then show ?thesis
      using part_frac [OF units(2) _ _ unit_chars(2), of "u div 1000" u] int_div_mod [of u 1000] assms(1) le
      by (simp add: sub_second_def)
  next
    case 3
    then show ?thesis
      using part_frac [OF units(3) _ _ unit_chars(3), of "u div 1000000" u] int_div_mod [of u 1000000] assms(1) le
      by (simp add: sub_second_def)
  qed
  from loop_last [OF this, of 0] le show ?thesis by simp
qed

lemma seconds_part:
  assumes "int u \<le> two63"
  shows "duration_part (nat_digits (u div 1000000000 mod 60) @ frac_text 9 u @ ''s'') =
      Some (int (u mod 60000000000), [])"
proof -
  have eq: "u div 1000000000 mod 60 * 1000000000 + u mod 1000000000 = u mod 60000000000"
    using mod_mult2_eq [of u 1000000000 60] by (simp add: mult.commute add.commute)
  then have eq': "int (u div 1000000000 mod 60) * 10 ^ 9 + int (u mod 10 ^ 9) = int (u mod 60000000000)"
    by (simp add: eq [symmetric])
  have "int (u mod 60000000000) \<le> two63" using assms by (meson mod_less_eq_dividend of_nat_mono order_trans)
  then show ?thesis
    using part_frac [OF units(4) _ _ unit_chars(4), of "u div 1000000000 mod 60" u] unfolding eq' by simp
qed

lemma seconds_up_loop:
  assumes "1000000000 \<le> u" "int u \<le> two63"
  shows "duration_loop 0 (seconds_up u) = Some (int u)"
proof -
  define mins where "mins = u div 1000000000 div 60"
  define tail' where "tail' = nat_digits (u div 1000000000 mod 60) @ frac_text 9 u @ ''s''"
  have mins: "mins = u div 60000000000" by (simp add: mins_def div_mult2_eq [symmetric])
  have u: "u = mins * 60000000000 + u mod 60000000000" using div_mult_mod_eq [of u 60000000000] mins by simp
  have mh: "mins = mins div 60 * 60 + mins mod 60" by simp
  note last' = seconds_part [OF assms(2), folded tail'_def]
  have digit: "is_digit (hd tail')" "tail' \<noteq> []" by (simp_all add: tail'_def hd_nat_digits)
  have text': "seconds_up u = (if mins = 0 then tail'
      else if mins div 60 = 0 then nat_digits (mins mod 60) @ ''m'' @ tail'
      else nat_digits (mins div 60) @ ''h'' @ nat_digits (mins mod 60) @ ''m'' @ tail')"
    by (simp add: seconds_up_def Let_def mins_def tail'_def)
  have finish: "duration_loop (int (mins * 60000000000)) tail' = Some (int u)"
  proof -
    have "int (mins * 60000000000) + int (u mod 60000000000) = int u"
      unfolding of_nat_add [symmetric] using u by presburger
    then show ?thesis using loop_last [OF last', of "int (mins * 60000000000)"] assms(2) by simp
  qed
  have minutes: "duration_loop (int (mins div 60 * 3600000000000)) (nat_digits (mins mod 60) @ ''m'' @ tail') = Some (int u)"
  proof -
    have sum: "int (mins div 60 * 3600000000000) + int (mins mod 60) * 60000000000 = int (mins * 60000000000)"
    proof -
      have "mins div 60 * 3600000000000 + mins mod 60 * 60000000000 = mins * 60000000000"
        using mh by linarith
      from arg_cong [OF this, of int] show ?thesis by (simp only: of_nat_add of_nat_mult of_nat_numeral)
    qed
    have le: "int (mins * 60000000000) \<le> two63" using u assms(2) by linarith
    have "duration_part (nat_digits (mins mod 60) @ ''m'' @ tail') = Some (int (mins mod 60) * 60000000000, tail')"
      using digit sum le by (intro part_int [OF units(5) _ unit_chars(5)]) simp_all
    from loop_step [OF this, of "int (mins div 60 * 3600000000000)"] show ?thesis
      using sum le finish by simp
  qed
  show ?thesis
  proof (cases "mins = 0")
    case True
    then show ?thesis using finish by (simp add: text')
  next
    case False
    show ?thesis
    proof (cases "mins div 60 = 0")
      case True
      then show ?thesis using minutes False by (simp add: text')
    next
      case hours: False
      have le: "int (mins div 60) * 3600000000000 \<le> two63"
        using u mh assms(2) by linarith
      have "duration_part (nat_digits (mins div 60) @ ''h'' @ nat_digits (mins mod 60) @ ''m'' @ tail') =
          Some (int (mins div 60) * 3600000000000, nat_digits (mins mod 60) @ ''m'' @ tail')"
        using le hd_nat_digits by (intro part_int [OF units(6) _ unit_chars(6)]) simp_all
      from loop_step [OF this, of 0] show ?thesis using minutes le hours False by (simp add: text')
    qed
  qed
qed

lemma duration_text_loop:
  assumes "int u \<le> two63"
  shows "duration_loop 0 (duration_text u) = Some (int u)"
proof -
  consider "u = 0" | "0 < u" "u < 1000000000" | "1000000000 \<le> u" by linarith
  then show ?thesis
  proof cases
    case 1
    have "nat_digits 0 = ''0''" by code_simp
    then have "duration_part ''0s'' = Some (0, [])"
      using part_int [OF units(4) _ unit_chars(4), of "[]" 0] by (simp add: two63_def)
    from loop_last [OF this, of 0] show ?thesis
      using 1 by (simp add: duration_text_def sub_second_def two63_def)
  next
    case 2
    then show ?thesis by (simp add: duration_text_def sub_second_loop)
  next
    case 3
    then show ?thesis using assms by (simp add: duration_text_def seconds_up_loop)
  qed
qed

lemma digit_0: "is_digit CHR ''0''"
  by code_simp

lemma hd_duration_text: "is_digit (hd (duration_text u))" "duration_text u \<noteq> []"
  by (auto simp: duration_text_def sub_second_def seconds_up_def Let_def digit_0)

lemma length_duration_text: "duration_text u \<noteq> ''0''"
  by (auto simp: duration_text_def sub_second_def seconds_up_def Let_def dest!: arg_cong [of _ _ last])

text \<open>\<^verbatim>\<open>time.ParseDuration(d.String())\<close> is \<open>d\<close>, for every duration.\<close>

lemma parse_duration_String: "parse_duration (duration_String d) = Some d"
proof -
  have no_sign: "\<not> prefix ''-'' (duration_text u)" "\<not> prefix ''+'' (duration_text u)" for u
    using hd_duration_text [of u] by (cases "duration_text u"; auto simp: is_digit_def code_def)+
  show ?thesis
  proof (cases "d <s 0")
    case True
    then have neg: "sint d < 0" by (simp add: word_sless_alt)
    have le: "int (nat (- sint d)) \<le> two63" using sint_64_range [of d] by (simp add: two63_def)
    have "parse_duration (duration_String d) = Some (word_of_int (- int (nat (- sint d))))"
      using hd_duration_text [of "nat (- sint d)"]
      by (simp add: parse_duration_def duration_String_def True duration_text_loop [OF le]
          length_duration_text Let_def)
    then show ?thesis using neg by simp
  next
    case False
    then have pos: "0 \<le> sint d" by (simp add: word_sless_alt)
    have lt: "int (nat (sint d)) \<le> two63 - 1" using sint_64_range [of d] by (simp add: two63_def)
    then have le: "int (nat (sint d)) \<le> two63" by simp
    have "parse_duration (duration_String d) = Some (word_of_int (int (nat (sint d))))"
      using hd_duration_text [of "nat (sint d)"] lt
      by (simp add: parse_duration_def duration_String_def False duration_text_loop [OF le]
          length_duration_text Let_def no_sign)
    then show ?thesis using pos by simp
  qed
qed

end
