(* ===== verification/Go_Format.thy ===== *)
theory Go_Format
  imports Json_Write Duration_String Rate_Limit Scval_Codec
begin

text \<open>
  What the terminal output uses of Go's library: runes and the padding of \<^verbatim>\<open>fmt\<close>, floating-point
  numbers in fixed and shortest form, \<^verbatim>\<open>strconv.ParseFloat\<close>, and \<^verbatim>\<open>json.Marshal\<close> of a decoded
  contract value. The model's floats have one zero, so a negative zero is written as zero.
\<close>

section \<open>Runes and padding\<close>

text \<open>\<^verbatim>\<open>[]rune(s)\<close>, each rune as its text; a byte that is no UTF-8 is U+FFFD.\<close>

function runes :: "string \<Rightarrow> string list" where
  "runes s =
     (case s of
        [] \<Rightarrow> []
      | c # cs \<Rightarrow>
          if code c < 128 then [c] # runes cs
          else if utf8_len c cs = 0 then replacement # runes cs
          else take (utf8_len c cs) s # runes (drop (utf8_len c cs) s))"
  by pat_completeness auto

termination
  by (relation "measure length") auto

declare runes.simps [simp del]

lemma runes_Nil [simp]: "runes [] = []"
  by (simp add: runes.simps)

lemma runes_ascii: "ascii s \<Longrightarrow> runes s = map (\<lambda>c. [c]) s"
  by (induction s) (simp_all add: ascii_def runes.simps [of "_ # _"])

definition pad_right :: "nat \<Rightarrow> string \<Rightarrow> string" where
  "pad_right n s = s @ replicate (n - length (runes s)) CHR '' ''"

section \<open>Floating-point numbers as text\<close>

definition sign_text :: "bool \<Rightarrow> rat \<Rightarrow> string" where
  "sign_text flag q = (if q < 0 then ''-'' else if flag then ''+'' else [])"

text \<open>\<open>fmt_fixed flag n\<close> is \<^verbatim>\<open>%.nf\<close>, with the flag \<^verbatim>\<open>+\<close> or not.\<close>

fun fmt_fixed :: "bool \<Rightarrow> nat \<Rightarrow> f64 \<Rightarrow> string" where
  "fmt_fixed flag n NaN = (if flag then ''+NaN'' else ''NaN'')"
| "fmt_fixed flag n PInf = ''+Inf''"
| "fmt_fixed flag n NInf = ''-Inf''"
| "fmt_fixed flag n (Fin q) =
     (let m = nat (rne (\<bar>q\<bar> * 10 ^ n))
      in sign_text flag q @ nat_digits (m div 10 ^ n) @ CHR ''.'' # zero_pad n (m mod 10 ^ n))"

text \<open>
  The shortest decimal that reads back as a positive \<open>q\<close>: \<open>(D, e)\<close> for \<open>D\<close> times ten to the
  \<open>e\<close>. \<open>dec_exp\<close> is the exponent of its first digit; a double has one above -400, and seventeen
  digits always suffice.
\<close>

fun lead_zeros :: "nat \<Rightarrow> rat \<Rightarrow> nat" where
  "lead_zeros 0 q = 0"
| "lead_zeros (Suc fuel) q = (if 1 \<le> q then 0 else Suc (lead_zeros fuel (q * 10)))"

definition dec_exp :: "rat \<Rightarrow> int" where
  "dec_exp q = (if 1 \<le> q then int (length (nat_digits (nat \<lfloor>q\<rfloor>))) - 1 else - int (lead_zeros 400 q))"

definition rounded_digits :: "rat \<Rightarrow> nat \<Rightarrow> int \<times> int" where
  "rounded_digits q n = (let e = dec_exp q + 1 - int n in (rne (q * 10 powi (- e)), e))"

definition reads_back :: "rat \<Rightarrow> int \<times> int \<Rightarrow> bool" where
  "reads_back q de = (case de of (D, e) \<Rightarrow> fl (of_int D * 10 powi e) = Fin q)"

definition shortest_decimal :: "rat \<Rightarrow> int \<times> int" where
  "shortest_decimal q = rounded_digits q
     (case find (\<lambda>n. reads_back q (rounded_digits q n)) [1..<17] of Some n \<Rightarrow> n | None \<Rightarrow> 17)"

text \<open>\<^verbatim>\<open>%g\<close>: an exponent for numbers below \<open>1e-4\<close> and from \<open>1e6\<close> on.\<close>

definition exponent_form :: "string \<Rightarrow> int \<Rightarrow> string" where
  "exponent_form ds x =
     hd ds # (if tl ds = [] then [] else CHR ''.'' # tl ds) @ ''e'' @
     (if x < 0 then ''-'' else ''+'') @ (if \<bar>x\<bar> < 10 then ''0'' else []) @ nat_digits (nat \<bar>x\<bar>)"

definition plain_form :: "string \<Rightarrow> int \<Rightarrow> string" where
  "plain_form ds dp =
     (if dp \<le> 0 then ''0.'' @ replicate (nat (- dp)) CHR ''0'' @ ds
      else if int (length ds) \<le> dp then ds @ replicate (nat dp - length ds) CHR ''0''
      else take (nat dp) ds @ CHR ''.'' # drop (nat dp) ds)"

definition fmt_digits :: "rat \<Rightarrow> string" where
  "fmt_digits q =
     (case shortest_decimal q of (D, e) \<Rightarrow>
        let all = nat_digits (nat D); ds = strip_zeros all; dp = int (length all) + e
        in if dp - 1 < -4 \<or> 6 \<le> dp - 1 then exponent_form ds (dp - 1)
           else plain_form ds dp)"

fun fmt_g :: "f64 \<Rightarrow> string" where
  "fmt_g NaN = ''NaN''"
| "fmt_g PInf = ''+Inf''"
| "fmt_g NInf = ''-Inf''"
| "fmt_g (Fin q) = (if q = 0 then ''0'' else sign_text False q @ fmt_digits \<bar>q\<bar>)"

section \<open>Reading floating-point numbers\<close>

text \<open>
  \<^verbatim>\<open>strconv.ParseFloat(s, 64)\<close>; \<open>None\<close> is any error, a value out of range included. The special
  values are matched without regard to case; \<open>mantissa\<close> reads digits, underscores and one point:
  the digits as a number, how many follow the point, whether there are any, and what is left.
\<close>

definition digit_of :: "bool \<Rightarrow> char \<Rightarrow> nat option" where
  "digit_of hex c = (if is_digit c then Some (digit_val c) else if hex then hex_val c else None)"

fun mantissa :: "bool \<Rightarrow> bool \<Rightarrow> nat \<Rightarrow> nat \<Rightarrow> bool \<Rightarrow> string \<Rightarrow> nat \<times> nat \<times> bool \<times> string" where
  "mantissa hex dot m k seen [] = (m, k, seen, [])"
| "mantissa hex dot m k seen (c # cs) =
     (if c = CHR ''_'' then mantissa hex dot m k seen cs
      else if c = CHR ''.'' then (if dot then (m, k, seen, c # cs) else mantissa hex True m k seen cs)
      else case digit_of hex c of
          None \<Rightarrow> (m, k, seen, c # cs)
        | Some d \<Rightarrow> mantissa hex dot (m * (if hex then 16 else 10) + d) (if dot then k + 1 else k) True cs)"

text \<open>The digits of an exponent, which stop counting at ten thousand.\<close>

fun exponent_digits :: "nat \<Rightarrow> string \<Rightarrow> nat \<times> string" where
  "exponent_digits e [] = (e, [])"
| "exponent_digits e (c # cs) =
     (if c = CHR ''_'' then exponent_digits e cs
      else if is_digit c then exponent_digits (if e < 10000 then e * 10 + digit_val c else e) cs
      else (e, c # cs))"

definition split_sign :: "string \<Rightarrow> bool \<times> string" where
  "split_sign s = (if prefix ''-'' s then (True, tl s) else if prefix ''+'' s then (False, tl s) else (False, s))"

definition exponent_part :: "string \<Rightarrow> int option" where
  "exponent_part s =
     (case split_sign s of (neg, ds) \<Rightarrow>
        if ds = [] \<or> \<not> is_digit (hd ds) then None
        else case exponent_digits 0 ds of
            (e, []) \<Rightarrow> Some (if neg then - int e else int e)
          | _ \<Rightarrow> None)"

text \<open>\<^verbatim>\<open>underscoreOK\<close>: an underscore stands between digits, or after a base prefix.\<close>

datatype saw = SawStart | SawDigit | SawUnderscore | SawOther

fun underscores_ok :: "bool \<Rightarrow> saw \<Rightarrow> string \<Rightarrow> bool" where
  "underscores_ok hex st [] = (st \<noteq> SawUnderscore)"
| "underscores_ok hex st (c # cs) =
     (if digit_of hex c \<noteq> None then underscores_ok hex SawDigit cs
      else if c = CHR ''_'' then st = SawDigit \<and> underscores_ok hex SawUnderscore cs
      else st \<noteq> SawUnderscore \<and> underscores_ok hex SawOther cs)"

definition based :: "char set \<Rightarrow> string \<Rightarrow> bool" where
  "based cs s \<longleftrightarrow> prefix ''0'' s \<and> tl s \<noteq> [] \<and> lower_byte (hd (tl s)) \<in> cs"

definition underscoreOK :: "string \<Rightarrow> bool" where
  "underscoreOK s =
     (let body = snd (split_sign s) in
      if based (set ''box'') body then underscores_ok (based (set ''x'') body) SawDigit (drop 2 body)
      else underscores_ok False SawStart body)"

definition finite_float :: "rat \<Rightarrow> f64 option" where
  "finite_float q = (case fl q of Fin x \<Rightarrow> Some (Fin x) | _ \<Rightarrow> None)"

definition read_float :: "string \<Rightarrow> f64 option" where
  "read_float s =
     (case split_sign s of (neg, body) \<Rightarrow>
        let hex = based (set ''x'') body \<and> 2 < length body in
        case mantissa hex False 0 0 False (if hex then drop 2 body else body) of
          (m, k, seen, rest) \<Rightarrow>
            let value = (\<lambda>e. of_nat m * (if hex then 2 powi (e - 4 * int k) else 10 powi (e - int k)))
            in if \<not> seen \<or> CHR ''_'' \<in> set s \<and> \<not> underscoreOK s then None
               else case rest of
                   [] \<Rightarrow> if hex then None else finite_float (if neg then - value 0 else value 0)
                 | c # cs \<Rightarrow>
                     if lower_byte c \<noteq> (if hex then CHR ''p'' else CHR ''e'') then None
                     else case exponent_part cs of
                         None \<Rightarrow> None
                       | Some e \<Rightarrow> finite_float (if neg then - value e else value e))"

definition ParseFloat :: "string \<Rightarrow> f64 option" where
  "ParseFloat s =
     (let l = map lower_byte s in
      if l \<in> {''inf'', ''infinity'', ''+inf'', ''+infinity''} then Some PInf
      else if l \<in> {''-inf'', ''-infinity''} then Some NInf
      else if l = ''nan'' then Some NaN
      else read_float s)"

section \<open>JSON\<close>

text \<open>
  \<^verbatim>\<open>json.Marshal\<close> of a decoded value, and \<^verbatim>\<open>json.MarshalIndent\<close> with the prefix and the indent of
  the inspect report; the keys of an object are written in order.
\<close>

fun json_marshal :: "jval \<Rightarrow> string" where
  "json_marshal JNull = ''null''"
| "json_marshal (JBool b) = (if b then ''true'' else ''false'')"
| "json_marshal (JUint n) = itoa (uint n)"
| "json_marshal (JInt n) = itoa (sint n)"
| "json_marshal (JString s) = json_quote s"
| "json_marshal (JList vs) = ''['' @ join '','' (map json_marshal vs) @ '']''"
| "json_marshal (JObject kvs) =
     ''{'' @ join '','' (map snd (sort_key fst (map (\<lambda>(k, v). (k, json_quote k @ '':'' @ json_marshal v)) kvs))) @ ''}''"

definition newline :: string where "newline = [CHR 0x0A]"

fun json_indent :: "string \<Rightarrow> jval \<Rightarrow> string" where
  "json_indent ind (JList vs) =
     (if vs = [] then ''[]'' else ''['' @ newline @ ind @ ''  '' @
        join ('','' @ newline @ ind @ ''  '') (map (json_indent (ind @ ''  '')) vs) @ newline @ ind @ '']'')"
| "json_indent ind (JObject kvs) =
     (if kvs = [] then ''{}'' else ''{'' @ newline @ ind @ ''  '' @
        join ('','' @ newline @ ind @ ''  '')
          (map snd (sort_key fst (map (\<lambda>(k, v). (k, json_quote k @ '': '' @ json_indent (ind @ ''  '') v)) kvs))) @
        newline @ ind @ ''}'')"
| "json_indent ind v = json_marshal v"

end
