(* ===== verification/Annotations.thy ===== *)
theory Annotations
  imports Batch Go_Format
begin

text \<open>
  Workflow annotations, \<^verbatim>\<open>cmd/soroprobe/annotations.go\<close>: the lines GitHub Actions shows on a run's
  summary. The texts of errors are the parameter \<open>texts\<close>. \<open>read_command\<close> is the reading side of
  the workflow-command syntax, against which the escaping is proved.
\<close>

record texts =
  te_error :: "error \<Rightarrow> string"
  te_detail :: "check_detail \<Rightarrow> string"
  te_storage :: "decode_error \<Rightarrow> string"
  te_abi :: "abi_error \<Rightarrow> string"

definition detail_text :: "texts \<Rightarrow> check_detail \<Rightarrow> string" where
  "detail_text T d = (case d of Detail s \<Rightarrow> s | _ \<Rightarrow> te_detail T d)"

section \<open>Escaping\<close>

definition cr :: char where "cr = CHR 0x0D"
definition lf :: char where "lf = CHR 0x0A"

definition escapeAnnotationData :: "string \<Rightarrow> string" where
  "escapeAnnotationData = replacer [(''%'', ''%25''), ([cr], ''%0D''), ([lf], ''%0A'')]"

definition escapeAnnotationProperty :: "string \<Rightarrow> string" where
  "escapeAnnotationProperty =
     replacer [(''%'', ''%25''), ([cr], ''%0D''), ([lf], ''%0A''), ('':'', ''%3A''), ('','', ''%2C'')]"

definition annotation :: "string \<Rightarrow> string \<Rightarrow> string \<Rightarrow> string" where
  "annotation level title message =
     ''::'' @ level @ '' title='' @ escapeAnnotationProperty title @ ''::'' @
     escapeAnnotationData message @ [lf]"

section \<open>Annotations of results\<close>

text \<open>Each emitter is the list of lines it writes; a failing writer is ignored.\<close>

definition emitOneAnnotation :: "texts \<Rightarrow> string \<Rightarrow> check_item \<Rightarrow> string list" where
  "emitOneAnnotation T label c =
     (let title = ''soroprobe '' @ label @ '': '' @ ck_Name c; message = detail_text T (ck_Detail c) in
      case ck_Outcome c of
        OutcomeFail \<Rightarrow> [annotation ''error'' title message]
      | OutcomeWarn \<Rightarrow> [annotation ''warning'' title message]
      | _ \<Rightarrow> [])"

definition emitCheckAnnotations :: "texts \<Rightarrow> check_result \<Rightarrow> bool \<Rightarrow> string list" where
  "emitCheckAnnotations T r inActions =
     (if inActions then concat (map (emitOneAnnotation T (cr_ContractID r)) (cr_Checks r)) else [])"

definition firstFailing :: "check_result \<Rightarrow> check_item" where
  "firstFailing r =
     (case find (\<lambda>c. ck_Outcome c = OutcomeFail) (cr_Checks r) of
        Some c \<Rightarrow> c
      | None \<Rightarrow>
          (case find (\<lambda>c. ck_Outcome c = OutcomeWarn) (cr_Checks r) of
             Some c \<Rightarrow> c
           | None \<Rightarrow> check_of ''check'' OutcomeFail ''check did not pass''))"

text \<open>An item without an error and without a result does not occur in a batch.\<close>

definition emitItemAnnotations :: "texts \<Rightarrow> batch_item \<Rightarrow> string list" where
  "emitItemAnnotations T item =
     (case bi_Error item of
        Some e \<Rightarrow> [annotation ''warning'' (''soroprobe '' @ bi_Name item) (te_error T e)]
      | None \<Rightarrow>
          (case bi_Result item of
             None \<Rightarrow> []
           | Some r \<Rightarrow> if cr_OK r then [] else emitOneAnnotation T (bi_Name item) (firstFailing r)))"

definition emitBatchAnnotations :: "texts \<Rightarrow> batch_result \<Rightarrow> bool \<Rightarrow> string list" where
  "emitBatchAnnotations T r inActions =
     (if inActions then concat (map (emitItemAnnotations T) (br_Items r)) else [])"

section \<open>The reading side\<close>

fun unescape_command :: "string \<Rightarrow> string" where
  "unescape_command (c # d # e # cs) =
     (if c \<noteq> CHR ''%'' then c # unescape_command (d # e # cs)
      else if [d, e] = ''25'' then CHR ''%'' # unescape_command cs
      else if [d, e] = ''0D'' then cr # unescape_command cs
      else if [d, e] = ''0A'' then lf # unescape_command cs
      else if [d, e] = ''3A'' then CHR '':'' # unescape_command cs
      else if [d, e] = ''2C'' then CHR '','' # unescape_command cs
      else c # unescape_command (d # e # cs))"
| "unescape_command s = s"

fun cut_colons :: "string \<Rightarrow> (string \<times> string) option" where
  "cut_colons (c # d # cs) =
     (if c = CHR '':'' \<and> d = CHR '':'' then Some ([], cs)
      else map_option (\<lambda>(a, b). (c # a, b)) (cut_colons (d # cs)))"
| "cut_colons _ = None"

text \<open>A line without its newline: \<^verbatim>\<open>::level title=title::message\<close>.\<close>

definition read_command :: "string \<Rightarrow> (string \<times> string \<times> string) option" where
  "read_command s =
     (if \<not> prefix ''::'' s then None
      else case cut_colons (drop 2 s) of
          None \<Rightarrow> None
        | Some (head, message) \<Rightarrow>
            (case cut CHR '' '' head of
               (level, props, _) \<Rightarrow>
                 if prefix ''title='' props
                 then Some (level, unescape_command (drop 6 props), unescape_command message) else None))"

section \<open>Facts\<close>

lemma replacer_chars:
  assumes "\<forall>p \<in> set ps. length (fst p) = 1"
  shows "replacer ps s =
    concat (map (\<lambda>c. case find (\<lambda>p. fst p = [c]) ps of None \<Rightarrow> [c] | Some p \<Rightarrow> snd p) s)"
proof (induction s)
  case (Cons c cs)
  have "find (\<lambda>p. prefix (fst p) (c # cs)) ps = find (\<lambda>p. fst p = [c]) ps"
    using assms by (intro find_cong) (auto simp: length_Suc_conv prefix_def)
  moreover have "length (fst p) = 1" if "find (\<lambda>p. fst p = [c]) ps = Some p" for p
    using that by (auto simp: find_Some_iff)
  ultimately show ?case using Cons by (auto split: option.split)
qed simp

definition data_escape :: "char \<Rightarrow> string" where
  "data_escape c =
     (if c = CHR ''%'' then ''%25'' else if c = cr then ''%0D'' else if c = lf then ''%0A'' else [c])"

definition property_escape :: "char \<Rightarrow> string" where
  "property_escape c =
     (if c = CHR '':'' then ''%3A'' else if c = CHR '','' then ''%2C'' else data_escape c)"

lemma escape_data_map: "escapeAnnotationData s = concat (map data_escape s)"
  unfolding escapeAnnotationData_def
  by (subst replacer_chars) (auto simp: data_escape_def cr_def lf_def intro!: arg_cong [of _ _ concat])

lemma escape_property_map: "escapeAnnotationProperty s = concat (map property_escape s)"
  unfolding escapeAnnotationProperty_def
  by (subst replacer_chars)
    (auto simp: property_escape_def data_escape_def cr_def lf_def intro!: arg_cong [of _ _ concat])

lemma unescape_plain_char: "c \<noteq> CHR ''%'' \<Longrightarrow> unescape_command (c # s) = c # unescape_command s"
  by (cases "c # s" rule: unescape_command.cases) auto

lemma unescape_data: "unescape_command (escapeAnnotationData s) = s"
  unfolding escape_data_map
  by (induction s) (auto simp: data_escape_def cr_def lf_def unescape_plain_char)

lemma unescape_property: "unescape_command (escapeAnnotationProperty s) = s"
  unfolding escape_property_map
  by (induction s) (auto simp: property_escape_def data_escape_def cr_def lf_def unescape_plain_char)

lemma escaped_data_chars: "c \<in> set (escapeAnnotationData s) \<Longrightarrow> c \<noteq> cr \<and> c \<noteq> lf"
  unfolding escape_data_map
  by (induction s) (auto simp: data_escape_def cr_def lf_def split: if_splits)

lemma escaped_property_chars:
  "c \<in> set (escapeAnnotationProperty s) \<Longrightarrow> c \<noteq> cr \<and> c \<noteq> lf \<and> c \<noteq> CHR '':'' \<and> c \<noteq> CHR '',''"
  unfolding escape_property_map
  by (induction s) (auto simp: property_escape_def data_escape_def cr_def lf_def split: if_splits)

lemma cut_colons_found:
  "CHR '':'' \<notin> set a \<Longrightarrow> cut_colons (a @ ''::'' @ b) = Some (a, b)"
proof (induction a)
  case (Cons c a)
  then show ?case by (cases a) auto
qed simp

lemma escape_data_no_newline: "lf \<notin> set (escapeAnnotationData s)" "cr \<notin> set (escapeAnnotationData s)"
  using escaped_data_chars by blast+



text \<open>A step that did not pass and did not get skipped.\<close>

definition flagged :: "check_item \<Rightarrow> bool" where
  "flagged c \<longleftrightarrow> ck_Outcome c = OutcomeFail \<or> ck_Outcome c = OutcomeWarn"

lemma emitOne_length: "length (emitOneAnnotation T label c) = (if flagged c then 1 else 0)"
  by (simp add: emitOneAnnotation_def flagged_def Let_def split: check_outcome.split)

lemma firstFailing_flagged: "flagged (firstFailing r)"
  by (auto simp: firstFailing_def flagged_def find_Some_iff split: option.split)

lemma length_concat_if:
  "length (concat (map f xs)) = length (filter P xs)" if "\<And>x. x \<in> set xs \<Longrightarrow> length (f x) = (if P x then 1 else 0)"
  using that by (induction xs) auto

text \<open>A check of a batch that failed or could not run.\<close>

definition unwell :: "batch_item \<Rightarrow> bool" where
  "unwell item = (case bi_Error item of Some _ \<Rightarrow> True
     | None \<Rightarrow> (case bi_Result item of Some r \<Rightarrow> \<not> cr_OK r | None \<Rightarrow> False))"

text \<open>
  Inside Actions a single check gets one annotation for each failed or warned step, and a batch
  exactly one for each check that failed or could not run; outside, nothing is written.
\<close>

theorem annotations_counted:
  "length (emitCheckAnnotations T r inActions) =
      (if inActions then length (filter flagged (cr_Checks r)) else 0) \<and>
   length (emitBatchAnnotations T b inActions) = (if inActions then length (filter
      unwell (br_Items b)) else 0)"
proof (intro conjI)
  show "length (emitCheckAnnotations T r inActions) =
      (if inActions then length (filter flagged (cr_Checks r)) else 0)"
    by (simp add: emitCheckAnnotations_def length_concat_if [where P = flagged] emitOne_length)
  have "length (emitItemAnnotations T i) =
      (if unwell i then 1 else 0)" for i
    using firstFailing_flagged by (auto simp: emitItemAnnotations_def emitOne_length unwell_def split: option.split)
  from length_concat_if [of "br_Items b", OF this]
  show "length (emitBatchAnnotations T b inActions) = (if inActions then length (filter
      unwell (br_Items b)) else 0)"
    by (simp add: emitBatchAnnotations_def)
qed

text \<open>
  A warned step of a check that passes gets an annotation on its own and none in a batch, although
  the help of the command says each failed or warned step does.
\<close>

lemma warned_step_silent_in_batch:
  assumes "cr_OK r" and "step \<in> set (cr_Checks r)" and "ck_Outcome step = OutcomeWarn"
  shows "emitCheckAnnotations T r True \<noteq> []"
    and "emitBatchAnnotations T \<lparr>br_OK = True, br_Errored = False,
      br_Items = [\<lparr>bi_Name = n, bi_ContractID = c, bi_Result = Some r, bi_Error = None\<rparr>]\<rparr> True = []"
proof -
  have "emitOneAnnotation T (cr_ContractID r) step \<noteq> []"
    using emitOne_length [of T "cr_ContractID r" step] assms(3) by (auto simp: flagged_def)
  then show "emitCheckAnnotations T r True \<noteq> []"
    using assms(2) by (auto simp: emitCheckAnnotations_def)
qed (simp add: emitBatchAnnotations_def emitItemAnnotations_def assms(1))

end
