(* ===== verification/Cli_Inputs.thy ===== *)
theory Cli_Inputs
  imports Config_Layers Abi_Sources Annotations Simulate
begin

text \<open>
  What the command line reads: flags over the configuration and the prober they lead to,
  \<^verbatim>\<open>cmd/soroprobe/root.go\<close>; key files, \<^verbatim>\<open>keyfile.go\<close>; percentages, durabilities, formats and
  batch files, \<^verbatim>\<open>commands.go\<close>. The flags of a command line are \<open>flags\<close>: for each name the value
  given, \<open>None\<close> for a flag that was not set (\<^verbatim>\<open>Changed\<close>).
\<close>

section \<open>Flags over the configuration\<close>

record flags =
  fg_string :: "string \<Rightarrow> string option"
  fg_u32 :: "string \<Rightarrow> u32 option"
  fg_duration :: "string \<Rightarrow> duration option"
  fg_int64 :: "string \<Rightarrow> i64 option"

definition override_flags :: "(string \<times> entry_kind \<times> bool) list" where
  "override_flags =
     [(''instance-warn-ledgers'', EntryKindInstance, True),
      (''instance-critical-ledgers'', EntryKindInstance, False),
      (''code-warn-ledgers'', EntryKindCode, True),
      (''code-critical-ledgers'', EntryKindCode, False),
      (''data-warn-ledgers'', EntryKindData, True),
      (''data-critical-ledgers'', EntryKindData, False)]"

definition set_override_flag ::
    "flags \<Rightarrow> string \<times> entry_kind \<times> bool \<Rightarrow> threshold_overrides \<Rightarrow> threshold_overrides" where
  "set_override_flag F item ov =
     (case item of (flag, kind, warn) \<Rightarrow>
        case fg_u32 F flag of
          None \<Rightarrow> ov
        | Some value \<Rightarrow> thresholdOverride kind
            (if warn then ov_Warn_update (\<lambda>_. Some value) else ov_Critical_update (\<lambda>_. Some value)) ov)"

definition with_flags :: "flags \<Rightarrow> config \<Rightarrow> config" where
  "with_flags F c = c
     \<lparr>cfg_RPCURL := set_value (cfg_RPCURL c) (fg_string F ''rpc-url''),
      cfg_NetworkPassphrase := set_value (cfg_NetworkPassphrase c) (fg_string F ''network-passphrase''),
      cfg_SourceAccount := set_value (cfg_SourceAccount c) (fg_string F ''source-account''),
      cfg_LogLevel := set_value (cfg_LogLevel c) (fg_string F ''log-level''),
      cfg_LogFormat := set_value (cfg_LogFormat c) (fg_string F ''log-format''),
      cfg_Timeout := set_value (cfg_Timeout c) (fg_duration F ''timeout''),
      cfg_WarnLedgers := set_value (cfg_WarnLedgers c) (fg_u32 F ''warn-ledgers''),
      cfg_CriticalLedgers := set_value (cfg_CriticalLedgers c) (fg_u32 F ''critical-ledgers''),
      cfg_ThresholdOverrides := fold (set_override_flag F) override_flags (cfg_ThresholdOverrides c),
      cfg_SoroVaultURL := set_value (cfg_SoroVaultURL c) (fg_string F ''sorovault-url''),
      cfg_APIToken := set_value (cfg_APIToken c) (fg_string F ''api-token''),
      cfg_BaseFee := set_value (cfg_BaseFee c) (fg_int64 F ''base-fee'')\<rparr>"

datatype resolve_error = LoadFailed config_error | ConfigInvalid config_invalid

text \<open>\<^verbatim>\<open>options.resolve\<close>.\<close>

definition resolve_options ::
    "platform \<Rightarrow> (string \<Rightarrow> bool) \<Rightarrow> flags \<Rightarrow> string \<Rightarrow> string \<Rightarrow> (resolve_error, config) result" where
  "resolve_options pf valid_key F configPath profile =
     (case LoadWithProfile pf configPath profile of
        (_, Some e) \<Rightarrow> Inl (LoadFailed e)
      | (c, None) \<Rightarrow>
          (case Validate valid_key (with_flags F c) of
             Some e \<Rightarrow> Inl (ConfigInvalid e)
           | None \<Rightarrow> Inr (with_flags F c)))"

text \<open>The thresholds of a kind after the flags: each bound the flag's, or the one before.\<close>

definition override_bound ::
    "flags \<Rightarrow> string \<Rightarrow> string \<Rightarrow> threshold_override option \<Rightarrow> threshold_override option" where
  "override_bound F warn critical ov =
     (if fg_u32 F warn = None \<and> fg_u32 F critical = None then ov
      else Some \<lparr>ov_Warn = (case fg_u32 F warn of None \<Rightarrow> ov_Warn (set_value no_override ov) | v \<Rightarrow> v),
        ov_Critical = (case fg_u32 F critical of None \<Rightarrow> ov_Critical (set_value no_override ov) | v \<Rightarrow> v)\<rparr>)"

lemma override_flags_result:
  "fold (set_override_flag F) override_flags ov =
     \<lparr>ov_Instance = override_bound F ''instance-warn-ledgers'' ''instance-critical-ledgers'' (ov_Instance ov),
      ov_Code = override_bound F ''code-warn-ledgers'' ''code-critical-ledgers'' (ov_Code ov),
      ov_Data = override_bound F ''data-warn-ledgers'' ''data-critical-ledgers'' (ov_Data ov)\<rparr>"
  by (cases ov) (simp add: override_flags_def set_override_flag_def override_bound_def set_value_def no_override_def
      split: option.split)

section \<open>The prober of a configuration\<close>

text \<open>A client beside which the on-chain source keeps its cache.\<close>

definition beside :: "('w \<Rightarrow> 'r \<times> 'w) \<Rightarrow> 'w \<times> 'c \<Rightarrow> 'r \<times> ('w \<times> 'c)" where
  "beside f s = (case f (fst s) of (r, w) \<Rightarrow> (r, (w, snd s)))"

definition beside_client :: "'w client \<Rightarrow> ('w \<times> 'c) client" where
  "beside_client C =
     \<lparr>SimulateTransaction = (\<lambda>tx. beside (SimulateTransaction C tx)),
      GetLedgerEntries = (\<lambda>ks. beside (GetLedgerEntries C ks)),
      GetLatestLedger = beside (GetLatestLedger C),
      GetLedgers = (\<lambda>a n. beside (GetLedgers C a n)),
      GetNetwork = beside (GetNetwork C), GetHealth = beside (GetHealth C),
      CtxErr = beside (CtxErr C), Now = beside (Now C)\<rparr>"

text \<open>
  What \<^verbatim>\<open>newLiveProber\<close> needs from outside: the SDK's client for an endpoint, its codecs, and the
  parts of the two interface sources that are not under \<^verbatim>\<open>src\<close>.
\<close>

record 'w live =
  lv_dial :: "rpc_options \<Rightarrow> 'w client"
  lv_sdk :: sdk_lib
  lv_spec :: "u8 list \<Rightarrow> (spec_entry \<times> u8 list) option"
  lv_chain_text :: "chain_error \<Rightarrow> string"
  lv_parse_url :: "string \<Rightarrow> (string \<times> string \<times> string) option"
  lv_decode :: vault_decoder
  lv_build :: "string \<Rightarrow> string option"
  lv_get :: "string \<Rightarrow> ('w, http_response) call"

datatype start_error = RpcClientError string | SoroVaultURL string | ProberError error

definition live_source ::
    "'w live \<Rightarrow> 'w client \<Rightarrow> config \<Rightarrow> bool \<Rightarrow> (start_error, ('w \<times> chain_cache) abi_source option) result" where
  "live_source L C c abiFromChain =
     (if abiFromChain then Inr (Some (chain_source (lv_chain_text L) (lv_spec L) (lv_sdk L) C))
      else if cfg_SoroVaultURL c \<noteq> [] then
        (case NewSoroVault (lv_parse_url L) (cfg_SoroVaultURL c) of
           None \<Rightarrow> Inl (SoroVaultURL (cfg_SoroVaultURL c))
         | Some base \<Rightarrow> Inr (Some (\<lambda>network contractID.
             beside (vault_source (lv_decode L) (lv_build L) (lv_get L) base network contractID))))
      else Inr None)"

definition newLiveProber ::
    "'w live \<Rightarrow> config \<Rightarrow> bool \<Rightarrow> 'w \<Rightarrow> (start_error, ('w \<times> chain_cache) prober \<times> ('w \<times> chain_cache) pstate) result" where
  "newLiveProber L c abiFromChain w =
     rbind (rmap_err RpcClientError (rpc_New \<lparr>ro_URL = cfg_RPCURL c, ro_Timeout = cfg_Timeout c\<rparr>)) (\<lambda>opts.
     let C = RPCClient (lv_dial L opts) in
     rbind (live_source L C c abiFromChain) (\<lambda>source.
     rmap_err ProberError (New (lv_sdk L)
       \<lparr>o_Client = Some (beside_client C), o_Codec = None, o_SourceAccount = cfg_SourceAccount c,
        o_Thresholds = \<lparr>Warn = cfg_WarnLedgers c, Critical = cfg_CriticalLedgers c\<rparr>,
        o_ThresholdOverrides = cfg_ThresholdOverrides c, o_ABI = source,
        o_Network = NetworkName (cfg_NetworkPassphrase c),
        o_InspectCacheTTL = cfg_InspectCacheTTL c, o_BaseFee = cfg_BaseFee c\<rparr> (w, NewChainSource))))"

section \<open>Key files\<close>

text \<open>
  The lines of a \<^verbatim>\<open>bufio.Scanner\<close>: without their ends, and whether one was too long for its
  buffer, where it stops.
\<close>

definition max_token :: nat where "max_token = 65536"

definition drop_cr :: "string \<Rightarrow> string" where
  "drop_cr s = (if s \<noteq> [] \<and> last s = CHR 0x0D then butlast s else s)"

definition file_lines :: "string \<Rightarrow> string list" where
  "file_lines s = (let ls = split_on CHR 0x0A s in if last ls = [] then butlast ls else ls)"

definition scan_lines :: "string \<Rightarrow> string list \<times> bool" where
  "scan_lines s = (map drop_cr (takeWhile (\<lambda>l. length l < max_token) (file_lines s)),
     \<exists>l \<in> set (file_lines s). max_token \<le> length l)"

datatype key_error =
    OpenKeyFile string
  | InvalidKeySpec string nat string encode_error
  | ReadKeyFile string

definition is_comment :: "string \<Rightarrow> bool" where
  "is_comment sp \<longleftrightarrow> sp = [] \<or> prefix ''#'' sp"

fun key_lines ::
    "(string \<Rightarrow> (encode_error, scval) result) \<Rightarrow> string \<Rightarrow> nat \<Rightarrow> string list \<Rightarrow> (key_error, string list) result" where
  "key_lines enc name line [] = Inr []"
| "key_lines enc name line (l # ls) =
     (let sp = trim_space l in
      if is_comment sp then key_lines enc name (line + 1) ls
      else case enc sp of
          Inl e \<Rightarrow> Inl (InvalidKeySpec name line sp e)
        | Inr _ \<Rightarrow> rbind (key_lines enc name (line + 1) ls) (\<lambda>keys. Inr (sp # keys)))"

definition parseKeyFile ::
    "(string \<Rightarrow> (encode_error, scval) result) \<Rightarrow> string \<Rightarrow> string \<Rightarrow> (key_error, string list) result" where
  "parseKeyFile enc text' name =
     (case scan_lines text' of (ls, too_long) \<Rightarrow>
        rbind (key_lines enc name 1 ls) (\<lambda>keys. if too_long then Inl (ReadKeyFile name) else Inr keys))"

definition readKeyFile ::
    "(string \<Rightarrow> (encode_error, scval) result) \<Rightarrow> (string \<Rightarrow> (string, string) result) \<Rightarrow> string \<Rightarrow>
     (key_error, string list) result" where
  "readKeyFile enc rd path =
     rbind (rmap_err OpenKeyFile (rd path)) (\<lambda>text'. parseKeyFile enc text' path)"

text \<open>The loop over the keys with the set of those seen.\<close>

fun drop_seen :: "string set \<Rightarrow> string list \<Rightarrow> string list" where
  "drop_seen seen [] = []"
| "drop_seen seen (k # ks) =
     (if k \<in> seen then drop_seen seen ks else k # drop_seen (insert k seen) ks)"

definition mergeKeys ::
    "(string \<Rightarrow> (encode_error, scval) result) \<Rightarrow> (string \<Rightarrow> (string, string) result) \<Rightarrow> string \<Rightarrow> string list \<Rightarrow>
     (key_error, string list) result" where
  "mergeKeys enc rd keyFile flagKeys =
     rbind (if keyFile \<noteq> [] then readKeyFile enc rd keyFile else Inr []) (\<lambda>fromFile.
     Inr (drop_seen {} (fromFile @ flagKeys)))"

section \<open>Values of flags\<close>

datatype flag_error =
    MaxIncreaseNeedsBaseline
  | MaxSpreadNeedsRepeat
  | NotAPercentage string
  | NegativePercentage string
  | UnknownDurabilityFlag string
  | UnsupportedFormat string
  | QuietWithJSON
  | QuietWithReport

definition trim_suffix :: "char \<Rightarrow> string \<Rightarrow> string" where
  "trim_suffix c s = (if s \<noteq> [] \<and> last s = c then butlast s else s)"

definition parse_percentage :: "string \<Rightarrow> (flag_error, f64 option) result" where
  "parse_percentage s =
     (case ParseFloat (trim_space (trim_suffix CHR ''%'' (trim_space s))) of
        None \<Rightarrow> Inl (NotAPercentage s)
      | Some value \<Rightarrow> if flt value (Fin 0) then Inl (NegativePercentage s) else Inr (Some value))"

definition parseMaxIncrease :: "string \<Rightarrow> bool \<Rightarrow> (flag_error, f64 option) result" where
  "parseMaxIncrease s hasBaseline =
     (if s = [] then Inr None
      else if \<not> hasBaseline then Inl MaxIncreaseNeedsBaseline
      else parse_percentage s)"

definition parseMaxSpread :: "string \<Rightarrow> int \<Rightarrow> (flag_error, f64 option) result" where
  "parseMaxSpread s repeat =
     (if s = [] then Inr None
      else if repeat < 2 then Inl MaxSpreadNeedsRepeat
      else parse_percentage s)"

definition parseDurability :: "string \<Rightarrow> (flag_error, durability) result" where
  "parseDurability s =
     (let d = to_lower (trim_space s) in
      if d = [] \<or> d = ''persistent'' then Inr DurabilityPersistent
      else if d = ''temporary'' \<or> d = ''temp'' then Inr DurabilityTemporary
      else Inl (UnknownDurabilityFlag s))"

datatype format = TextFormat | JSONFormat | MarkdownFormat

text \<open>\<open>format\<close> is the flag, \<^verbatim>\<open>text\<close> when it is not set.\<close>

definition selectOutputFormat :: "bool \<Rightarrow> string option \<Rightarrow> (flag_error, format) result" where
  "selectOutputFormat jsonOut given =
     (if jsonOut \<and> given = None then Inr JSONFormat
      else let format = (case given of None \<Rightarrow> ''text'' | Some f \<Rightarrow> f) in
        if format = ''text'' then Inr TextFormat
        else if format = ''json'' then Inr JSONFormat
        else if format = ''markdown'' then Inr MarkdownFormat
        else Inl (UnsupportedFormat format))"

definition checkQuietConflicts :: "bool \<Rightarrow> bool \<Rightarrow> string \<Rightarrow> flag_error option" where
  "checkQuietConflicts quiet jsonOut reportPath =
     (if \<not> quiet then None
      else if jsonOut then Some QuietWithJSON
      else if reportPath \<noteq> [] then Some QuietWithReport
      else None)"

definition applyDefaultTimeout :: "duration \<Rightarrow> batch_request \<Rightarrow> batch_request" where
  "applyDefaultTimeout d req =
     (if d \<le>s 0 then req
      else req\<lparr>bq_Checks := map (\<lambda>c. if nc_Timeout c = [] then c\<lparr>nc_Timeout := duration_String d\<rparr> else c)
        (bq_Checks req)\<rparr>)"

text \<open>Whether a batch file is read as YAML; \<^verbatim>\<open>"-"\<close>, the standard input, is JSON.\<close>

definition yaml_file :: "string \<Rightarrow> bool" where
  "yaml_file path \<longleftrightarrow> to_lower (Ext path) = ''.yaml'' \<or> to_lower (Ext path) = ''.yml''"

section \<open>Facts\<close>

lemma drop_seen_first: "drop_seen seen ks = filter (\<lambda>k. k \<notin> seen) (drop_seen {} ks)"
proof (induction ks arbitrary: seen)
  case (Cons k ks)
  have "drop_seen {k} ks = filter (\<lambda>x. x \<noteq> k) (drop_seen {} ks)" using Cons [of "{k}"] by simp
  then show ?case using Cons [of "insert k seen"] Cons [of seen] by (auto intro: filter_cong)
qed simp

lemma drop_seen_set [simp]: "set (drop_seen seen ks) = set ks - seen"
  by (induction ks arbitrary: seen) auto

lemma drop_seen_distinct: "distinct (drop_seen seen ks)"
  by (induction ks arbitrary: seen) auto

lemma drop_seen_appear:
  "drop_seen {} (xs @ ys) = drop_seen {} xs @ filter (\<lambda>y. y \<notin> set xs) (drop_seen {} ys)"
proof (induction xs)
  case (Cons x xs)
  then show ?case
    using drop_seen_first [of "{x}" "xs @ ys"] drop_seen_first [of "{x}" xs] by (auto intro: filter_cong)
qed simp

definition key_specs :: "string list \<Rightarrow> string list" where
  "key_specs ls = filter (\<lambda>sp. \<not> is_comment sp) (map trim_space ls)"

lemma key_lines_Inr:
  "key_lines enc name n ls = Inr keys \<longleftrightarrow> keys = key_specs ls \<and> (\<forall>k \<in> set keys. isOk (enc k))"
  by (induction ls arbitrary: n keys)
    (auto simp: key_specs_def Let_def isOk_iff rbind_eq_Inr split: sum.splits)

lemma key_lines_Inl:
  assumes "key_lines enc name n ls = Inl err"
  shows "\<exists>i < length ls. \<exists>e. err = InvalidKeySpec name (n + i) (trim_space (ls ! i)) e \<and>
    \<not> is_comment (trim_space (ls ! i)) \<and> enc (trim_space (ls ! i)) = Inl e \<and>
    (\<forall>k \<in> set (key_specs (take i ls)). isOk (enc k))"
  using assms
proof (induction ls arbitrary: n)
  case (Cons l ls)
  let ?later = "key_lines enc name (n + 1) ls"
  show ?case
  proof (cases "?later = Inl err \<and> (is_comment (trim_space l) \<or> isOk (enc (trim_space l)))")
    case True
    then obtain i e where "i < length ls" "err = InvalidKeySpec name (n + 1 + i) (trim_space (ls ! i)) e"
      "\<not> is_comment (trim_space (ls ! i))" "enc (trim_space (ls ! i)) = Inl e"
      "\<forall>k \<in> set (key_specs (take i ls)). isOk (enc k)" using Cons.IH by blast
    then show ?thesis using True by (intro exI [of _ "Suc i"]) (auto simp: key_specs_def)
  next
    case False
    then show ?thesis using Cons.prems
      by (intro exI [of _ 0]) (auto simp: Let_def key_specs_def rbind_eq_Inl isOk_iff split: if_splits sum.splits)
  qed
qed simp

text \<open>Inputs for the examples.\<close>

definition sample_enc :: "string \<Rightarrow> (encode_error, scval) result" where
  "sample_enc k = (if k = ''bad'' then Inl (ExpectedBoolean []) else Inr ScvVoid)"

definition sample_named :: "string \<Rightarrow> named_check" where
  "sample_named t = \<lparr>nc_Name = ''n'', nc_Timeout = t, nc_Request =
     \<lparr>ch_ContractID = ''CA'', ch_Function = [], ch_Args = [], ch_Expect = [], ch_DataKeys = [],
      ch_DataDurability = DurabilityPersistent\<rparr>\<rparr>"

lemma scan_lines_short:
  "list_all (\<lambda>l. length l < 100) (file_lines s) \<Longrightarrow> scan_lines s = (map drop_cr (file_lines s), False)"
proof -
  assume "list_all (\<lambda>l. length l < 100) (file_lines s)"
  then have all: "\<forall>l \<in> set (file_lines s). length l < max_token" by (auto simp: list_all_iff max_token_def)
  then have tw: "takeWhile (\<lambda>l. length l < max_token) (file_lines s) = file_lines s"
    by (simp only: takeWhile_eq_all_conv)
  show ?thesis unfolding scan_lines_def tw using all by (auto simp: not_le)
qed

definition sample_file :: string where
  "sample_file = ''#x'' @ [lf] @ '' a'' @ [cr, lf] @ ''b''"

lemma sample_lines: "scan_lines sample_file = ([''#x'', '' a'', ''b''], False)"
proof -
  have "list_all (\<lambda>l. length l < 100) (file_lines sample_file)"
    "map drop_cr (file_lines sample_file) = [''#x'', '' a'', ''b'']" by code_simp+
  then show ?thesis by (simp add: scan_lines_short)
qed

lemma sample_specs: "key_specs [''#x'', '' a'', ''b''] = [''a'', ''b'']"
  by code_simp

section \<open>Properties\<close>




text \<open>
  C23. A key file that is refused is refused at its first bad line, under that line's number in the
  file, before anything is sent; or for a line longer than the scanner's buffer when every line
  before it is fine.
\<close>

theorem key_file_refused:
  assumes "parseKeyFile enc text' name = Inl err"
  shows "case err of
      InvalidKeySpec name' n sp e \<Rightarrow>
        name' = name \<and> 1 \<le> n \<and> n \<le> length (fst (scan_lines text')) \<and>
        sp = trim_space (fst (scan_lines text') ! (n - 1)) \<and> \<not> is_comment sp \<and> enc sp = Inl e \<and>
        (\<forall>k \<in> set (key_specs (take (n - 1) (fst (scan_lines text')))). isOk (enc k))
    | ReadKeyFile name' \<Rightarrow>
        name' = name \<and> (\<exists>l \<in> set (file_lines text'). max_token \<le> length l) \<and>
        (\<forall>k \<in> set (key_specs (fst (scan_lines text'))). isOk (enc k))
    | OpenKeyFile _ \<Rightarrow> False"
proof (cases "key_lines enc name 1 (fst (scan_lines text'))")
  case (Inl e)
  then have "err = e" using assms by (simp add: parseKeyFile_def split: prod.splits)
  then show ?thesis using key_lines_Inl [OF Inl] by auto
next
  case (Inr keys)
  then have "err = ReadKeyFile name" "snd (scan_lines text')"
    using assms by (auto simp: parseKeyFile_def split: prod.splits if_splits)
  then show ?thesis using Inr unfolding key_lines_Inr by (simp add: scan_lines_def)
qed

lemma key_file_refused_witness:
  "parseKeyFile (\<lambda>k. if k = ''b'' then Inl (ExpectedBoolean []) else Inr ScvVoid) sample_file ''f'' =
     Inl (InvalidKeySpec ''f'' 3 ''b'' (ExpectedBoolean [])) \<and> trim_space (fst (scan_lines sample_file) ! 2) = ''b''"
proof -
  have "key_lines (\<lambda>k. if k = ''b'' then Inl (ExpectedBoolean []) else Inr ScvVoid) ''f'' 1 [''#x'', '' a'', ''b''] =
      Inl (InvalidKeySpec ''f'' 3 ''b'' (ExpectedBoolean []))"
    by code_simp
  then have "parseKeyFile (\<lambda>k. if k = ''b'' then Inl (ExpectedBoolean []) else Inr ScvVoid) sample_file ''f'' =
      Inl (InvalidKeySpec ''f'' 3 ''b'' (ExpectedBoolean []))"
    by (simp add: parseKeyFile_def sample_lines)
  from key_file_refused [OF this] this show ?thesis by simp
qed

text \<open>
  C27. The default time-out reaches exactly the checks that name none: written as text and read back,
  it is the very duration that was given.
\<close>

theorem default_timeout_applied:
  assumes "0 <s d"
  shows "map checkTimeout (bq_Checks (applyDefaultTimeout d req)) =
    map (\<lambda>c. if nc_Timeout c = [] then Inr d else checkTimeout c) (bq_Checks req)"
proof -
  have "duration_String d \<noteq> []" by (simp add: duration_String_def hd_duration_text)
  moreover have "\<not> d <s 0" "\<not> d \<le>s 0" using assms by (simp_all add: word_sless_alt word_sle_eq)
  ultimately show ?thesis
    by (simp add: applyDefaultTimeout_def checkTimeout_def checkName_def parse_duration_String)
qed

lemma default_timeout_applied_witness:
  "map checkTimeout (bq_Checks (applyDefaultTimeout 1500000000
     \<lparr>bq_Checks = [sample_named [], sample_named ''2s''], bq_Concurrency = 1\<rparr>)) =
     [Inr 1500000000, checkTimeout (sample_named ''2s'')]"
proof -
  have "(0 :: duration) <s 1500000000" by (simp add: word_sless_alt)
  from default_timeout_applied [OF this] show ?thesis
    by (simp only: batch_request.select_convs list.map sample_named_def named_check.select_convs if_True refl
        list.distinct if_False)
qed

text \<open>Not a number is a percentage: with it the cost gate never trips on a figure that was not zero.\<close>

lemma nan_percentage_accepted: "parseMaxIncrease ''nan%'' True = Inr (Some NaN)"
  by code_simp

text \<open>
  Thresholds of zero, which validation accepts, are what the prober takes for unset: it runs with
  the default ones instead.
\<close>

lemma zero_thresholds_replaced:
  assumes "cfg_WarnLedgers c = 0" "cfg_CriticalLedgers c = 0" "newLiveProber L c ch w = Inr (P, s)"
  shows "p_thresholds P = DefaultThresholds"
  using assms by (auto simp: newLiveProber_def New_def rbind_eq_Inr rmap_err_eq_Inr Let_def split: if_splits)


end
