(* ===== verification/Cli_Output.thy ===== *)
theory Cli_Output
  imports Annotations Simulate
begin

text \<open>
  The reports on the terminal, \<^verbatim>\<open>cmd/soroprobe/output.go\<close>. A renderer is the list of texts its
  \<^verbatim>\<open>printf\<close> calls produce, in order; \<open>buf_print\<close> is \<^verbatim>\<open>bufWriter\<close>, which writes them until the
  first error. \<^verbatim>\<open>json.Marshal\<close> cannot fail on the values decoded here, so the branches for its
  error are left out. Status and outcome texts, padding and numbers are those of the code.
\<close>

section \<open>Buffered writing\<close>

type_synonym 'o writer = "string \<Rightarrow> 'o \<Rightarrow> string option \<times> 'o"

fun buf_print :: "'o writer \<Rightarrow> string list \<Rightarrow> 'o \<Rightarrow> string option \<times> 'o" where
  "buf_print wr [] out = (None, out)"
| "buf_print wr (t # ts) out =
     (case wr t out of (Some e, out') \<Rightarrow> (Some e, out') | (None, out') \<Rightarrow> buf_print wr ts out')"

section \<open>Styling\<close>

definition esc :: char where "esc = CHR 0x1B"
definition ansiReset :: string where "ansiReset = esc # ''[0m''"
definition ansiBold :: string where "ansiBold = esc # ''[1m''"
definition ansiDim :: string where "ansiDim = esc # ''[2m''"
definition ansiRed :: string where "ansiRed = esc # ''[31m''"
definition ansiGreen :: string where "ansiGreen = esc # ''[32m''"
definition ansiYellow :: string where "ansiYellow = esc # ''[33m''"
definition ansiCyan :: string where "ansiCyan = esc # ''[36m''"

text \<open>\<open>terminal\<close> says whether the writer is a character device, if it is a file that can be asked.\<close>

definition colorEnabled :: "(string \<rightharpoonup> string) \<Rightarrow> bool option \<Rightarrow> bool" where
  "colorEnabled env terminal = (env ''NO_COLOR'' = None \<and> terminal = Some True)"

definition wrap :: "bool \<Rightarrow> string \<Rightarrow> string \<Rightarrow> string" where
  "wrap on code' t = (if on then code' @ t @ ansiReset else t)"

definition bold :: "bool \<Rightarrow> string \<Rightarrow> string" where "bold on = wrap on ansiBold"
definition dim :: "bool \<Rightarrow> string \<Rightarrow> string" where "dim on = wrap on ansiDim"
definition green :: "bool \<Rightarrow> string \<Rightarrow> string" where "green on = wrap on ansiGreen"
definition red :: "bool \<Rightarrow> string \<Rightarrow> string" where "red on = wrap on ansiRed"
definition cyan :: "bool \<Rightarrow> string \<Rightarrow> string" where "cyan on = wrap on ansiCyan"

definition status_line :: "bool \<Rightarrow> status \<Rightarrow> string" where
  "status_line on st =
     (case st of
        StatusHealthy \<Rightarrow> wrap on ansiGreen ''OK       healthy''
      | StatusWarning \<Rightarrow> wrap on ansiYellow ''WARN     expiring soon''
      | StatusCritical \<Rightarrow> wrap on ansiRed ''CRITICAL expiring very soon''
      | StatusExpired \<Rightarrow> wrap on ansiRed ''EXPIRED  ttl has lapsed''
      | StatusMissing \<Rightarrow> wrap on ansiRed ''MISSING  not on ledger''
      | _ \<Rightarrow> wrap on ansiDim ''UNKNOWN  no ttl reported'')"

definition outcome_line :: "bool \<Rightarrow> check_outcome \<Rightarrow> string" where
  "outcome_line on outcome =
     (case outcome of
        OutcomePass \<Rightarrow> wrap on ansiGreen ''PASS''
      | OutcomeWarn \<Rightarrow> wrap on ansiYellow ''WARN''
      | OutcomeFail \<Rightarrow> wrap on ansiRed ''FAIL''
      | OutcomeSkip \<Rightarrow> wrap on ansiDim ''SKIP'')"

definition xlm :: "i64 \<Rightarrow> string" where
  "xlm n = fmt_fixed False 7 (fdiv (f_of_int (sint n)) (Fin 10000000))"

definition stroops :: "i64 \<Rightarrow> string" where
  "stroops n = itoa (sint n) @ '' stroops ('' @ xlm n @ '' XLM)''"

definition formatPercent :: "f64 \<Rightarrow> string" where
  "formatPercent v = fmt_g v @ ''%''"

text \<open>The newline-terminated line most \<^verbatim>\<open>printf\<close> calls write.\<close>

definition ln :: "string \<Rightarrow> string" where "ln s = s @ newline"

section \<open>Texts\<close>

definition truncate' :: "string \<Rightarrow> nat \<Rightarrow> string" where
  "truncate' value limit =
     (let rs = runes value in if length rs \<le> limit then value else concat (take (limit - 3) rs) @ ''...'')"

definition trim_newlines :: "string \<Rightarrow> string" where
  "trim_newlines s = rev (dropWhile (\<lambda>c. c = lf) (rev s))"

definition indent :: "string \<Rightarrow> string \<Rightarrow> string" where
  "indent s pre = join newline (map (\<lambda>line. pre @ line) (split_on lf (trim_newlines s)))"

definition markdown_pairs :: "(string \<times> string) list" where
  "markdown_pairs =
     [([CHR 0x5C], [CHR 0x5C, CHR 0x5C]), (''|'', [CHR 0x5C, CHR ''|'']), (''`'', [CHR 0x5C, CHR ''`'']),
      ([cr, lf], ''<br>''), ([lf], ''<br>''), ([cr], ''<br>'')]"

definition markdownCell :: "string \<Rightarrow> string" where
  "markdownCell = replacer markdown_pairs"

text \<open>The notes of reports, as their packages word them.\<close>

definition close_time_text :: "close_time_note \<Rightarrow> string" where
  "close_time_text note' =
     (case note' of
        NoteTarget \<Rightarrow> ''recent ledger close time unavailable; duration estimates use the 5-second target''
      | NoteMeasured d \<Rightarrow>
          ''duration estimates use measured average ledger close time of '' @ duration_String d)"

definition abi_note_text :: "texts \<Rightarrow> abi_note \<Rightarrow> string" where
  "abi_note_text T n =
     (case n of
        NoAbiNote \<Rightarrow> []
      | AbiNoteUnknown \<Rightarrow> ''contract not found in the interface registry; argument types were inferred''
      | AbiNoteNoWasm \<Rightarrow> ''stellar asset contract has no WASM interface; argument types were inferred''
      | AbiNoteUnavailable e \<Rightarrow> ''interface registry unavailable; argument types were inferred: '' @ te_abi T e)"

definition extend_note_text :: "extend_note \<Rightarrow> string" where
  "extend_note_text n =
     (case n of
        NoteNone \<Rightarrow> []
      | NoteNotOnLedger \<Rightarrow> ''the entry is not on the ledger, so there is nothing to extend''
      | NoteExpired \<Rightarrow> ''the entry has expired; it must be restored before it can be extended''
      | NoteNoTTL \<Rightarrow> ''the entry reported no TTL, so there is nothing to extend'')"

definition storage_value :: "texts \<Rightarrow> storage_report \<Rightarrow> jval option" where
  "storage_value T s =
     (case s of NoStorage \<Rightarrow> None | Storage v \<Rightarrow> Some v
      | StorageFailed e \<Rightarrow> Some (JObject [(''error'', JString (te_storage T e))]))"

section \<open>Simulations\<close>

fun renderAuthorizedInvocation :: "string \<Rightarrow> authorized_invocation \<Rightarrow> string list" where
  "renderAuthorizedInvocation ind (AuthorizedInvocation c f args subs) =
     ln (ind @ (if c \<noteq> [] then c @ ''::'' @ f else f) @ ''('' @ join '', '' (map json_marshal args) @ '')'') #
     concat (map (renderAuthorizedInvocation (ind @ ''  '')) subs)"

definition plus_int :: "int \<Rightarrow> string" where
  "plus_int i = (if 0 \<le> i then CHR ''+'' # itoa i else itoa i)"

definition renderCostComparison :: "bool \<Rightarrow> cost_comparison \<Rightarrow> string list" where
  "renderCostComparison on c =
     [newline @ ln (bold on ''cost compared to the baseline'')] @
     map (\<lambda>f. ln (''  '' @ pad_right 22 (cc_Name f) @ '' '' @ itoa (sint (cc_Baseline f)) @ '' -> '' @
       itoa (sint (cc_Current f)) @ ''  ('' @ plus_int (sint (cc_Delta f)) @ '', '' @
       (case cc_Percent f of None \<Rightarrow> ''n/a'' | Some p \<Rightarrow> fmt_fixed True 1 p @ ''%'') @ '')'')) (cmp_Figures c) @
     (case cmp_MaxIncreasePercent c of
        Some p \<Rightarrow> if Exceeded c
          then [ln (''  '' @ red on (''a cost figure grew by more than '' @ formatPercent p))] else []
      | None \<Rightarrow> [])"

definition renderCostSpread :: "bool \<Rightarrow> spread_report \<Rightarrow> string list" where
  "renderCostSpread on sp =
     [newline @ ln (bold on (''cost across '' @ itoa (int (Runs sp)) @ '' runs''))] @
     map (\<lambda>f. ln (''  '' @ pad_right 22 (fs_Name f) @ '' '' @ itoa (sint (fs_Min f)) @ ''..'' @
       itoa (sint (fs_Max f)) @ ''  (spread '' @ itoa (sint (fs_Spread f)) @ '', '' @
       (case fs_Percent f of None \<Rightarrow> ''n/a'' | Some p \<Rightarrow> fmt_fixed False 1 p @ ''%'') @ '')'')) (sp_Figures sp) @
     (if FootprintChanges sp \<noteq> []
      then ln (''  '' @ dim on ''footprint changed between runs:'') #
        map (\<lambda>k. ln (''    '' @ k)) (FootprintChanges sp) else []) @
     (case sp_MaxSpreadPercent sp of
        Some p \<Rightarrow> if Noisy sp
          then [ln (''  '' @ red on (''the cost varied by more than '' @ formatPercent p @ '' across identical runs''))]
          else []
      | None \<Rightarrow> [])"

definition render_call :: "texts \<Rightarrow> bool \<Rightarrow> simulate_result \<Rightarrow> string list" where
  "render_call T on r =
     [ln (bold on ''contract'' @ '' '' @ sm_ContractID r),
      ln (bold on ''function'' @ '' '' @ (if sm_Signature r \<noteq> [] then sm_Signature r else sm_Function r))] @
     (if sm_EncodedArgs r \<noteq> [] then [ln (bold on ''encoded '' @ '' '' @ join '' '' (sm_EncodedArgs r))] else []) @
     (if abi_note_text T (sm_ABINote r) \<noteq> []
      then [ln (dim on (''note: '' @ abi_note_text T (sm_ABINote r)))] else []) @
     [newline]"

definition render_verdict :: "bool \<Rightarrow> simulate_result \<Rightarrow> string list" where
  "render_verdict on r =
     (if sm_Success r
      then [ln (green on ''SUCCESS  the call would succeed''),
        newline @ ln (bold on ''return value'') @ ln (''  '' @
          (if sm_ReturnValue r \<noteq> JNull then json_marshal (sm_ReturnValue r) else ''(void)''))]
      else [ln (red on ''FAILED   the call would fail''), ln (indent (sm_Error r) ''  '')])"

definition render_cost :: "bool \<Rightarrow> cost \<Rightarrow> string list" where
  "render_cost on c =
     [newline @ ln (bold on ''resource cost''),
      ln (''  cpu instructions   '' @ itoa (uint (Instructions c))),
      ln (''  disk read bytes    '' @ itoa (uint (DiskReadBytes c))),
      ln (''  write bytes        '' @ itoa (uint (WriteBytes c))),
      ln (''  resource fee       '' @ stroops (ResourceFee c)),
      ln (''  min resource fee   '' @ stroops (MinResourceFee c)),
      ln (''  estimated total fee '' @ stroops (EstimatedTotalFee c))]"

definition render_auth :: "bool \<Rightarrow> auth_entry list \<Rightarrow> string list" where
  "render_auth on entries =
     (if entries = [] then []
      else [newline @ ln (bold on ''authorizations'')] @ concat (map (\<lambda>a.
        if ae_RawXDR a \<noteq> [] then [ln (''  '' @ dim on ''raw xdr:'' @ '' '' @ ae_RawXDR a)]
        else ln (''  '' @ cyan on (ae_Address a) @
            (if ae_IsSourceAccount a then dim on '' (source account)'' else [])) #
          (case ae_RootInvocation a of None \<Rightarrow> [] | Some i \<Rightarrow> renderAuthorizedInvocation ''    '' i)) entries))"

definition render_footprint :: "bool \<Rightarrow> footprint \<Rightarrow> string list" where
  "render_footprint on f =
     (if ReadOnly f = [] \<and> ReadWrite f = [] then []
      else [newline @ ln (bold on ''footprint'')] @
        map (\<lambda>k. ln (''  '' @ dim on ''read '' @ '' '' @ k)) (ReadOnly f) @
        map (\<lambda>k. ln (''  '' @ cyan on ''write'' @ '' '' @ k)) (ReadWrite f))"

definition render_restore :: "bool \<Rightarrow> restore_info \<Rightarrow> string list" where
  "render_restore on i =
     [newline @ ln (red on ''RESTORE REQUIRED''),
      ln ''  This call touches archived entries. They must be restored before it'',
      ln (''  can run. Restore fee: '' @ stroops (ri_MinResourceFee i))] @
     map (\<lambda>entry. ln (''  archived: '' @ entry)) (ri_ArchivedEntries i)"

definition renderSimulate :: "texts \<Rightarrow> bool \<Rightarrow> simulate_result \<Rightarrow> string list" where
  "renderSimulate T on r =
     render_call T on r @ render_verdict on r @ render_cost on (sm_Cost r) @ render_auth on (sm_Auth r) @
     render_footprint on (sm_Footprint r) @
     (case sm_Comparison r of None \<Rightarrow> [] | Some c \<Rightarrow> renderCostComparison on c) @
     (case sm_Spread r of None \<Rightarrow> [] | Some sp \<Rightarrow> renderCostSpread on sp) @
     (case sm_RestoreRequired r of None \<Rightarrow> [] | Some i \<Rightarrow> render_restore on i) @
     [newline @ ln (dim on (''simulated against ledger '' @ itoa (uint (sm_LatestLedger r))))]"

definition simulate_value :: "simulate_result \<Rightarrow> string" where
  "simulate_value r =
     (let value = (if sm_ReturnValue r \<noteq> JNull then json_marshal (sm_ReturnValue r) else sm_Error r)
      in if value = [] then ''(void)'' else value)"

definition batch_row :: "string \<Rightarrow> string \<Rightarrow> string \<Rightarrow> string \<Rightarrow> string \<Rightarrow> string" where
  "batch_row a b c d e = ln (pad_right 24 a @ '' '' @ pad_right 8 b @ '' '' @ pad_right 48 c @ '' '' @ pad_right 14 d @ '' '' @ e)"

definition renderSimulateBatch :: "texts \<Rightarrow> simulate_item list \<Rightarrow> string list" where
  "renderSimulateBatch T items =
     batch_row ''NAME'' ''SUCCESS'' ''RETURN VALUE'' ''INSTRUCTIONS'' ''FEE'' #
     map (\<lambda>item.
       case si_Outcome item of
         SimulationError e \<Rightarrow> batch_row (truncate' (si_Name item) 24) ''error'' (truncate' (te_error T e) 48) ''-'' ''-''
       | Simulated r \<Rightarrow> batch_row (truncate' (si_Name item) 24) (if sm_Success r then ''true'' else ''false'')
           (truncate' (simulate_value r) 48) (itoa (uint (Instructions (sm_Cost r)))) (stroops (ResourceFee (sm_Cost r)))) items"

section \<open>Inspections\<close>

definition renderEntry :: "bool \<Rightarrow> string \<Rightarrow> entry_report \<Rightarrow> string list" where
  "renderEntry on label e =
     [ln (''  '' @ pad_right 10 label @ '' '' @ status_line on (Status (rep_TTL e))),
      ln (''  '' @ pad_right 10 [] @ '' '' @ dim on (rep_Summary e))]"

definition extend_row :: "bool \<Rightarrow> extend_estimate \<Rightarrow> string" where
  "extend_row on e =
     (let label = (if ee_Key e \<noteq> [] then ee_Kind e @ '' '' @ ee_Key e else ee_Kind e);
          what = extend_note_text (ee_Note e)
      in ln (''  '' @ pad_right 22 label @ '' '' @
        (if what \<noteq> [] then dim on what
         else stroops (ee_ResourceFee e) @ ''  '' @
           dim on (''to ledger '' @ itoa (uint (ee_ExtendTo e)) @ '', '' @ itoa (uint (ee_Ledgers e)) @ '' ledgers''))))"

definition renderExtendEstimates :: "bool \<Rightarrow> extend_estimate list \<Rightarrow> string list" where
  "renderExtendEstimates on estimates =
     (newline @ ln (bold on ''cost to extend'' @ '' '' @ dim on ''(simulated; nothing is submitted)'')) #
     map (extend_row on) estimates"

definition note_line :: "bool \<Rightarrow> close_time_note \<Rightarrow> string" where
  "note_line on n = ln (dim on (''note: '' @ close_time_text n))"

definition ledger_line :: "bool \<Rightarrow> u32 \<Rightarrow> string" where
  "ledger_line on n = ln (dim on (''checked at ledger '' @ itoa (uint n)))"

text \<open>The hash of a report is the hex text of 32 bytes, so its first sixteen characters exist.\<close>

definition renderInspect :: "texts \<Rightarrow> bool \<Rightarrow> inspect_result \<Rightarrow> string list" where
  "renderInspect T on r =
     ln (ln (bold on ''contract'' @ '' '' @ ir_ContractID r)) #
     (if \<not> ir_Deployed r
      then [ln (red on ''NOT DEPLOYED  no contract instance entry found on this network''),
        note_line on (ir_CloseTimeNote r), newline @ ledger_line on (ir_LatestLedger r)]
      else
        [bold on ''executable'' @ '' '' @ ir_Executable r] @
        (if ir_WasmHash r \<noteq> [] then ['' '' @ dim on (take 16 (ir_WasmHash r) @ ''...'')] else []) @
        [newline @ newline @ ln (bold on ''state entries'')] @
        renderEntry on ''instance'' (ir_Instance r) @
        (case ir_Code r of
           Some c \<Rightarrow> renderEntry on ''code'' c
         | None \<Rightarrow> [ln (''  '' @ pad_right 10 ''code'' @ '' '' @ dim on ''n/a  built into the host, no code entry'')]) @
        concat (map (\<lambda>d. renderEntry on (''data '' @ rep_Key d) d) (ir_Data r)) @
        (case storage_value T (ir_InstanceStorage r) of
           None \<Rightarrow> []
         | Some v \<Rightarrow>
             [newline @ ln (bold on ''instance storage'' @ '' '' @ dim on (''(shares the instance entry'' @ [CHR 0x27] @ ''s TTL)'')),
              ln (''  '' @ json_indent ''  '' v)]) @
        (if ir_ExtendEstimates r \<noteq> [] then renderExtendEstimates on (ir_ExtendEstimates r) else []) @
        [newline @ ln (bold on ''overall'' @ '' '' @ status_line on (ir_Status r)),
         note_line on (ir_CloseTimeNote r), ledger_line on (ir_LatestLedger r)])"

section \<open>Checks\<close>

definition renderCheck :: "texts \<Rightarrow> bool \<Rightarrow> check_result \<Rightarrow> string list" where
  "renderCheck T on r =
     ln (ln (bold on ''contract'' @ '' '' @ cr_ContractID r)) #
     map (\<lambda>c. ln (''  '' @ outcome_line on (ck_Outcome c) @ ''  '' @ pad_right 22 (ck_Name c) @ '' '' @
       detail_text T (ck_Detail c))) (cr_Checks r) @
     [newline @ bold on ''result'' @ '' '',
      ln (if cr_OK r then green on ''PASS'' else red on ''FAIL''),
      ledger_line on (cr_LatestLedger r), note_line on (cr_CloseTimeNote r)]"

definition firstNotPassing :: "texts \<Rightarrow> check_result \<Rightarrow> check_outcome \<Rightarrow> string" where
  "firstNotPassing T r outcome =
     (case find (\<lambda>c. ck_Outcome c = outcome) (cr_Checks r) of
        Some c \<Rightarrow> ck_Name c @ '': '' @ detail_text T (ck_Detail c) | None \<Rightarrow> [])"

text \<open>How the reports class an item of a batch, with the detail they give; an item has a result or an
  error.\<close>

datatype item_class = Errored string | Passed string | Failed string

definition item_verdict :: "texts \<Rightarrow> batch_item \<Rightarrow> item_class" where
  "item_verdict T item =
     (case bi_Error item of
        Some e \<Rightarrow> Errored (te_error T e)
      | None \<Rightarrow>
          (case bi_Result item of
             Some r \<Rightarrow> if cr_OK r then Passed (firstNotPassing T r OutcomeWarn) else Failed (firstNotPassing T r OutcomeFail)
           | None \<Rightarrow> Failed []))"

definition count_text :: "item_class list \<Rightarrow> string" where
  "count_text vs =
     itoa (int (length (filter (\<lambda>v. case v of Passed _ \<Rightarrow> True | _ \<Rightarrow> False) vs))) @ '' passed, '' @
     itoa (int (length (filter (\<lambda>v. case v of Failed _ \<Rightarrow> True | _ \<Rightarrow> False) vs))) @ '' failed, '' @
     itoa (int (length (filter (\<lambda>v. case v of Errored _ \<Rightarrow> True | _ \<Rightarrow> False) vs))) @ '' could not run''"

definition renderBatch :: "texts \<Rightarrow> bool \<Rightarrow> batch_result \<Rightarrow> string list" where
  "renderBatch T on r =
     (let width = foldl max 4 (map (\<lambda>i. length (bi_Name i)) (br_Items r)) in
      concat (map (\<lambda>item.
        (case item_verdict T item of
           Errored d \<Rightarrow> ln (''  '' @ red on ''ERROR'' @ ''  '' @ pad_right width (bi_Name item) @ ''  '' @ d)
         | Passed d \<Rightarrow> ln (''  '' @ green on ''PASS '' @ ''  '' @ pad_right width (bi_Name item) @ ''  '' @ d)
         | Failed d \<Rightarrow> ln (''  '' @ red on ''FAIL '' @ ''  '' @ pad_right width (bi_Name item) @ ''  '' @ d)) #
        (case bi_Result item of None \<Rightarrow> []
         | Some c \<Rightarrow> [ln (''  '' @ dim on (''note: '' @ close_time_text (cr_CloseTimeNote c)))])) (br_Items r)) @
      [newline @ ln (bold on ''result'' @ '' '' @ count_text (map (item_verdict T) (br_Items r)))])"

section \<open>Markdown\<close>

definition markdown_row :: "string list \<Rightarrow> string" where
  "markdown_row cells = ln (''| '' @ join '' | '' cells @ '' |'')"

definition outcome_upper :: "check_outcome \<Rightarrow> string" where
  "outcome_upper outcome =
     (case outcome of OutcomePass \<Rightarrow> ''PASS'' | OutcomeWarn \<Rightarrow> ''WARN'' | OutcomeFail \<Rightarrow> ''FAIL'' | OutcomeSkip \<Rightarrow> ''SKIP'')"

definition renderMarkdownCheck :: "texts \<Rightarrow> check_result \<Rightarrow> string list" where
  "renderMarkdownCheck T r =
     [ln (ln (''Contract: '' @ markdownCell (cr_ContractID r) @ '' | Result: **'' @
        (if cr_OK r then ''PASS'' else ''FAIL'') @ ''**'')),
      markdown_row [''Check'', ''Verdict'', ''Details''] @ markdown_row [''---'', ''---'', ''---'']] @
     map (\<lambda>c. markdown_row [markdownCell (ck_Name c), outcome_upper (ck_Outcome c),
       markdownCell (detail_text T (ck_Detail c))]) (cr_Checks r)"

definition renderMarkdownBatch :: "texts \<Rightarrow> batch_result \<Rightarrow> string list" where
  "renderMarkdownBatch T r =
     [ln (ln (''Checks: **'' @ (if br_OK r then ''PASS'' else ''FAIL'') @ ''** ('' @
        count_text (map (item_verdict T) (br_Items r)) @ '')'')),
      markdown_row [''Check'', ''Contract'', ''Verdict'', ''Details''] @ markdown_row [''---'', ''---'', ''---'', ''---'']] @
     map (\<lambda>item. markdown_row ([markdownCell (bi_Name item), markdownCell (bi_ContractID item)] @
       (case item_verdict T item of
          Errored d \<Rightarrow> [''ERROR'', markdownCell d]
        | Passed d \<Rightarrow> [''PASS'', markdownCell d]
        | Failed d \<Rightarrow> [''FAIL'', markdownCell d]))) (br_Items r)"

definition entry_row :: "string \<Rightarrow> entry_report \<Rightarrow> string" where
  "entry_row label e =
     markdown_row [label, markdownCell (status_text (Status (rep_TTL e))), markdownCell (rep_Summary e)]"

definition renderMarkdownInspect :: "inspect_result \<Rightarrow> string list" where
  "renderMarkdownInspect r =
     [ln (ln (''Contract: '' @ markdownCell (ir_ContractID r) @ '' | Status: **'' @
        markdownCell (status_text (ir_Status r)) @ ''**'')),
      markdown_row [''Entry'', ''Verdict'', ''Details''] @ markdown_row [''---'', ''---'', ''---'']] @
     (if \<not> ir_Deployed r
      then [markdown_row [''Deployment'', ''FAIL'', markdownCell (rep_Summary (ir_Instance r))]]
      else [entry_row ''Instance'' (ir_Instance r)] @
        (case ir_Code r of None \<Rightarrow> [] | Some c \<Rightarrow> [entry_row ''Code'' c]) @
        map (\<lambda>d. entry_row (''Data '' @ markdownCell (rep_Key d)) d) (ir_Data r))"

section \<open>Writing\<close>

text \<open>What is written is always a beginning of the report; the error is the first write's.\<close>

lemma buf_print_prefix:
  assumes "\<And>t out e out'. wr t out = (Some e, out') \<Longrightarrow> out' = out"
    and "\<And>t out out'. wr t out = (None, out') \<Longrightarrow> out' = out @ t"
  shows "\<exists>done rest. concat ts = done @ rest \<and> snd (buf_print wr ts out) = out @ done \<and>
    (fst (buf_print wr ts out) = None \<longrightarrow> rest = [])"
proof (induction ts arbitrary: out)
  case (Cons t ts)
  obtain e out' where w: "wr t out = (e, out')" by fastforce
  show ?case
  proof (cases e)
    case None
    then have o: "out' = out @ t" using assms(2) w by simp
    obtain d r where "concat ts = d @ r" "snd (buf_print wr ts out') = out' @ d"
      "fst (buf_print wr ts out') = None \<longrightarrow> r = []" using Cons by blast
    then show ?thesis using w None o by (intro exI [of _ "t @ d"] exI [of _ r]) simp
  next
    case (Some x)
    then show ?thesis using assms(1) w by (intro exI [of _ "[]"] exI [of _ "concat (t # ts)"]) simp
  qed
qed simp

section \<open>Tables\<close>

text \<open>
  The reading side of a Markdown table: a row is split at the bars that no backslash escapes.
\<close>

definition glue :: "string \<Rightarrow> string list \<Rightarrow> string list" where
  "glue s ps = (case ps of [] \<Rightarrow> [s] | p # qs \<Rightarrow> (s @ p) # qs)"

fun split_row :: "string \<Rightarrow> string list" where
  "split_row [] = [[]]"
| "split_row [c] = (if c = CHR ''|'' then [[], []] else [[c]])"
| "split_row (c # d # cs) =
     (if c = CHR 0x5C then glue [c, d] (split_row cs)
      else if c = CHR ''|'' then [] # split_row (d # cs)
      else glue [c] (split_row (d # cs)))"

lemma glue_glue [simp]: "glue s (glue t ps) = glue (s @ t) ps"
  by (simp add: glue_def split: list.split)

lemma glue_Nil: "ps \<noteq> [] \<Longrightarrow> glue [] ps = ps"
  by (simp add: glue_def split: list.split)

lemma split_row_nonempty [simp]: "split_row s \<noteq> []"
  by (induction s rule: split_row.induct) (auto simp: glue_def split: list.split)

lemma split_row_bar: "split_row (CHR ''|'' # s) = [] # split_row s"
  by (cases s) simp_all

lemma split_row_plain: "c \<noteq> CHR ''|'' \<Longrightarrow> c \<noteq> CHR 0x5C \<Longrightarrow> split_row (c # s) = glue [c] (split_row s)"
  by (cases s) (simp_all add: glue_def)

lemma split_row_escaped: "split_row (CHR 0x5C # d # s) = glue [CHR 0x5C, d] (split_row s)"
  by simp

text \<open>A text that stays within one cell and one line.\<close>

definition one_cell :: "string \<Rightarrow> bool" where
  "one_cell s \<longleftrightarrow> cr \<notin> set s \<and> lf \<notin> set s \<and> (\<forall>rest. split_row (s @ rest) = glue s (split_row rest))"

lemma one_cell_Nil [simp]: "one_cell []"
  by (simp add: one_cell_def glue_Nil)

lemma one_cell_append: "one_cell s \<Longrightarrow> one_cell t \<Longrightarrow> one_cell (s @ t)"
  by (simp add: one_cell_def)

lemma one_cell_plain:
  "list_all (\<lambda>c. c \<noteq> CHR ''|'' \<and> c \<noteq> CHR 0x5C \<and> c \<noteq> cr \<and> c \<noteq> lf) s \<Longrightarrow> one_cell s"
proof (induction s)
  case (Cons c s)
  then have "one_cell [c]" by (auto simp: one_cell_def split_row_plain)
  from one_cell_append [OF this] Cons show ?case by simp
qed simp

lemma one_cell_escape: "d \<noteq> cr \<Longrightarrow> d \<noteq> lf \<Longrightarrow> one_cell [CHR 0x5C, d]"
  by (simp add: one_cell_def split_row_escaped cr_def lf_def)

lemma markdown_pairs_safe: "p \<in> set markdown_pairs \<Longrightarrow> one_cell (snd p)"
proof -
  have br: "one_cell ''<br>''" by (rule one_cell_plain) (simp add: cr_def lf_def)
  have "one_cell [CHR 0x5C, CHR 0x5C]" "one_cell [CHR 0x5C, CHR ''|'']" "one_cell [CHR 0x5C, CHR ''`'']"
    by (rule one_cell_escape; simp add: cr_def lf_def)+
  with br show "p \<in> set markdown_pairs \<Longrightarrow> one_cell (snd p)" unfolding markdown_pairs_def by auto
qed

lemma markdown_pairs_None:
  "find (\<lambda>p. prefix (fst p) (c # cs)) markdown_pairs = None \<Longrightarrow> one_cell [c]"
  by (rule one_cell_plain) (auto simp: markdown_pairs_def split: if_splits)

lemma find_in: "find P xs = Some x \<Longrightarrow> x \<in> set xs"
  by (induction xs) (auto split: if_splits)

lemma one_cell_markdown: "one_cell (markdownCell s)"
  unfolding markdownCell_def
proof (induction markdown_pairs s rule: replacer.induct)
  case (2 c cs)
  show ?case
  proof (cases "find (\<lambda>p. prefix (fst p) (c # cs)) markdown_pairs")
    case None
    from one_cell_append [OF markdown_pairs_None [OF this] 2(1) [OF None]] show ?thesis
      by (simp only: replacer.simps None option.case append_Cons append_Nil)
  next
    case (Some p)
    then have "p \<in> set markdown_pairs" by (rule find_in)
    from one_cell_append [OF markdown_pairs_safe [OF this] 2(2) [OF Some]] show ?thesis
      by (simp only: replacer.simps Some option.case)
  qed
qed simp

text \<open>A row of such cells is one line, and reads as exactly these cells.\<close>

definition reads_as_row :: "string list \<Rightarrow> string \<Rightarrow> bool" where
  "reads_as_row cells row \<longleftrightarrow>
     (\<exists>line. row = line @ newline \<and> cr \<notin> set line \<and> lf \<notin> set line \<and>
        split_row line = [[]] @ map (\<lambda>c. '' '' @ c @ '' '') cells @ [[]])"

lemma one_cell_padded: "one_cell s \<Longrightarrow> one_cell ('' '' @ s @ '' '')"
proof -
  assume s: "one_cell s"
  have sp: "one_cell '' ''" by (rule one_cell_plain) (simp add: cr_def lf_def)
  show ?thesis by (rule one_cell_append [OF sp one_cell_append [OF s sp]])
qed

lemma split_row_cells:
  "list_all one_cell cells \<Longrightarrow> cells \<noteq> [] \<Longrightarrow>
     split_row ('' '' @ join '' | '' cells @ '' |'') = map (\<lambda>c. '' '' @ c @ '' '') cells @ [[]]"
proof (induction cells rule: induct_list012)
  case (2 s)
  have "one_cell ('' '' @ s @ '' '')"
    using 2 by (intro one_cell_padded) simp
  then show ?case using split_row_bar [of "[]"] by (simp add: one_cell_def glue_def)
next
  case (3 s t ts)
  have "one_cell ('' '' @ s @ '' '')"
    using 3 by (intro one_cell_padded) simp
  then show ?case using 3 by (simp add: one_cell_def split_row_bar glue_def)
qed simp

lemma one_cell_join:
  "list_all one_cell cells \<Longrightarrow> cr \<notin> set (join '' | '' cells) \<and> lf \<notin> set (join '' | '' cells)"
  by (induction cells rule: induct_list012) (auto simp: one_cell_def cr_def lf_def)

lemma markdown_row_reads:
  assumes "list_all one_cell cells" "cells \<noteq> []"
  shows "reads_as_row cells (markdown_row cells)"
  unfolding reads_as_row_def
proof (intro exI conjI)
  show "markdown_row cells = (''|'' @ '' '' @ join '' | '' cells @ '' |'') @ newline"
    by (simp add: markdown_row_def ln_def)
  show "split_row (''|'' @ '' '' @ join '' | '' cells @ '' |'') = [[]] @ map (\<lambda>c. '' '' @ c @ '' '') cells @ [[]]"
    using split_row_cells [OF assms] split_row_bar by simp
qed (use one_cell_join [OF assms(1)] in \<open>auto simp: cr_def lf_def\<close>)

definition verdict_cells :: "item_class \<Rightarrow> string list" where
  "verdict_cells v =
     (case v of Errored d \<Rightarrow> [''ERROR'', markdownCell d] | Passed d \<Rightarrow> [''PASS'', markdownCell d]
      | Failed d \<Rightarrow> [''FAIL'', markdownCell d])"

definition batch_cells :: "texts \<Rightarrow> batch_item \<Rightarrow> string list" where
  "batch_cells T item =
     [markdownCell (bi_Name item), markdownCell (bi_ContractID item)] @ verdict_cells (item_verdict T item)"

definition check_cells :: "texts \<Rightarrow> check_item \<Rightarrow> string list" where
  "check_cells T c =
     [markdownCell (ck_Name c), outcome_upper (ck_Outcome c), markdownCell (detail_text T (ck_Detail c))]"

lemma one_cell_literals:
  "one_cell ''ERROR''" "one_cell ''PASS''" "one_cell ''FAIL''" "one_cell (outcome_upper outcome)"
  by (rule one_cell_plain; simp add: outcome_upper_def cr_def lf_def split: check_outcome.split)+

lemma batch_cells_safe: "list_all one_cell (batch_cells T item)" "batch_cells T item \<noteq> []"
  by (auto simp: batch_cells_def verdict_cells_def one_cell_markdown one_cell_literals split: item_class.split)

lemma check_cells_safe: "list_all one_cell (check_cells T c)" "check_cells T c \<noteq> []"
  by (auto simp: check_cells_def one_cell_markdown one_cell_literals)


section \<open>Amounts\<close>

lemma rne_near:
  assumes "\<bar>y - of_int n\<bar> < 1 / 2"
  shows "rne y = n"
proof (cases "of_int n \<le> y")
  case True
  then have "\<lfloor>y\<rfloor> = n" using assms by (intro floor_unique) linarith+
  then show ?thesis using assms True by (simp add: rne_def Let_def)
next
  case False
  then have "\<lfloor>y\<rfloor> = n - 1" using assms by (intro floor_unique) (unfold of_int_diff of_int_1, linarith+)
  then show ?thesis using assms False by (simp add: rne_def Let_def)
qed

lemma xlm_digits:
  assumes "0 \<le> n" "n < 2 ^ 51"
  obtains y where "fdiv (f_of_int n) (Fin 10000000) = Fin y" "rne (\<bar>y\<bar> * 10 ^ 7) = n" "0 \<le> y"
proof -
  have n: "f_of_int n = Fin (of_int n)" using assms by (intro f_of_int_exact) simp
  have x: "\<bar>of_int n / 10000000 :: rat\<bar> \<le> 2 ^ 28" using assms by (simp add: divide_le_eq)
  obtain y where y: "fl (of_int n / 10000000) = Fin y" "\<bar>y - of_int n / 10000000\<bar> \<le> 2 ^ 28 / 2 ^ 53"
    using fl_error [OF x] by auto
  have pos: "0 \<le> y" using fl_nonneg [of "of_int n / 10000000"] assms(1) y(1) by simp
  have "y * 10 ^ 7 - of_int n = (y - of_int n / 10000000) * 10 ^ 7" by (simp add: algebra_simps)
  then have "\<bar>y * 10 ^ 7 - of_int n\<bar> = \<bar>y - of_int n / 10000000\<bar> * 10 ^ 7" by (simp only: abs_mult) simp
  also have "\<dots> \<le> 2 ^ 28 / 2 ^ 53 * 10 ^ 7" using y(2) by (intro mult_right_mono) simp_all
  also have "\<dots> < 1 / 2" by simp
  finally have "\<bar>y * 10 ^ 7 - of_int n\<bar> < 1 / 2" .
  from rne_near [OF this] pos y(1) n that show ?thesis by simp
qed

text \<open>
  C28. An amount in XLM is exact, all seven decimals, below 2^51 stroops (some 225 million XLM), although
  it is divided in floating point.
\<close>

theorem amounts_exact:
  assumes "0 \<le> sint n" "sint n < 2 ^ 51"
  shows "stroops n = itoa (sint n) @ '' stroops ('' @ itoa (sint n div 10000000) @ ''.'' @
    zero_pad 7 (nat (sint n mod 10000000)) @ '' XLM)''"
proof -
  define i where "i = sint n"
  have i: "0 \<le> i" "i < 2 ^ 51" using assms by (simp_all add: i_def)
  obtain y where y: "fdiv (f_of_int i) (Fin 10000000) = Fin y" "rne (\<bar>y\<bar> * 10 ^ 7) = i" "0 \<le> y"
    using xlm_digits [OF i] by blast
  have parts: "nat i div 10 ^ 7 = nat (i div 10000000)" "nat i mod 10 ^ 7 = nat (i mod 10000000)"
    using i(1) by (simp_all add: nat_div_distrib nat_mod_distrib)
  have pos: "\<not> i div 10000000 < 0" using i(1) by (simp add: pos_imp_zdiv_nonneg_iff not_less)
  have "xlm n = nat_digits (nat (i div 10000000)) @ ''.'' @ zero_pad 7 (nat (i mod 10000000))"
    unfolding xlm_def i_def [symmetric] y(1) fmt_fixed.simps y(2) Let_def parts
    using y(3) by (simp add: sign_text_def)
  moreover have "itoa (i div 10000000) = nat_digits (nat (i div 10000000))"
    unfolding itoa_def using pos by (simp only: if_False)
  ultimately show ?thesis unfolding stroops_def i_def [symmetric] by (simp only: append_assoc)
qed

lemma amounts_exact_witness: "stroops 25 = ''25 stroops (0.0000025 XLM)''"
proof -
  have s: "sint (25 :: i64) = 25" by simp
  have "itoa 25 @ '' stroops ('' @ itoa (25 div 10000000) @ ''.'' @
    zero_pad 7 (nat (25 mod 10000000)) @ '' XLM)'' = ''25 stroops (0.0000025 XLM)''"
    by code_simp
  with amounts_exact [of 25, unfolded s] show ?thesis by simp
qed

end
