(* ===== verification/Cli.thy ===== *)
theory Cli
  imports Cli_Inputs Cli_Output Http_Api
begin

text \<open>
  The commands of \<^verbatim>\<open>cmd/soroprobe\<close>: \<^verbatim>\<open>simulate\<close>, \<^verbatim>\<open>inspect\<close>, \<^verbatim>\<open>check\<close> and \<^verbatim>\<open>serve\<close> of
  \<^verbatim>\<open>commands.go\<close>, the report file of \<^verbatim>\<open>report.go\<close> and the exit codes of \<^verbatim>\<open>main.go\<close>. A command is an
  operation on the standard output, the report file and the prober's state; files, decoders and
  the JSON encoding of results are the fields of \<open>host\<close>. \<^verbatim>\<open>cobra\<close> checks the arguments, then
  resolves the configuration, then runs the command.
\<close>

section \<open>The host\<close>

datatype report =
    ReportSimulate simulate_result
  | ReportCalls "simulate_item list"
  | ReportInspect inspect_result
  | ReportCheck check_result
  | ReportBatch batch_result

record 'o host =
  ho_open :: "string \<Rightarrow> (string, string) result"
  ho_stdin :: string
  ho_create :: "string \<Rightarrow> string option"
  ho_write_report :: "string \<Rightarrow> string option"
  ho_close :: "string option"
  ho_out :: "'o writer"
  ho_terminal :: "bool option"
  ho_env :: "string \<rightharpoonup> string"
  ho_json :: "report \<Rightarrow> string"
  ho_texts :: texts
  ho_checks :: "bool \<Rightarrow> string \<Rightarrow> (string, batch_request) result"
  ho_calls :: "string \<Rightarrow> (string, named_simulation list) result"
  ho_baseline :: "string \<Rightarrow> (string, baseline) result"
  ho_encode :: "string \<Rightarrow> (encode_error, scval) result"

record ('w, 'o) cli_state =
  cs_out :: 'o
  cs_report :: "string option"
  cs_probe :: "'w pstate option"

section \<open>Errors and exit codes\<close>

datatype args_error =
    CallAndFile | BaselineWithFile | MaxIncreaseWithFile | RepeatWithFile | MaxSpreadWithFile
  | ContractAndFile | KeyFileWithFile | WrongArgCount nat

datatype failure =
    BadArgs args_error
  | ResolveFailed resolve_error
  | BadFlag flag_error
  | BadKeys key_error
  | CreateReport string string
  | WriteFailed string
  | WriteReport string
  | CloseReport string
  | ReadInput string string
  | ParseInput string string
  | StartFailed start_error
  | ProbeFailed error
  | ChecksNotRun
  | CallsNotRun
  | ServeTLSPair

datatype check_failed =
    CostGrew f64
  | CostVaried f64 nat
  | CheckFailedFor string
  | ChecksFailed

text \<open>\<^verbatim>\<open>checkFailedError\<close>, or any other error.\<close>

datatype cli_error = CheckFailed check_failed | Runtime failure

text \<open>
  The error of a command is what \<^verbatim>\<open>errors.Join\<close> joined, nil being the empty list; \<^verbatim>\<open>errors.As\<close>
  looks into all of them.
\<close>

fun is_check_failed :: "cli_error \<Rightarrow> bool" where
  "is_check_failed (CheckFailed _) = True"
| "is_check_failed (Runtime _) = False"

definition exit_code :: "cli_error list \<Rightarrow> nat" where
  "exit_code errs = (if errs = [] then 0 else if list_ex is_check_failed errs then 1 else 2)"

section \<open>Output\<close>

type_synonym ('w, 'o, 'a) cop = "(('w, 'o) cli_state, cli_error, 'a) op"

definition print :: "'o host \<Rightarrow> string list \<Rightarrow> ('w, 'o, unit) cop" where
  "print H ts = (\<lambda>cs. case buf_print (ho_out H) ts (cs_out cs) of (e, out) \<Rightarrow>
     (case e of None \<Rightarrow> Inr () | Some t \<Rightarrow> Inl (Runtime (WriteFailed t)), cs\<lparr>cs_out := out\<rparr>))"

definition print_anyway :: "'o host \<Rightarrow> string list \<Rightarrow> ('w, 'o, unit) cop" where
  "print_anyway H ts = emodify (\<lambda>cs. cs\<lparr>cs_out := fold (\<lambda>t out. snd (ho_out H t out)) ts (cs_out cs)\<rparr>)"

definition writeJSON :: "'o host \<Rightarrow> report \<Rightarrow> ('w, 'o, unit) cop" where
  "writeJSON H r = print H [ho_json H r]"

definition color :: "'o host \<Rightarrow> bool" where
  "color H = colorEnabled (ho_env H) (ho_terminal H)"

definition inGitHubActions :: "'o host \<Rightarrow> bool" where
  "inGitHubActions H \<longleftrightarrow> ho_env H ''GITHUB_ACTIONS'' \<noteq> None"

text \<open>The report file, none for an empty path.\<close>

definition write_report :: "'o host \<Rightarrow> string \<Rightarrow> report \<Rightarrow> ('w, 'o, unit) cop" where
  "write_report H path r =
     (if path = [] then eret ()
      else case ho_write_report H (ho_json H r) of
          Some e \<Rightarrow> ethrow (Runtime (WriteReport e))
        | None \<Rightarrow> emodify (\<lambda>cs. cs\<lparr>cs_report := Some (ho_json H r)\<rparr>))"

definition close_report :: "'o host \<Rightarrow> string \<Rightarrow> cli_error list" where
  "close_report H path =
     (if path = [] then [] else case ho_close H of None \<Rightarrow> [] | Some e \<Rightarrow> [Runtime (CloseReport e)])"

definition errors_of :: "(cli_error, 'a) result \<Rightarrow> cli_error list" where
  "errors_of r = (case r of Inl e \<Rightarrow> [e] | Inr _ \<Rightarrow> [])"

text \<open>\<^verbatim>\<open>openReport\<close>, the rest of the command, and the deferred \<^verbatim>\<open>close\<close>.\<close>

definition with_report ::
    "'o host \<Rightarrow> string \<Rightarrow> ('w, 'o, unit) cop \<Rightarrow> ('w, 'o) cli_state \<Rightarrow> cli_error list \<times> ('w, 'o) cli_state" where
  "with_report H path body cs =
     (case if path = [] then None else ho_create H path of
        Some e \<Rightarrow> ([Runtime (CreateReport path e)], cs)
      | None \<Rightarrow> (case body cs of (r, cs') \<Rightarrow> (errors_of r @ close_report H path, cs')))"

section \<open>Probing\<close>

definition on_prober :: "'w pstate \<Rightarrow> ('w, 'a) pop \<Rightarrow> ('w, 'o, 'a) cop" where
  "on_prober s m = (\<lambda>cs. case m s of (r, t) \<Rightarrow>
     (rmap_err (\<lambda>e. Runtime (ProbeFailed e)) r, cs\<lparr>cs_probe := Some t\<rparr>))"

definition runtime :: "('e \<Rightarrow> failure) \<Rightarrow> ('e, 'a) result \<Rightarrow> ('w, 'o, 'a) cop" where
  "runtime f r = elift (rmap_err (\<lambda>e. Runtime (f e)) r)"

definition read_input :: "'o host \<Rightarrow> string \<Rightarrow> (string, string) result" where
  "read_input H path = (if path = ''-'' then Inr (ho_stdin H) else ho_open H path)"

text \<open>\<^verbatim>\<open>readBatch\<close> and \<^verbatim>\<open>readSimulateBatch\<close>.\<close>

definition readBatch :: "'o host \<Rightarrow> string \<Rightarrow> (failure, batch_request) result" where
  "readBatch H path =
     rbind (rmap_err (ReadInput path) (read_input H path)) (\<lambda>text'.
     rmap_err (ParseInput path) (ho_checks H (yaml_file path) text'))"

definition readSimulateBatch :: "'o host \<Rightarrow> string \<Rightarrow> (failure, named_simulation list) result" where
  "readSimulateBatch H path =
     rbind (rmap_err (ReadInput path) (read_input H path)) (\<lambda>text'.
     rmap_err (ParseInput path) (ho_calls H text'))"

definition readBaseline :: "'o host \<Rightarrow> string \<Rightarrow> (failure, baseline option) result" where
  "readBaseline H path =
     (if path = [] then Inr None
      else rbind (rmap_err (ReadInput path) (ho_open H path)) (\<lambda>raw.
        rbind (rmap_err (ParseInput path) (ho_baseline H raw)) (\<lambda>b. Inr (Some b))))"

type_synonym 'w starter = "config \<Rightarrow> (start_error, 'w prober \<times> 'w pstate) result"

section \<open>simulate\<close>

record simulate_flags =
  sf_report :: string
  sf_file :: string
  sf_baseline :: string
  sf_maxIncrease :: string
  sf_repeat :: int
  sf_maxSpread :: string
  sf_json :: bool

definition simulate_args_ok :: "simulate_flags \<Rightarrow> string list \<Rightarrow> args_error option" where
  "simulate_args_ok f args =
     (if sf_file f \<noteq> [] then
        (if args \<noteq> [] then Some CallAndFile
         else if sf_baseline f \<noteq> [] then Some BaselineWithFile
         else if sf_maxIncrease f \<noteq> [] then Some MaxIncreaseWithFile
         else if 1 < sf_repeat f then Some RepeatWithFile
         else if sf_maxSpread f \<noteq> [] then Some MaxSpreadWithFile
         else None)
      else if length args < 2 then Some (WrongArgCount (length args)) else None)"

text \<open>What the result of a simulation makes of the exit, after everything is written.\<close>

definition grew :: "simulate_result \<Rightarrow> bool" where
  "grew r = (case sm_Comparison r of Some c \<Rightarrow> Exceeded c | None \<Rightarrow> False)"

definition varied :: "simulate_result \<Rightarrow> bool" where
  "varied r = (case sm_Spread r of Some sp \<Rightarrow> Noisy sp | None \<Rightarrow> False)"

definition simulate_verdict :: "simulate_result \<Rightarrow> cli_error option" where
  "simulate_verdict r =
     (if grew r then
        (case cmp_MaxIncreasePercent (the (sm_Comparison r)) of
           Some p \<Rightarrow> Some (CheckFailed (CostGrew p))
         | None \<Rightarrow> Some (Runtime (ProbeFailed NilDereference)))
      else if varied r then
        (case sp_MaxSpreadPercent (the (sm_Spread r)) of
           Some p \<Rightarrow> Some (CheckFailed (CostVaried p (Runs (the (sm_Spread r)))))
         | None \<Rightarrow> Some (Runtime (ProbeFailed NilDereference)))
      else None)"

definition finish :: "cli_error option \<Rightarrow> ('w, 'o, unit) cop" where
  "finish e = (case e of Some err \<Rightarrow> ethrow err | None \<Rightarrow> eret ())"

definition simulate_one ::
    "'o host \<Rightarrow> 'w starter \<Rightarrow> config \<Rightarrow> simulate_flags \<Rightarrow> string list \<Rightarrow> ('w, 'o, unit) cop" where
  "simulate_one H start c f args =
     ebind (runtime id (readBaseline H (sf_baseline f))) (\<lambda>baseline.
     ebind (runtime BadFlag (parseMaxIncrease (sf_maxIncrease f) (baseline \<noteq> None))) (\<lambda>threshold.
     ebind (runtime BadFlag (parseMaxSpread (sf_maxSpread f) (sf_repeat f))) (\<lambda>spread.
     ebind (runtime StartFailed (start c)) (\<lambda>(P, s).
     ebind (on_prober s (Simulate P
       \<lparr>sq_ContractID = args ! 0, sq_Function = args ! 1, sq_Args = drop 2 args, sq_Baseline = baseline,
        sq_MaxIncreasePercent = threshold, sq_Repeat = sf_repeat f, sq_MaxSpreadPercent = spread\<rparr>)) (\<lambda>result.
     ebind (write_report H (sf_report f) (ReportSimulate result)) (\<lambda>_.
     ebind (if sf_json f then writeJSON H (ReportSimulate result)
       else print H (renderSimulate (ho_texts H) (color H) result)) (\<lambda>_.
     finish (simulate_verdict result))))))))"

definition is_error :: "simulate_item \<Rightarrow> bool" where
  "is_error item = (case si_Outcome item of SimulationError _ \<Rightarrow> True | Simulated _ \<Rightarrow> False)"

definition runSimulateFile ::
    "'o host \<Rightarrow> 'w starter \<Rightarrow> config \<Rightarrow> simulate_flags \<Rightarrow> ('w, 'o, unit) cop" where
  "runSimulateFile H start c f =
     ebind (runtime id (readSimulateBatch H (sf_file f))) (\<lambda>req.
     ebind (runtime StartFailed (start c)) (\<lambda>(P, s).
     ebind (on_prober s (SimulateBatch P req)) (\<lambda>result.
     ebind (write_report H (sf_report f) (ReportCalls result)) (\<lambda>_.
     ebind (if sf_json f then writeJSON H (ReportCalls result)
       else print H (renderSimulateBatch (ho_texts H) result)) (\<lambda>_.
     finish (if list_ex is_error result then Some (Runtime CallsNotRun) else None))))))"

definition run_simulate ::
    "'o host \<Rightarrow> 'w starter \<Rightarrow> simulate_flags \<Rightarrow> string list \<Rightarrow> config \<Rightarrow> ('w, 'o) cli_state \<Rightarrow>
     cli_error list \<times> ('w, 'o) cli_state" where
  "run_simulate H start f args c =
     with_report H (sf_report f)
       (if sf_file f \<noteq> [] then runSimulateFile H start c f else simulate_one H start c f args)"

section \<open>inspect\<close>

record inspect_flags =
  nf_keys :: "string list"
  nf_keyFile :: string
  nf_durability :: string
  nf_report :: string
  nf_format :: "string option"
  nf_estimateExtend :: u32
  nf_json :: bool

definition exact_args :: "nat \<Rightarrow> string list \<Rightarrow> args_error option" where
  "exact_args n args = (if length args = n then None else Some (WrongArgCount (length args)))"

definition inspect_one ::
    "'o host \<Rightarrow> 'w starter \<Rightarrow> config \<Rightarrow> inspect_flags \<Rightarrow> format \<Rightarrow> durability \<Rightarrow> string list \<Rightarrow> ('w, 'o, unit) cop" where
  "inspect_one H start c f format d args =
     ebind (runtime BadKeys (mergeKeys (ho_encode H) (ho_open H) (nf_keyFile f) (nf_keys f))) (\<lambda>keys.
     ebind (runtime StartFailed (start c)) (\<lambda>(P, s).
     ebind (on_prober s (Inspect P
       \<lparr>rq_ContractID = args ! 0, rq_DataKeys = keys, rq_DataDurability = d,
        rq_EstimateExtend = nf_estimateExtend f\<rparr>)) (\<lambda>result.
     ebind (write_report H (nf_report f) (ReportInspect result)) (\<lambda>_.
     case format of
       JSONFormat \<Rightarrow> writeJSON H (ReportInspect result)
     | MarkdownFormat \<Rightarrow> print H (renderMarkdownInspect result)
     | TextFormat \<Rightarrow> print H (renderInspect (ho_texts H) (color H) result)))))"

definition run_inspect ::
    "'o host \<Rightarrow> 'w starter \<Rightarrow> inspect_flags \<Rightarrow> string list \<Rightarrow> config \<Rightarrow> ('w, 'o) cli_state \<Rightarrow>
     cli_error list \<times> ('w, 'o) cli_state" where
  "run_inspect H start f args c cs =
     (case selectOutputFormat (nf_json f) (nf_format f) of
        Inl e \<Rightarrow> ([Runtime (BadFlag e)], cs)
      | Inr format \<Rightarrow>
          (case parseDurability (nf_durability f) of
             Inl e \<Rightarrow> ([Runtime (BadFlag e)], cs)
           | Inr d \<Rightarrow> with_report H (nf_report f) (inspect_one H start c f format d args) cs))"

section \<open>check\<close>

record check_flags =
  kf_function :: string
  kf_args :: "string list"
  kf_expect :: string
  kf_keys :: "string list"
  kf_keyFile :: string
  kf_durability :: string
  kf_file :: string
  kf_timeout :: duration
  kf_concurrency :: int
  kf_report :: string
  kf_format :: "string option"
  kf_quiet :: bool
  kf_json :: bool

definition check_args_ok :: "check_flags \<Rightarrow> string list \<Rightarrow> args_error option" where
  "check_args_ok f args =
     (if kf_file f \<noteq> [] then
        (if args \<noteq> [] then Some ContractAndFile
         else if kf_keyFile f \<noteq> [] then Some KeyFileWithFile else None)
      else exact_args 1 args)"

text \<open>\<^verbatim>\<open>emitSingleCheckOutput\<close>.\<close>

definition emitSingleCheckOutput :: "'o host \<Rightarrow> check_result \<Rightarrow> bool \<Rightarrow> format \<Rightarrow> ('w, 'o, unit) cop" where
  "emitSingleCheckOutput H result quiet format =
     (if quiet then eret ()
      else case format of
          JSONFormat \<Rightarrow> writeJSON H (ReportCheck result)
        | MarkdownFormat \<Rightarrow> print H (renderMarkdownCheck (ho_texts H) result)
        | TextFormat \<Rightarrow>
            ebind (print H (renderCheck (ho_texts H) (color H) result)) (\<lambda>_.
            print_anyway H (emitCheckAnnotations (ho_texts H) result (inGitHubActions H))))"

definition emitBatchOutput :: "'o host \<Rightarrow> batch_result \<Rightarrow> bool \<Rightarrow> format \<Rightarrow> ('w, 'o, unit) cop" where
  "emitBatchOutput H result quiet format =
     (if quiet then eret ()
      else case format of
          JSONFormat \<Rightarrow> writeJSON H (ReportBatch result)
        | MarkdownFormat \<Rightarrow> print H (renderMarkdownBatch (ho_texts H) result)
        | TextFormat \<Rightarrow>
            ebind (print H (renderBatch (ho_texts H) (color H) result)) (\<lambda>_.
            print_anyway H (emitBatchAnnotations (ho_texts H) result (inGitHubActions H))))"

definition batch_verdict :: "batch_result \<Rightarrow> cli_error option" where
  "batch_verdict r =
     (if br_Errored r then Some (Runtime ChecksNotRun)
      else if \<not> br_OK r then Some (CheckFailed ChecksFailed) else None)"

text \<open>\<open>conc\<close> is how a prober runs a batch concurrently.\<close>

definition runCheckFile ::
    "'o host \<Rightarrow> 'w starter \<Rightarrow> ('w prober \<Rightarrow> batch_request \<Rightarrow> ('w, batch_result) pop) \<Rightarrow> config \<Rightarrow> check_flags \<Rightarrow>
     format \<Rightarrow> ('w, 'o, unit) cop" where
  "runCheckFile H start conc c f format =
     ebind (runtime id (readBatch H (kf_file f))) (\<lambda>req.
     let req' = (applyDefaultTimeout (kf_timeout f) req)\<lparr>bq_Concurrency := kf_concurrency f\<rparr> in
     ebind (runtime StartFailed (start c)) (\<lambda>(P, s).
     ebind (on_prober s (CheckBatch P (conc P) req')) (\<lambda>result.
     ebind (write_report H (kf_report f) (ReportBatch result)) (\<lambda>_.
     ebind (emitBatchOutput H result (kf_quiet f) format) (\<lambda>_.
     finish (batch_verdict result))))))"

definition check_one ::
    "'o host \<Rightarrow> 'w starter \<Rightarrow> config \<Rightarrow> check_flags \<Rightarrow> format \<Rightarrow> string list \<Rightarrow> ('w, 'o, unit) cop" where
  "check_one H start c f format args =
     ebind (runtime BadFlag (parseDurability (kf_durability f))) (\<lambda>d.
     ebind (runtime BadKeys (mergeKeys (ho_encode H) (ho_open H) (kf_keyFile f) (kf_keys f))) (\<lambda>keys.
     ebind (runtime StartFailed (start c)) (\<lambda>(P, s).
     ebind (on_prober s (Check P
       \<lparr>ch_ContractID = args ! 0, ch_Function = kf_function f, ch_Args = kf_args f, ch_Expect = kf_expect f,
        ch_DataKeys = keys, ch_DataDurability = d\<rparr>)) (\<lambda>result.
     ebind (write_report H (kf_report f) (ReportCheck result)) (\<lambda>_.
     ebind (emitSingleCheckOutput H result (kf_quiet f) format) (\<lambda>_.
     finish (if cr_OK result then None else Some (CheckFailed (CheckFailedFor (args ! 0))))))))))"

definition run_check ::
    "'o host \<Rightarrow> 'w starter \<Rightarrow> ('w prober \<Rightarrow> batch_request \<Rightarrow> ('w, batch_result) pop) \<Rightarrow> check_flags \<Rightarrow>
     string list \<Rightarrow> config \<Rightarrow> ('w, 'o) cli_state \<Rightarrow> cli_error list \<times> ('w, 'o) cli_state" where
  "run_check H start conc f args c cs =
     (case checkQuietConflicts (kf_quiet f) (kf_json f) (kf_report f) of
        Some e \<Rightarrow> ([Runtime (BadFlag e)], cs)
      | None \<Rightarrow>
          (case selectOutputFormat (kf_json f) (kf_format f) of
             Inl e \<Rightarrow> ([Runtime (BadFlag e)], cs)
           | Inr format \<Rightarrow> with_report H (kf_report f)
               (if kf_file f \<noteq> [] then runCheckFile H start conc c f format
                else check_one H start c f format args) cs))"

section \<open>serve\<close>

record serve_flags =
  vf_addr :: string
  vf_tlsCert :: string
  vf_tlsKey :: string
  vf_inspectCacheTTL :: "duration option"

text \<open>The settings \<^verbatim>\<open>serve\<close> runs with: its own flags over those that were resolved.\<close>

definition serve_config :: "serve_flags \<Rightarrow> config \<Rightarrow> config" where
  "serve_config f c = c
     \<lparr>cfg_HTTPAddr := (if vf_addr f \<noteq> [] then vf_addr f else cfg_HTTPAddr c),
      cfg_InspectCacheTTL := set_value (cfg_InspectCacheTTL c) (vf_inspectCacheTTL f),
      cfg_TLSCert := (if vf_tlsCert f \<noteq> [] then vf_tlsCert f else cfg_TLSCert c),
      cfg_TLSKey := (if vf_tlsKey f \<noteq> [] then vf_tlsKey f else cfg_TLSKey c)\<rparr>"

definition server_options :: "'w prober \<Rightarrow> config \<Rightarrow> 'w api_options" where
  "server_options P c =
     \<lparr>ao_Prober = P, ao_Addr = cfg_HTTPAddr c, ao_CORSOrigins = cfg_CORSOrigins c, ao_APIToken = cfg_APIToken c,
      ao_NetworkPassphrase = cfg_NetworkPassphrase c, ao_ReadinessCacheTTL = 0,
      ao_RateLimitPerMinute = cfg_RateLimitPerMinute c, ao_RateLimitBurst = cfg_RateLimitBurst c,
      ao_TrustForwardedFor = cfg_TrustForwardedFor c, ao_TLSCert = cfg_TLSCert c, ao_TLSKey = cfg_TLSKey c\<rparr>"

definition run_serve ::
    "'w starter \<Rightarrow> ('w prober \<Rightarrow> batch_request \<Rightarrow> ('w, batch_result) pop) \<Rightarrow> serve_flags \<Rightarrow> config \<Rightarrow>
     (failure, 'w server \<times> 'w sstate) result" where
  "run_serve start conc f c =
     (let c' = serve_config f c in
      if (cfg_TLSCert c' = []) \<noteq> (cfg_TLSKey c' = []) then Inl ServeTLSPair
      else rbind (rmap_err StartFailed (start c')) (\<lambda>(P, s).
        Inr (api_New (conc P) (server_options P c') s)))"

section \<open>The program\<close>

definition resolveVersion :: "string \<Rightarrow> string option \<Rightarrow> string" where
  "resolveVersion version build =
     (if version \<noteq> [] then version
      else case build of Some v \<Rightarrow> if v \<noteq> [] then v else ''devel'' | None \<Rightarrow> ''devel'')"

text \<open>\<^verbatim>\<open>version\<close>, which resolves no configuration.\<close>

definition run_version :: "'o host \<Rightarrow> string \<Rightarrow> string option \<Rightarrow> ('w, 'o, unit) cop" where
  "run_version H version build = print H [ln (resolveVersion version build)]"

text \<open>Arguments, configuration, command, exit code.\<close>

definition execute ::
    "args_error option \<Rightarrow> (resolve_error, config) result \<Rightarrow> (config \<Rightarrow> 's \<Rightarrow> cli_error list \<times> 's) \<Rightarrow> 's \<Rightarrow>
     nat \<times> 's" where
  "execute guard resolved run s =
     (case guard of
        Some e \<Rightarrow> (exit_code [Runtime (BadArgs e)], s)
      | None \<Rightarrow>
          (case resolved of
             Inl e \<Rightarrow> (exit_code [Runtime (ResolveFailed e)], s)
           | Inr c \<Rightarrow> (case run c s of (errs, t) \<Rightarrow> (exit_code errs, t))))"

section \<open>Verdicts\<close>

text \<open>
  A step of a command that can fail, but not with a verdict; \<open>verdict r\<close> is an outcome that
  gives one. \<open>verdicts m cs Q\<close> is what a verdict of a command implies.
\<close>

definition no_verdict :: "('w, 'o, 'a) cop \<Rightarrow> bool" where
  "no_verdict m \<longleftrightarrow> (\<forall>cs e cs'. m cs = (Inl e, cs') \<longrightarrow> \<not> is_check_failed e)"

definition verdict :: "(cli_error, unit) result \<Rightarrow> bool" where
  "verdict r \<longleftrightarrow> (case r of Inl e \<Rightarrow> is_check_failed e | Inr _ \<Rightarrow> True)"

named_theorems no_verdict_rules \<open>steps that give no verdict\<close>

definition verdicts ::
    "('w, 'o, unit) cop \<Rightarrow> ('w, 'o) cli_state \<Rightarrow> ((cli_error, unit) result \<Rightarrow> ('w, 'o) cli_state \<Rightarrow> bool) \<Rightarrow> bool" where
  "verdicts m cs Q \<longleftrightarrow> (\<forall>r cs'. m cs = (r, cs') \<longrightarrow> verdict r \<longrightarrow> Q r cs')"

named_theorems verdicts_rules \<open>outcomes that are verdicts, step by step\<close>

lemma verdicts_ebind [verdicts_rules]:
  assumes "no_verdict m" and "\<And>x u. m cs = (Inr x, u) \<Longrightarrow> verdicts (k x) u Q"
  shows "verdicts (ebind m k) cs Q"
  unfolding verdicts_def
proof (intro allI impI)
  fix r cs'
  assume run: "ebind m k cs = (r, cs')" and v: "verdict r"
  obtain q u where q: "m cs = (q, u)" by fastforce
  show "Q r cs'"
  proof (cases q)
    case (Inl e)
    then have "r = Inl e" using run q by (simp add: ebind_apply)
    moreover have "\<not> is_check_failed e" using assms(1) q Inl unfolding no_verdict_def by blast
    ultimately show ?thesis using v by (simp add: verdict_def)
  next
    case (Inr x)
    then have "k x u = (r, cs')" using run q by (simp add: ebind_apply)
    then show ?thesis using assms(2) [of x u] q Inr v by (simp add: verdicts_def)
  qed
qed

lemma verdicts_case_prod [verdicts_rules]:
  "(\<And>a b. x = (a, b) \<Longrightarrow> verdicts (f a b) cs Q) \<Longrightarrow> verdicts (case x of (a, b) \<Rightarrow> f a b) cs Q"
  by (cases x) simp

lemma verdictsD: "verdicts m cs Q \<Longrightarrow> m cs = (r, cs') \<Longrightarrow> verdict r \<Longrightarrow> Q r cs'"
  by (simp add: verdicts_def)

lemma no_verdict_eret [no_verdict_rules]: "no_verdict (eret x)"
  by (simp add: no_verdict_def)

lemma no_verdict_runtime [no_verdict_rules]: "no_verdict (runtime f r)"
  by (auto simp: no_verdict_def runtime_def rmap_err_eq_Inl)

lemma no_verdict_on_prober [no_verdict_rules]: "no_verdict (on_prober s m)"
  by (auto simp: no_verdict_def on_prober_def rmap_err_eq_Inl split: prod.splits)

lemma no_verdict_print [no_verdict_rules]: "no_verdict (print H ts)"
  by (auto simp: no_verdict_def print_def split: prod.splits option.splits)

lemma no_verdict_print_anyway [no_verdict_rules]: "no_verdict (print_anyway H ts)"
  by (simp add: no_verdict_def print_anyway_def)

lemma no_verdict_writeJSON [no_verdict_rules]: "no_verdict (writeJSON H x)"
  unfolding writeJSON_def by (rule no_verdict_print)

lemma no_verdict_write_report [no_verdict_rules]: "no_verdict (write_report H path x)"
  by (auto simp: no_verdict_def write_report_def split: option.splits)

lemma no_verdict_ebind [no_verdict_rules]:
  "no_verdict m \<Longrightarrow> (\<And>x. no_verdict (k x)) \<Longrightarrow> no_verdict (ebind m k)"
  unfolding no_verdict_def ebind_eq_Inl by blast

lemma no_verdict_if [no_verdict_rules]: "no_verdict m \<Longrightarrow> no_verdict n \<Longrightarrow> no_verdict (if b then m else n)"
  by simp

lemma no_verdict_format [no_verdict_rules]:
  "no_verdict a \<Longrightarrow> no_verdict b \<Longrightarrow> no_verdict d \<Longrightarrow>
     no_verdict (case fmt of TextFormat \<Rightarrow> a | JSONFormat \<Rightarrow> b | MarkdownFormat \<Rightarrow> d)"
  by (cases fmt) simp_all

lemma no_verdict_outputs [no_verdict_rules]:
  "no_verdict (emitSingleCheckOutput H r quiet fmt)" "no_verdict (emitBatchOutput H b quiet fmt)"
  unfolding emitSingleCheckOutput_def emitBatchOutput_def by (intro no_verdict_rules)+

text \<open>What the steps do to the report file, and the standard output.\<close>

lemma runtime_Inr: "runtime f r cs = (Inr x, u) \<longleftrightarrow> r = Inr x \<and> u = cs"
  by (auto simp: runtime_def rmap_err_eq_Inr)

lemma on_prober_Inr: "on_prober s m cs = (Inr x, u) \<longleftrightarrow> (\<exists>t. m s = (Inr x, t) \<and> u = cs\<lparr>cs_probe := Some t\<rparr>)"
  by (auto simp: on_prober_def rmap_err_eq_Inr split: prod.splits)

lemma write_report_Inr:
  "write_report H path x cs = (Inr y, u) \<Longrightarrow>
     cs_report u = (if path = [] then cs_report cs else Some (ho_json H x)) \<and> cs_out u = cs_out cs"
  by (auto simp: write_report_def split: if_splits option.splits)

lemma print_report: "snd (print H ts cs) = u \<Longrightarrow> cs_report u = cs_report cs"
  by (auto simp: print_def split: prod.splits)

lemma print_anyway_report: "cs_report (snd (print_anyway H ts cs)) = cs_report cs"
  by (simp add: print_anyway_def)

lemma emit_report:
  "emitSingleCheckOutput H r quiet fmt cs = (q, u) \<Longrightarrow> cs_report u = cs_report cs"
  "emitBatchOutput H b quiet fmt cs = (q, u) \<Longrightarrow> cs_report u = cs_report cs"
  by (auto simp: emitSingleCheckOutput_def emitBatchOutput_def ebind_apply writeJSON_def print_anyway_def print_def
      split: if_splits format.splits prod.splits sum.splits)

lemma verdicts_finish:
  "(verdict (case e of Some x \<Rightarrow> Inl x | None \<Rightarrow> Inr ()) \<Longrightarrow> Q (case e of Some x \<Rightarrow> Inl x | None \<Rightarrow> Inr ()) cs) \<Longrightarrow>
     verdicts (finish e) cs Q"
  by (cases e) (simp_all add: verdicts_def finish_def)

lemmas step_facts = runtime_Inr on_prober_Inr

text \<open>What a command line asks for: the check, the batch and the simulation it stands for.\<close>

definition asked_check :: "'o host \<Rightarrow> check_flags \<Rightarrow> string list \<Rightarrow> check_request \<Rightarrow> bool" where
  "asked_check H f args req \<longleftrightarrow>
     ch_ContractID req = args ! 0 \<and> ch_Function req = kf_function f \<and> ch_Args req = kf_args f \<and>
     ch_Expect req = kf_expect f \<and> parseDurability (kf_durability f) = Inr (ch_DataDurability req) \<and>
     mergeKeys (ho_encode H) (ho_open H) (kf_keyFile f) (kf_keys f) = Inr (ch_DataKeys req)"

definition asked_batch :: "'o host \<Rightarrow> check_flags \<Rightarrow> batch_request \<Rightarrow> bool" where
  "asked_batch H f breq \<longleftrightarrow> (\<exists>req. readBatch H (kf_file f) = Inr req \<and>
     breq = (applyDefaultTimeout (kf_timeout f) req)\<lparr>bq_Concurrency := kf_concurrency f\<rparr>)"

definition asked_simulation :: "'o host \<Rightarrow> simulate_flags \<Rightarrow> string list \<Rightarrow> simulate_request \<Rightarrow> bool" where
  "asked_simulation H f args req \<longleftrightarrow>
     sq_ContractID req = args ! 0 \<and> sq_Function req = args ! 1 \<and> sq_Args req = drop 2 args \<and>
     sq_Repeat req = sf_repeat f \<and> readBaseline H (sf_baseline f) = Inr (sq_Baseline req) \<and>
     parseMaxIncrease (sf_maxIncrease f) (sq_Baseline req \<noteq> None) = Inr (sq_MaxIncreasePercent req) \<and>
     parseMaxSpread (sf_maxSpread f) (sf_repeat f) = Inr (sq_MaxSpreadPercent req)"

text \<open>A verdict of a single check, of a batch.\<close>

lemma check_one_verdict:
  "verdicts (check_one H start c f fmt args) cs (\<lambda>r cs'.
     \<exists>P s req res t. start c = Inr (P, s) \<and> asked_check H f args req \<and> Check P req s = (Inr res, t) \<and>
       (r = Inr () \<longleftrightarrow> Check.verdict P req (cr_Inspect res) (cr_Simulate res)) \<and>
       (kf_report f \<noteq> [] \<longrightarrow> cs_report cs' = Some (ho_json H (ReportCheck res))))"
  unfolding check_one_def
proof (intro verdicts_rules no_verdict_rules verdicts_finish, unfold step_facts, elim conjE exE, goal_cases)
  case (1 d u1 keys u2 Ps u3 P s res u4 y u5 z u6 t)
  have report: "kf_report f \<noteq> [] \<longrightarrow> cs_report u6 = Some (ho_json H (ReportCheck res))"
    using write_report_Inr [of H "kf_report f" "ReportCheck res"] emit_report(1) [of H res] 1 by metis
  have "cr_OK res = Check.verdict P \<lparr>ch_ContractID = args ! 0, ch_Function = kf_function f, ch_Args = kf_args f,
      ch_Expect = kf_expect f, ch_DataKeys = keys, ch_DataDurability = d\<rparr> (cr_Inspect res) (cr_Simulate res)"
    using 1 by (intro Check_reports(1)) auto
  with report show ?case
    by (intro exI [of _ P] exI [of _ s] exI [of _ "\<lparr>ch_ContractID = args ! 0, ch_Function = kf_function f,
        ch_Args = kf_args f, ch_Expect = kf_expect f, ch_DataKeys = keys, ch_DataDurability = d\<rparr>"] exI [of _ res]
        exI [of _ t]) (use 1 in \<open>auto simp: asked_check_def\<close>)
qed

lemma batch_file_verdict:
  "verdicts (runCheckFile H start conc c f fmt) cs (\<lambda>r cs'.
     \<exists>P s req res t. start c = Inr (P, s) \<and> asked_batch H f req \<and> CheckBatch P (conc P) req s = (Inr res, t) \<and>
       \<not> br_Errored res \<and> (r = Inr () \<longleftrightarrow> br_OK res) \<and>
       (kf_report f \<noteq> [] \<longrightarrow> cs_report cs' = Some (ho_json H (ReportBatch res))))"
  unfolding runCheckFile_def Let_def
proof (intro verdicts_rules no_verdict_rules verdicts_finish, unfold step_facts, elim conjE exE, goal_cases)
  case (1 req u1 Ps u2 P s res u3 y u4 z u5 t)
  have report: "kf_report f \<noteq> [] \<longrightarrow> cs_report u5 = Some (ho_json H (ReportBatch res))"
    using write_report_Inr [of H "kf_report f" "ReportBatch res"] emit_report(2) [of H res] 1 by metis
  have v: "\<not> br_Errored res" using 1 by (simp add: batch_verdict_def verdict_def split: if_splits)
  have r: "(case batch_verdict res of Some x \<Rightarrow> Inl x | None \<Rightarrow> Inr ()) = Inr () \<longleftrightarrow> br_OK res"
    using v by (simp add: batch_verdict_def)
  show ?case unfolding r asked_batch_def using 1 report v by blast
qed

lemma simulate_verdict_None: "simulate_verdict r = None \<longleftrightarrow> \<not> grew r \<and> \<not> varied r"
  by (auto simp: simulate_verdict_def split: option.split)

lemma simulate_one_verdict:
  "verdicts (simulate_one H start c f args) cs (\<lambda>r cs'.
     \<exists>P s req res t. start c = Inr (P, s) \<and> asked_simulation H f args req \<and> Simulate P req s = (Inr res, t) \<and>
       (r = Inr () \<longleftrightarrow> \<not> grew res \<and> \<not> varied res) \<and>
       (sf_report f \<noteq> [] \<longrightarrow> cs_report cs' = Some (ho_json H (ReportSimulate res))))"
  unfolding simulate_one_def
proof (intro verdicts_rules no_verdict_rules verdicts_finish, unfold step_facts, elim conjE exE, goal_cases)
  case (1 b u1 th u2 sp u3 Ps u4 P s res u5 y u6 z u7 t)
  have "cs_report u7 = cs_report u6"
    using 1(3) by (auto simp: writeJSON_def print_def split: if_splits prod.splits option.splits)
  then have report: "sf_report f \<noteq> [] \<longrightarrow> cs_report u7 = Some (ho_json H (ReportSimulate res))"
    using write_report_Inr [of H "sf_report f" "ReportSimulate res"] 1 by metis
  have r: "(case simulate_verdict res of Some x \<Rightarrow> Inl x | None \<Rightarrow> Inr ()) = Inr () \<longleftrightarrow> \<not> grew res \<and> \<not> varied res"
    by (simp add: simulate_verdict_None [symmetric] split: option.split)
  show ?case unfolding r
    by (intro exI [of _ P] exI [of _ s] exI [of _ "\<lparr>sq_ContractID = args ! 0, sq_Function = args ! 1,
        sq_Args = drop 2 args, sq_Baseline = b, sq_MaxIncreasePercent = th, sq_Repeat = sf_repeat f,
        sq_MaxSpreadPercent = sp\<rparr>"] exI [of _ res] exI [of _ t]) (use 1 report in \<open>simp add: asked_simulation_def\<close>)
qed

lemma simulate_file_verdict:
  "verdicts (runSimulateFile H start c f) cs (\<lambda>r cs'.
     \<exists>P s req res t. start c = Inr (P, s) \<and> readSimulateBatch H (sf_file f) = Inr req \<and> SimulateBatch P req s = (Inr res, t) \<and>
       r = Inr () \<and> \<not> list_ex is_error res)"
  unfolding runSimulateFile_def
proof (intro verdicts_rules no_verdict_rules verdicts_finish, unfold step_facts, elim conjE exE, goal_cases)
  case (1 req u1 Ps u2 P s res u3 y u4 z u5 t)
  then have "\<not> list_ex is_error res" by (auto simp: verdict_def split: if_splits)
  then show ?case using 1 by auto
qed

lemma exit_code_range: "exit_code errs \<le> 2"
  by (simp add: exit_code_def)

lemma with_report_verdict:
  assumes "with_report H path body cs = (errs, cs')" "exit_code errs < 2"
  obtains r where "body cs = (r, cs')" "verdict r" "exit_code errs = 0 \<longleftrightarrow> r = Inr ()"
proof -
  have close: "\<not> list_ex is_check_failed (close_report H path)"
    by (simp add: close_report_def split: option.split)
  obtain q u where body: "body cs = (q, u)" by fastforce
  have errs: "errs = errors_of q @ close_report H path" "u = cs'"
    using assms body by (auto simp: with_report_def exit_code_def split: option.splits)
  have "verdict q" "exit_code errs = 0 \<longleftrightarrow> q = Inr ()"
    using assms(2) close by (cases q; auto simp: errs errors_of_def exit_code_def verdict_def split: if_splits)+
  then show ?thesis using body errs(2) by (intro that [of q]) simp_all
qed

section \<open>Properties\<close>



text \<open>
  C29. With \<^verbatim>\<open>--quiet\<close> the exit code is the whole answer: nothing is written, whatever the terminal does,
  and it is 0 for a check that passed, 1 for one that failed, 2 for one that could not run.
\<close>

theorem quiet_check:
  assumes "kf_quiet f" "\<not> kf_json f" "kf_report f = []" "kf_file f = []" "kf_format f = None"
    and "resolved = Inr c" "parseDurability (kf_durability f) = Inr d"
    and "mergeKeys (ho_encode H) (ho_open H) (kf_keyFile f) (kf_keys f) = Inr keys" "start c = Inr (P, s)"
  shows "execute (check_args_ok f [contract]) resolved (run_check H start conc f [contract]) cs =
    (case Check P \<lparr>ch_ContractID = contract, ch_Function = kf_function f, ch_Args = kf_args f,
        ch_Expect = kf_expect f, ch_DataKeys = keys, ch_DataDurability = d\<rparr> s of
       (r, t) \<Rightarrow> (case r of Inr res \<Rightarrow> if cr_OK res then 0 else 1 | Inl _ \<Rightarrow> 2, cs\<lparr>cs_probe := Some t\<rparr>))"
proof -
  obtain r t where run: "Check P \<lparr>ch_ContractID = contract, ch_Function = kf_function f, ch_Args = kf_args f,
      ch_Expect = kf_expect f, ch_DataKeys = keys, ch_DataDurability = d\<rparr> s = (r, t)" by fastforce
  have one: "check_one H start c f TextFormat [contract] cs =
      (case r of Inl e \<Rightarrow> Inl (Runtime (ProbeFailed e))
       | Inr res \<Rightarrow> if cr_OK res then Inr () else Inl (CheckFailed (CheckFailedFor contract)), cs\<lparr>cs_probe := Some t\<rparr>)"
    using assms run by (cases r) (simp_all add: check_one_def runtime_def ebind_apply on_prober_def write_report_def
      emitSingleCheckOutput_def finish_def)
  show ?thesis
    unfolding run
    by (cases r) (simp_all add: execute_def check_args_ok_def exact_args_def assms run_check_def checkQuietConflicts_def
      selectOutputFormat_def with_report_def one close_report_def errors_of_def exit_code_def)
qed

definition sample_texts :: texts where
  "sample_texts = \<lparr>te_error = (\<lambda>_. ''error''), te_detail = (\<lambda>_. ''detail''), te_storage = (\<lambda>_. ''storage''),
     te_abi = (\<lambda>_. ''abi'')\<rparr>"

text \<open>A host whose terminal fails every write.\<close>

definition broken_host :: "string host" where
  "broken_host = \<lparr>ho_open = (\<lambda>_. Inl ''no such file''), ho_stdin = [], ho_create = (\<lambda>_. None),
     ho_write_report = (\<lambda>_. None), ho_close = None, ho_out = (\<lambda>t out. (Some ''broken pipe'', out)),
     ho_terminal = None, ho_env = Map.empty, ho_json = (\<lambda>_. ''{}''), ho_texts = sample_texts,
     ho_checks = (\<lambda>_ _. Inl ''eof''), ho_calls = (\<lambda>_. Inl ''eof''), ho_baseline = (\<lambda>_. Inl ''eof''),
     ho_encode = sample_enc\<rparr>"

definition quiet_flags :: check_flags where
  "quiet_flags = \<lparr>kf_function = [], kf_args = [], kf_expect = [], kf_keys = [''k''], kf_keyFile = [],
     kf_durability = ''persistent'', kf_file = [], kf_timeout = 0, kf_concurrency = 1, kf_report = [],
     kf_format = None, kf_quiet = True, kf_json = False\<rparr>"

definition no_output :: "(nat, string) cli_state" where
  "no_output = \<lparr>cs_out = [], cs_report = None, cs_probe = None\<rparr>"

abbreviation quiet_run :: "nat \<times> (nat, string) cli_state" where
  "quiet_run \<equiv> execute (check_args_ok quiet_flags [''CA'']) (Inr Default)
     (run_check broken_host (\<lambda>_. Inr (quiet_prober, sample_state)) (\<lambda>_ _. ethrow NilDereference) quiet_flags [''CA'']) no_output"

lemma persistent: "parseDurability ''persistent'' = Inr DurabilityPersistent"
  by code_simp

lemma quiet_check_witness:
  "quiet_run = (case Check quiet_prober \<lparr>ch_ContractID = ''CA'', ch_Function = [], ch_Args = [], ch_Expect = [],
        ch_DataKeys = [''k''], ch_DataDurability = DurabilityPersistent\<rparr> sample_state of
       (r, t) \<Rightarrow> (case r of Inr res \<Rightarrow> if cr_OK res then 0 else 1 | Inl _ \<Rightarrow> 2, no_output\<lparr>cs_probe := Some t\<rparr>))"
  using quiet_check [of quiet_flags "Inr Default" Default DurabilityPersistent broken_host "[''k'']"
      "\<lambda>_. Inr (quiet_prober, sample_state)" quiet_prober sample_state "''CA''" "\<lambda>_ _. ethrow NilDereference" no_output]
  by (simp add: quiet_flags_def persistent mergeKeys_def)


definition working_host :: "string host" where
  "working_host = broken_host\<lparr>ho_out := \<lambda>t out. (None, out @ t)\<rparr>"

definition plain_simulation :: simulate_flags where
  "plain_simulation = \<lparr>sf_report = ''r.json'', sf_file = [], sf_baseline = [], sf_maxIncrease = [], sf_repeat = 2,
     sf_maxSpread = [], sf_json = False\<rparr>"

lemma SpreadCost_untested: "\<not> Noisy (SpreadCost cs fs None)"
  by (simp add: SpreadCost_def Let_def split: list.split)

lemma untested_cost:
  assumes "Simulate P req s = (Inr r, t)" "sq_Baseline req = None" "sq_MaxSpreadPercent req = None"
  shows "simulate_verdict r = None"
proof -
  obtain typed built where "r = simulate_report req typed built"
    using Simulate_runs [OF assms(1)] by metis
  then show ?thesis
    by (simp add: simulate_verdict_None simulate_report_def Let_def grew_def varied_def assms SpreadCost_untested)
qed

lemma print_working: "\<exists>out. print working_host ts cs = (Inr (), cs\<lparr>cs_out := out\<rparr>)"
proof -
  have "fst (buf_print (\<lambda>t out. (None, out @ t)) ts out) = None" for out
    by (induction ts arbitrary: out) simp_all
  then obtain out where "buf_print (\<lambda>t out. (None, out @ t)) ts (cs_out cs) = (None, out)"
    using prod.collapse by metis
  then show ?thesis by (auto simp: print_def working_host_def intro: exI [of _ out])
qed


end
