(* ===== verification/Stellartest.thy ===== *)
theory Stellartest
  imports Batch
begin

text \<open>
  The client the program's own tests run against, \<^verbatim>\<open>internal/stellar/stellartest/stellartest.go\<close>:
  a client whose world is the \<^verbatim>\<open>Fake\<close> itself, with the entries and simulations it answers from,
  the failures it injects and the log of what it was asked. Decoding an envelope into its
  operations is the SDK's and a parameter, as are the recorded fixtures; the context and the clock
  of a test are any functions of the fake.
\<close>

section \<open>Envelopes\<close>

datatype tx_operation =
    OpExtendFootprintTtl
  | OpInvokeContract string "scval list"
  | OpInvokeOther
  | OpOther

definition ExtendFootprintTTL :: string where "ExtendFootprintTTL = ''extend_footprint_ttl''"

definition one_operation :: "(string \<Rightarrow> tx_operation list option) \<Rightarrow> string \<Rightarrow> (string, tx_operation) result" where
  "one_operation D envelope =
     (case D envelope of
        None \<Rightarrow> Inl ''decode envelope''
      | Some [op] \<Rightarrow> Inr op
      | Some ops \<Rightarrow> Inl (''expected exactly 1 operation, got '' @ itoa (int (length ops))))"

definition SubjectOf :: "(string \<Rightarrow> tx_operation list option) \<Rightarrow> string \<Rightarrow> (string, string) result" where
  "SubjectOf D envelope =
     rbind (one_operation D envelope) (\<lambda>op.
     case op of
       OpExtendFootprintTtl \<Rightarrow> Inr ExtendFootprintTTL
     | OpOther \<Rightarrow> Inl ''operation is neither invokeHostFunction nor extendFootprintTtl''
     | OpInvokeOther \<Rightarrow> Inl ''host function is not invokeContract''
     | OpInvokeContract name args \<Rightarrow> Inr name)"

definition ArgsOf :: "(string \<Rightarrow> tx_operation list option) \<Rightarrow> string \<Rightarrow> (string, scval list) result" where
  "ArgsOf D envelope =
     rbind (one_operation D envelope) (\<lambda>op.
     case op of
       OpInvokeContract name args \<Rightarrow> Inr args
     | OpInvokeOther \<Rightarrow> Inl ''host function is not invokeContract''
     | _ \<Rightarrow> Inl ''operation is not invokeHostFunction'')"

section \<open>The fake\<close>

record fake =
  fk_Entries :: "string \<rightharpoonup> ledger_entry"
  fk_LatestLedger :: u32
  fk_Simulations :: "string \<rightharpoonup> simulate_response"
  fk_SimulateErr :: "string option"
  fk_EntriesErr :: "string option"
  fk_LedgerErr :: "string option"
  fk_LedgersErr :: "string option"
  fk_LedgerCloseInterval :: duration
  fk_LatestLedgerCloseTime :: i64
  fk_HealthErr :: "string option"
  fk_NetworkErr :: "string option"
  fk_HealthStatus :: string
  fk_NetworkPassphrase :: string
  fk_SimulateRequests :: "string list"
  fk_EntryRequests :: "string list list"
  fk_HealthRequests :: nat
  fk_NetworkRequests :: nat
  fk_Functions :: "string list"

definition answer :: "string option \<Rightarrow> 'a \<Rightarrow> (string, 'a) result" where
  "answer injected x = (case injected of Some e \<Rightarrow> Inl e | None \<Rightarrow> Inr x)"

text \<open>A function's name is a symbol, letters, digits and underscores, so \<^verbatim>\<open>%q\<close> only puts it in quotes.\<close>

definition no_fixture :: "fake \<Rightarrow> string \<Rightarrow> simulate_response" where
  "no_fixture f fn = \<lparr>sr_Error = ''no fixture recorded for function '' @ CHR 0x22 # fn @ [CHR 0x22], sr_TransactionDataXDR = [],
     sr_MinResourceFee = 0, sr_RestorePreamble = None, sr_Results = [], sr_EventsXDR = [],
     sr_LatestLedger = fk_LatestLedger f\<rparr>"

definition fake_simulate :: "(string \<Rightarrow> tx_operation list option) \<Rightarrow> string \<Rightarrow> (fake, simulate_response) call" where
  "fake_simulate D envelope f0 =
     (let f = f0\<lparr>fk_SimulateRequests := fk_SimulateRequests f0 @ [envelope]\<rparr> in
      case fk_SimulateErr f of
        Some e \<Rightarrow> (Inl e, f)
      | None \<Rightarrow>
          (case SubjectOf D envelope of
             Inl e \<Rightarrow> (Inl e, f)
           | Inr fn \<Rightarrow>
               (Inr (case fk_Simulations f fn of Some resp \<Rightarrow> resp | None \<Rightarrow> no_fixture f fn),
                f\<lparr>fk_Functions := fk_Functions f @ [fn]\<rparr>)))"

definition fake_entries :: "string list \<Rightarrow> (fake, entries_response) call" where
  "fake_entries ks f =
     (answer (fk_EntriesErr f) \<lparr>er_Entries = List.map_filter (fk_Entries f) ks, er_LatestLedger = fk_LatestLedger f\<rparr>,
      f\<lparr>fk_EntryRequests := fk_EntryRequests f @ [ks]\<rparr>)"

definition fake_latest :: "(fake, u32) call" where
  "fake_latest f = (answer (fk_LedgerErr f) (fk_LatestLedger f), f)"

text \<open>The loop over sequences; its first argument is how many more ledgers the limit allows.\<close>

fun ledgers_from :: "nat \<Rightarrow> u32 \<Rightarrow> u32 \<Rightarrow> i64 \<Rightarrow> i64 \<Rightarrow> ledger_info list" where
  "ledgers_from 0 sequence latest close interval = []"
| "ledgers_from (Suc n) sequence latest close interval =
     (if sequence \<le> latest
      then \<lparr>li_Sequence = sequence, li_LedgerCloseTime = close - ucast (latest - sequence) * interval\<rparr> #
        ledgers_from n (sequence + 1) latest close interval
      else [])"

definition fake_interval :: "fake \<Rightarrow> i64" where
  "fake_interval f = (let i = quot64 (fk_LedgerCloseInterval f) second in if i \<le>s 0 then 5 else i)"

definition fake_ledgers :: "u32 \<Rightarrow> nat \<Rightarrow> (fake, ledger_info list) call" where
  "fake_ledgers start limit f =
     (answer (fk_LedgersErr f) (ledgers_from (if 0 < limit then limit else 20) start (fk_LatestLedger f)
        (fk_LatestLedgerCloseTime f) (fake_interval f)), f)"

definition fake_network :: "(fake, string) call" where
  "fake_network f =
     (answer (fk_NetworkErr f) (if fk_NetworkPassphrase f = [] then ''Test SDF Network ; September 2015''
        else fk_NetworkPassphrase f), f\<lparr>fk_NetworkRequests := Suc (fk_NetworkRequests f)\<rparr>)"

definition fake_health :: "(fake, string) call" where
  "fake_health f =
     (answer (fk_HealthErr f) (if fk_HealthStatus f = [] then ''healthy'' else fk_HealthStatus f),
      f\<lparr>fk_HealthRequests := Suc (fk_HealthRequests f)\<rparr>)"

definition fake_client ::
    "(string \<Rightarrow> tx_operation list option) \<Rightarrow> (fake \<Rightarrow> string option \<times> fake) \<Rightarrow> (fake \<Rightarrow> instant \<times> fake) \<Rightarrow> fake client" where
  "fake_client D ctx clock = \<lparr>SimulateTransaction = fake_simulate D, GetLedgerEntries = fake_entries,
     GetLatestLedger = fake_latest, GetLedgers = fake_ledgers, GetNetwork = fake_network,
     GetHealth = fake_health, CtxErr = ctx, Now = clock\<rparr>"

definition SetTTL :: "string \<Rightarrow> u32 \<Rightarrow> fake \<Rightarrow> fake option" where
  "SetTTL key liveUntil f =
     map_option (\<lambda>entry. f\<lparr>fk_Entries := (fk_Entries f)(key \<mapsto> entry\<lparr>le_LiveUntil := Some liveUntil\<rparr>)\<rparr>)
       (fk_Entries f key)"

definition InstanceKeyOf :: "sdk_lib \<Rightarrow> string \<Rightarrow> (error, string) result" where
  "InstanceKeyOf S contractID =
     rbind (ParseContractID (strkeys S) contractID) (\<lambda>addr. EncodeKey S (InstanceKey addr))"

section \<open>The recorded fixtures\<close>

record fixtures =
  fx_latest :: "u32 \<times> i64"
  fx_entries :: "string \<Rightarrow> entries_response"
  fx_simulate :: "string \<Rightarrow> simulate_response"

definition entry_fixtures :: "string list" where
  "entry_fixtures = [''ledger_entries_sac_instance.json'', ''ledger_entries_wasm_instance.json'',
     ''ledger_entries_wasm_code.json'', ''ledger_entries_data_durability.json'']"

definition add_fixture :: "entries_response \<Rightarrow> fake \<Rightarrow> fake" where
  "add_fixture resp f = f
     \<lparr>fk_Entries := foldl (\<lambda>m e. m(le_KeyXDR e \<mapsto> e)) (fk_Entries f) (er_Entries resp),
      fk_LatestLedger := (if fk_LatestLedger f < er_LatestLedger resp then er_LatestLedger resp else fk_LatestLedger f)\<rparr>"

definition empty_fake :: fake where
  "empty_fake = \<lparr>fk_Entries = Map.empty, fk_LatestLedger = 0, fk_Simulations = Map.empty, fk_SimulateErr = None,
     fk_EntriesErr = None, fk_LedgerErr = None, fk_LedgersErr = None, fk_LedgerCloseInterval = 0,
     fk_LatestLedgerCloseTime = 0, fk_HealthErr = None, fk_NetworkErr = None, fk_HealthStatus = [],
     fk_NetworkPassphrase = [], fk_SimulateRequests = [], fk_EntryRequests = [], fk_HealthRequests = 0,
     fk_NetworkRequests = 0, fk_Functions = []\<rparr>"

definition NewFake :: "fixtures \<Rightarrow> fake" where
  "NewFake X =
     (foldl (\<lambda>f name. add_fixture (fx_entries X name) f)
        (empty_fake\<lparr>fk_LatestLedger := fst (fx_latest X), fk_LatestLedgerCloseTime := snd (fx_latest X),
           fk_LedgerCloseInterval := 5 * second\<rparr>) entry_fixtures)
     \<lparr>fk_Simulations := [''decimals'' \<mapsto> fx_simulate X ''simulate_success.json'',
        ''no_such_fn'' \<mapsto> fx_simulate X ''simulate_failure.json'',
        ''transfer'' \<mapsto> fx_simulate X ''simulate_auth.json'',
        ExtendFootprintTTL \<mapsto> fx_simulate X ''simulate_extend.json'']\<rparr>"

section \<open>Answers\<close>

text \<open>No call changes what the fake answers from: only the logs grow.\<close>

definition same_answers :: "fake \<Rightarrow> fake \<Rightarrow> bool" where
  "same_answers f g \<longleftrightarrow>
     g = f\<lparr>fk_SimulateRequests := fk_SimulateRequests g, fk_EntryRequests := fk_EntryRequests g,
       fk_HealthRequests := fk_HealthRequests g, fk_NetworkRequests := fk_NetworkRequests g,
       fk_Functions := fk_Functions g\<rparr>"

lemma fake_calls_keep_answers:
  "same_answers f (snd (fake_simulate D envelope f))" "same_answers f (snd (fake_entries ks f))"
  "same_answers f (snd (fake_latest f))" "same_answers f (snd (fake_ledgers start limit f))"
  "same_answers f (snd (fake_network f))" "same_answers f (snd (fake_health f))"
  by (simp_all add: same_answers_def fake_simulate_def fake_entries_def fake_latest_def fake_ledgers_def
      fake_network_def fake_health_def Let_def split: option.split sum.split)

lemma answer_None [simp]: "answer None x = Inr x"
  by (simp add: answer_def)

text \<open>A stored entry with its time to live set is what the fake then answers; the others stay.\<close>

lemma SetTTL_entries:
  assumes "SetTTL key liveUntil f = Some g"
  shows "fk_Entries g k = (if k = key then map_option (\<lambda>e. e\<lparr>le_LiveUntil := Some liveUntil\<rparr>) (fk_Entries f key)
    else fk_Entries f k)"
  using assms by (auto simp: SetTTL_def)

lemma add_fixture_latest: "fk_LatestLedger (add_fixture resp f) = max (fk_LatestLedger f) (er_LatestLedger resp)"
  by (auto simp: add_fixture_def max_def)

text \<open>The fake is at least as recent as every recorded response it was built from.\<close>

lemma NewFake_latest:
  "name \<in> set entry_fixtures \<Longrightarrow> er_LatestLedger (fx_entries X name) \<le> fk_LatestLedger (NewFake X)"
  "fst (fx_latest X) \<le> fk_LatestLedger (NewFake X)"
  by (auto simp: NewFake_def entry_fixtures_def add_fixture_latest le_max_iff_disj)

section \<open>Its ledgers\<close>

definition ledger_at :: "u32 \<Rightarrow> i64 \<Rightarrow> i64 \<Rightarrow> int \<Rightarrow> ledger_info" where
  "ledger_at latest close interval q =
     \<lparr>li_Sequence = word_of_int q, li_LedgerCloseTime = close - word_of_int (uint latest - q) * interval\<rparr>"

lemma ledger_at_sequence:
  assumes "sequence \<le> latest"
  shows "\<lparr>li_Sequence = sequence, li_LedgerCloseTime = close - ucast (latest - sequence) * interval\<rparr> =
    ledger_at latest close interval (uint sequence)"
proof -
  have "uint (latest - sequence) = uint latest - uint sequence"
    using assms uint_sub_lem [of sequence latest] unfolding word_le_def by blast
  then have "ucast (latest - sequence) = (word_of_int (uint latest - uint sequence) :: i64)"
    unfolding ucast_eq by (rule arg_cong)
  then show ?thesis by (simp only: ledger_at_def word_of_int_uint)
qed

lemma uint_next:
  assumes "uint (sequence :: u32) < uint (latest :: u32)"
  shows "uint (sequence + 1) = uint sequence + 1"
  using assms uint_lt2p [of latest] by (simp add: uint_word_ariths)

lemma ledgers_from_map:
  assumes "uint sequence + int n \<le> uint latest + 1"
  shows "ledgers_from n sequence latest close interval =
    map (\<lambda>i. ledger_at latest close interval (uint sequence + int i)) [0..<n]"
  using assms
proof (induction n arbitrary: sequence)
  case (Suc n)
  have le: "sequence \<le> latest" using Suc.prems by (simp add: word_le_def)
  have tail: "ledgers_from n (sequence + 1) latest close interval =
      map (\<lambda>i. ledger_at latest close interval (uint sequence + int (Suc i))) [0..<n]"
  proof (cases n)
    case (Suc m)
    then have next': "uint (sequence + 1) = uint sequence + 1"
      using Suc.prems by (intro uint_next [where latest = latest]) simp
    show ?thesis using Suc.IH [of "sequence + 1"] Suc.prems unfolding next' by (simp add: add_ac)
  qed simp
  show ?case
    unfolding ledgers_from.simps if_P [OF le] ledger_at_sequence [OF le] tail
    by (simp add: upt_conv_Cons map_Suc_upt [symmetric] o_def del: upt_Suc)
qed simp

lemma ledgers_from_stops:
  assumes "uint sequence + int n = uint latest + 1" "n \<le> m" "uint latest + 1 < 2 ^ 32"
  shows "ledgers_from m sequence latest close interval = ledgers_from n sequence latest close interval"
  using assms
proof (induction n arbitrary: m sequence)
  case 0
  then show ?case by (cases m) (auto simp: word_le_def)
next
  case (Suc n)
  then obtain k where m: "m = Suc k" "n \<le> k" by (cases m) auto
  have "uint (sequence + 1) = uint sequence + 1"
    using Suc.prems by (simp add: uint_word_ariths)
  then show ?case using Suc.IH [of "sequence + 1" k] Suc.prems m by simp
qed

text \<open>The window the prober asks for, whole or cut at the first ledger.\<close>

lemma window_of:
  assumes "1 \<le> uint latest"
  shows "uint (window_start latest) + int (nat (min 20 (uint latest))) = uint latest + 1"
proof -
  have lt: "uint latest < 2 ^ 32" using uint_lt2p [of latest] by simp
  show ?thesis
  proof (cases "20 \<le> uint latest")
    case True
    then have "uint (latest - 19) = uint latest - 19" using lt by (simp add: uint_word_ariths)
    with True show ?thesis by (simp add: window_start_def ledgerTimeWindow_def word_le_def)
  next
    case False
    with assms show ?thesis by (simp add: window_start_def ledgerTimeWindow_def word_le_def)
  qed
qed

lemma ledgers_of_window:
  assumes "1 \<le> uint latest"
  shows "ledgers_from 20 (window_start latest) latest close interval =
    map (\<lambda>i. ledger_at latest close interval (uint (window_start latest) + int i)) [0..<nat (min 20 (uint latest))]"
proof (cases "20 \<le> uint latest")
  case True
  then show ?thesis
    using ledgers_from_map [of "window_start latest" 20 latest close interval] window_of [OF assms] by simp
next
  case False
  define n where "n = nat (min 20 (uint latest))"
  have n: "uint (window_start latest) + int n = uint latest + 1" "n \<le> 20"
    using window_of [OF assms] by (simp_all add: n_def)
  have "ledgers_from 20 (window_start latest) latest close interval = ledgers_from n (window_start latest) latest close interval"
    using False n(2) by (intro ledgers_from_stops [OF n(1)]) simp_all
  also have "\<dots> = map (\<lambda>i. ledger_at latest close interval (uint (window_start latest) + int i)) [0..<n]"
    using n(1) by (intro ledgers_from_map) simp
  finally show ?thesis unfolding n_def .
qed

lemma sint_ledger_at:
  assumes "0 \<le> sint close" and "0 \<le> uint latest - q" "(uint latest - q) * k < 2 ^ 33" and "0 \<le> k"
  shows "sint (li_LedgerCloseTime (ledger_at latest close (word_of_int k) q)) = sint close - (uint latest - q) * k"
proof -
  have "li_LedgerCloseTime (ledger_at latest close (word_of_int k) q) =
      word_of_int (sint close - (uint latest - q) * k)"
    by (simp add: ledger_at_def wi_hom_sub [symmetric] wi_hom_mult [symmetric])
  moreover have "0 \<le> (uint latest - q) * k" using assms by (intro mult_nonneg_nonneg)
  then have "sint (word_of_int (sint close - (uint latest - q) * k) :: i64) = sint close - (uint latest - q) * k"
    using assms(1,3) sint_64_range [of close] by (intro sint_64_of_int_eq) simp_all
  ultimately show ?thesis by (simp only:)
qed

section \<open>The close time measured\<close>

text \<open>
  Against the fake the prober measures the very interval the fake was set to, for every whole
  number of seconds, as long as two ledgers have closed: the window asked for, the ledgers
  answered, their order and the average agree.
\<close>

lemma fake_ledgers_measured:
  assumes "2 \<le> uint latest" and "1 \<le> k" "k \<le> 10 ^ 8" and "0 \<le> sint close"
  shows "measured_close_time (ledgers_from 20 (window_start latest) latest close (word_of_int k)) =
    Some (word_of_int (k * 10 ^ 9))"
proof -
  define n where "n = nat (min 20 (uint latest))"
  define w where "w = uint (window_start latest)"
  let ?at = "ledger_at latest close (word_of_int k)"
  have wn: "w + int n = uint latest + 1" "2 \<le> n" "n \<le> 20"
    using window_of [of latest] assms(1) unfolding n_def w_def by simp_all
  have w0: "0 \<le> w" by (simp add: w_def)
  have seq: "uint (li_Sequence (?at q)) = q" if "0 \<le> q" "q \<le> uint latest" for q
    using that uint_32_range [of latest] by (simp add: ledger_at_def uint_word_of_int_eq take_bit_int_eq_self)
  have time: "sint (li_LedgerCloseTime (?at q)) = sint close - (uint latest - q) * k"
    if "w \<le> q" "q \<le> uint latest" for q
  proof (rule sint_ledger_at)
    have "(uint latest - q) * k \<le> 20 * 10 ^ 8" using that wn assms(2,3) by (intro mult_mono) simp_all
    then show "(uint latest - q) * k < 2 ^ 33" by simp
  qed (use that assms in simp_all)
  let ?resp = "map (\<lambda>i. ?at (w + int i)) [0..<n]"
  have q: "0 \<le> w + int i \<and> w \<le> w + int i \<and> w + int i \<le> uint latest" if "i < n" for i
    using that wn w0 by simp
  have inj: "inj_on (\<lambda>i. li_Sequence (?at (w + int i))) (set [0..<n])"
  proof (rule inj_onI)
    fix i j assume "i \<in> set [0..<n]" "j \<in> set [0..<n]"
      and eq: "li_Sequence (?at (w + int i)) = li_Sequence (?at (w + int j))"
    then have "i < n" "j < n" by simp_all
    then have "w + int i = w + int j"
      using arg_cong [OF eq, of uint] seq [of "w + int i"] seq [of "w + int j"] q [of i] q [of j] by metis
    then show "i = j" by simp
  qed
  have d: "distinct (map li_Sequence ?resp)" using inj unfolding list.map_comp o_def distinct_map by simp
  have f: "?at w \<in> set ?resp" using wn by (auto intro!: image_eqI [of _ _ 0])
  have latest: "w + int (n - 1) = uint latest" using wn by simp
  have l: "?at (uint latest) \<in> set ?resp"
    unfolding latest [symmetric] using wn by (auto intro!: image_eqI [of _ _ "n - 1"])
  have sf: "uint (li_Sequence (?at w)) = w" "uint (li_Sequence (?at (uint latest))) = uint latest"
    using seq [of w] seq [of "uint latest"] w0 latest by simp_all
  have order: "\<forall>x \<in> set ?resp. li_Sequence (?at w) \<le> li_Sequence x \<and> li_Sequence x \<le> li_Sequence (?at (uint latest))"
  proof
    fix x assume "x \<in> set ?resp"
    then obtain i where i: "i < n" "x = ?at (w + int i)" by auto
    then show "li_Sequence (?at w) \<le> li_Sequence x \<and> li_Sequence x \<le> li_Sequence (?at (uint latest))"
      using q [OF i(1)] seq [of "w + int i"] unfolding word_le_def sf i(2) by simp
  qed
  have tf: "sint (li_LedgerCloseTime (?at (uint latest))) - sint (li_LedgerCloseTime (?at w)) = (uint latest - w) * k"
    using time [of w] time [of "uint latest"] latest by simp
  have pos: "1 \<le> uint latest - w" "uint latest - w \<le> 20" using wn by simp_all
  have "0 < (uint latest - w) * k" using pos assms(2) by simp
  moreover have "(uint latest - w) * k \<le> 20 * 10 ^ 8" using pos assms by (intro mult_mono) simp_all
  moreover have "(uint latest - w) * k * 10 ^ 9 div (uint latest - w) = k * 10 ^ 9"
    using pos(1) by (simp add: mult.assoc)
  ultimately have "measured_close_time ?resp = Some (word_of_int (k * 10 ^ 9))"
    using measured_average [OF d f l order] pos unfolding tf sf by simp
  then show ?thesis
    using ledgers_of_window [of latest] assms(1) unfolding n_def w_def by simp
qed

text \<open>
  C40. A prober that has measured nothing yet and runs against a fake without injected ledger errors
  reports the fake's own interval between ledgers: asking for the latest
  ledger, choosing the window, reading its ledgers and averaging them give the interval back, for
  every whole number of seconds, as soon as there are two ledgers and whatever the clock says.
\<close>

theorem fake_close_time:
  assumes "fk_LedgerErr (world s) = None" "fk_LedgersErr (world s) = None"
    and "2 \<le> uint (fk_LatestLedger (world s))" "0 \<le> sint (fk_LatestLedgerCloseTime (world s))"
    and "fk_LedgerCloseInterval (world s) = word_of_int (k * 10 ^ 9)" "1 \<le> k" "k \<le> 10 ^ 8"
    and "ledgerTime s = Some \<lparr>lt_duration = 0, lt_measuredAt = t\<rparr>"
  shows "fst (ledgerCloseTime (fake_client D ctx clock) s) =
    Inr (fk_LedgerCloseInterval (world s), NoteMeasured (fk_LedgerCloseInterval (world s)))"
proof -
  have "sint (word_of_int (k * 10 ^ 9) :: i64) = k * 10 ^ 9"
    using assms(6,7) by (intro sint_64_of_int_eq) simp_all
  then have "quot64 (word_of_int (k * 10 ^ 9)) second = word_of_int k"
    using assms(6) by (simp add: quot64_def second_def)
  moreover have "sint (word_of_int k :: i64) = k" using assms(6,7) by (intro sint_64_of_int_eq) simp_all
  ultimately have interval: "fake_interval (world s) = word_of_int k"
    using assms(6) by (simp add: fake_interval_def Let_def assms(5) word_sle_eq)
  note measured = fake_ledgers_measured [OF assms(3,6,7,4)]
  obtain now' w where clock: "clock (world s) = (now', w)" by fastforce
  show ?thesis
    by (simp add: ledgerCloseTime_def ebind_apply assms(8) cache_fresh_def rpc_def fake_client_def fake_latest_def
        fake_ledgers_def assms(1,2) etry_def ledgerTimeWindow_def interval measured now_def clock assms(5))
qed

definition sample_fake :: fake where
  "sample_fake = empty_fake\<lparr>fk_LatestLedger := 100, fk_LatestLedgerCloseTime := 1000,
     fk_LedgerCloseInterval := word_of_int (7 * 10 ^ 9)\<rparr>"

lemma fake_close_time_witness:
  "fst (ledgerCloseTime (fake_client (\<lambda>_. None) (\<lambda>f. (None, f)) (\<lambda>f. (0, f)))
      \<lparr>world = sample_fake, ledgerTime = Some \<lparr>lt_duration = 0, lt_measuredAt = 0\<rparr>, reportCache = None\<rparr>) =
   Inr (word_of_int (7 * 10 ^ 9), NoteMeasured (word_of_int (7 * 10 ^ 9)))"
  using fake_close_time [of "\<lparr>world = sample_fake, ledgerTime = Some \<lparr>lt_duration = 0, lt_measuredAt = 0\<rparr>,
      reportCache = None\<rparr>" 7 0 "\<lambda>_. None" "\<lambda>f. (None, f)" "\<lambda>f. (0, f)"]
  by (simp add: sample_fake_def empty_fake_def)

end
