(* ===== verification/Spec2Isabelle.thy ===== *)
theory Spec2Isabelle
  imports Cost Scval_Registry Wasm_Spec Config_Layers Http_Api Abi_Sources Cli Stellartest
begin

text \<open>
  A verification development for SoroProbe, a read-only health and simulation checker for Soroban
  smart contracts: a Go program that reads a contract's ledger entries and simulates calls over
  Stellar RPC, as a command line and as an HTTP service.

  \<^bold>\<open>The program.\<close> The core is \<^verbatim>\<open>internal/probe\<close>: a \<^verbatim>\<open>Prober\<close> owns an RPC client
  (\<^verbatim>\<open>internal/stellar\<close>), the argument codec (\<^verbatim>\<open>internal/scval\<close>), optionally a source of contract
  interfaces (\<^verbatim>\<open>internal/abi\<close>), two caches, and the thresholds of \<^verbatim>\<open>internal/health\<close>. \<^verbatim>\<open>Inspect\<close> reads
  the instance, code and data entries of a contract and judges how close each is to expiring;
  \<^verbatim>\<open>Simulate\<close> types and encodes arguments, simulates the call, once or repeatedly, and compares its
  cost; \<^verbatim>\<open>Check\<close> runs a pipeline of steps over the two; \<^verbatim>\<open>CheckBatch\<close> runs many checks, in order with
  the entries prefetched or by a pool of workers. \<^verbatim>\<open>internal/config\<close> loads and validates the settings.
  \<^verbatim>\<open>internal/api\<close> serves the probes over HTTP behind a token, a rate limiter and caches;
  \<^verbatim>\<open>cmd/soroprobe\<close> is the command line, whose exit code is a verdict.

  \<^bold>\<open>How it is modelled.\<close> A Go function that may fail returns \<open>error + value\<close>; code with effects
  is an operation \<open>state => (error + value) * state\<close> of theory \<open>Effects\<close>, so what was changed before an
  error stays changed. Go's integers are words of their width with its truncating division
  (\<open>Prelude\<close>), strings are lists of bytes, \<^verbatim>\<open>float64\<close> is an exact rational, an infinity or NaN, rounded
  after every operation (\<open>Go_Float\<close>). A world of any type stands for what is outside: a \<open>client\<close> is a
  record of calls on the world, which may fail and return anything; its \<open>CtxErr\<close> and \<open>Now\<close> are the
  context and the clock. The SDK's XDR and key codecs are the record \<open>sdk_lib\<close>, JSON and YAML readers,
  the file system and the terminal are fields of \<open>platform\<close>, \<open>api_env\<close> and \<open>host\<close>; theorems that need a
  law of them say so as a hypothesis and have a witness that meets it.

  \<^bold>\<open>Theories.\<close>

  \<^item> The library of Go: \<open>Prelude\<close>, \<open>Effects\<close>, \<open>Go_Text\<close>, \<open>Go_Float\<close>, \<open>Go_Json\<close>, \<open>Json_Write\<close>, \<open>Go_Duration\<close>,
    \<open>Duration_String\<close>, \<open>Go_Net\<close> and \<open>Go_Format\<close> hold what the program uses of \<^verbatim>\<open>strings\<close>, \<^verbatim>\<open>strconv\<close>, \<^verbatim>\<open>fmt\<close>,
    \<^verbatim>\<open>encoding/json\<close>, \<^verbatim>\<open>time\<close> and \<^verbatim>\<open>net\<close>. Lemmas: decimal and hexadecimal texts are read back, trimming, the
    exactness and error of float operations, and that a printed duration parses to itself.
  \<^item> \<open>Health\<close> (\<^verbatim>\<open>health.go\<close>): statuses, durabilities, thresholds, \<open>EvaluateWithCloseTime\<close>. Every branch
    of the classification, its monotonicity, and where the estimate of time left wraps.
  \<^item> \<open>Cost\<close> (\<^verbatim>\<open>simulate.go\<close>, \<^verbatim>\<open>spread.go\<close>): comparison with a baseline and the spread of repeated runs,
    in exact integer terms; a gate trips when any of the runs would trip it.
  \<^item> \<open>Scval_Number\<close>, \<open>Scval_Codec\<close>, \<open>Scval_Registry\<close> (\<^verbatim>\<open>internal/scval\<close>): integer literals and scaled
    amounts, the encoders and the decoder, the registry and nested collections. What is encoded is
    decoded; amounts are exact or refused. The registry is behind the locale \<open>codec\<close>.
  \<^item> \<open>Network\<close> (\<^verbatim>\<open>keys.go\<close>, \<^verbatim>\<open>tx.go\<close>, \<^verbatim>\<open>client.go\<close>, errors of the probe layer): the boundary.
  \<^item> \<open>Contract_Abi\<close>, \<open>Wasm_Spec\<close>, \<open>Abi_Sources\<close> (\<^verbatim>\<open>abi.go\<close>, \<^verbatim>\<open>chain.go\<close>, \<^verbatim>\<open>sorovault.go\<close>, \<^verbatim>\<open>client.go\<close>):
    typing of arguments, the interface read from Wasm code without ever indexing out of range, the
    cache of interfaces, which changes no answer, SoroVault, and the live RPC client.
  \<^item> \<open>Inspect_Cache\<close>, \<open>Prober\<close>, \<open>Inspect\<close>, \<open>Simulate\<close>, \<open>Check\<close>, \<open>Batch\<close>, \<open>Workers\<close> (\<^verbatim>\<open>internal/probe\<close>): the
    reports. What a report says of the ledger it was read from; that cached reports are sound in
    every reachable state (the step relation \<open>serving\<close>); that prefetching changes no outcome on a
    stable ledger; that the pool of workers (the step relation \<open>pool_step\<close>), under any schedule, ends
    and reports each check as it is alone. The cache is behind the locale \<open>bounded_store\<close>, the check
    behind \<open>pipeline\<close>, both interpreted on the program's own definitions.
  \<^item> \<open>Config\<close>, \<open>Config_Layers\<close> (\<^verbatim>\<open>config.go\<close>): defaults, file and profile, environment, validation, and
    the choice of layer each setting amounts to.
  \<^item> \<open>Rate_Limit\<close>, \<open>Http_Api\<close> (\<^verbatim>\<open>internal/api\<close>): token buckets, middleware in the order it is mounted,
    handlers and error statuses; in every reachable state of the server (the relation \<open>service\<close>) the
    limiter's table is sound.
  \<^item> \<open>Annotations\<close>, \<open>Cli_Output\<close>, \<open>Cli_Inputs\<close>, \<open>Cli\<close> (\<^verbatim>\<open>cmd/soroprobe\<close>): the annotations, which no text
    can break out of; the text and Markdown reports; flags, key files and percentages; the commands
    and their exit codes. The calculus \<open>verdicts\<close> in \<open>Cli\<close> says what an exit of 0 or 1 implies.
  \<^item> \<open>Stellartest\<close> (\<^verbatim>\<open>stellartest.go\<close>): the fake client of the program's tests, and that the prober
    measures against it exactly the close time it was set to.

  \<^bold>\<open>Bounds and termination.\<close> Every definition is total. The reader of spec entries runs on fuel, the
  length of the section, which is enough for a reader that consumes input (\<open>spec_loop\<close> is then never
  out of fuel); the search through the sections of a module terminates since each one advances the
  position. \<open>ledgers_from\<close> recurses on the number of ledgers the limit still allows. The formatter of
  floats looks for the first digit of a number below one in 400 places, more than a double has, and
  tries up to 17 digits, which identify every double. Fees are printed exactly below 2^51 stroops, and
  measured close times are exact for windows of less than 2^33 seconds.

  \<^bold>\<open>Not modelled.\<close> The declaration of flags and help texts (\<^verbatim>\<open>cobra\<close>), logging, signals, the
  listener with its shutdown and \<^verbatim>\<open>Recoverer\<close> beyond the status it gives, closing the client, the HTTP
  and JSON-RPC transport, the SDK's XDR: these are configuration, input and output, or code of other
  packages, which appear as parameters where a result depends on them. Texts of errors that come
  from other packages are parameters too. The recorder of test fixtures
  (\<^verbatim>\<open>stellartest/record/main.go\<close>) and the generator of manual pages (\<^verbatim>\<open>gen-man/main.go\<close>) only pass data
  between libraries. Negative zero of \<^verbatim>\<open>float64\<close> is zero. Mutual exclusion is taken as given: the locks
  make the operations of the caches and of the limiter atomic steps.
\<close>

end
